(* ===== verification/GoPrelude.thy ===== *)
theory GoPrelude
  imports Complex_Main "HOL-Library.Finite_Map" "HOL-Library.Char_ord" "HOL-Library.List_Lexorder"
    "HOL-Library.Sublist" "HOL-Library.Word"
begin

text \<open>
  The parts of the Go language and of its standard library that several components use:
  maps with an unspecified range order, instants and durations, and the functions of the
  packages strings and strconv on byte strings. The lemmas at the end are the ones the
  component theories share; the collections \<open>go_map\<close>, \<open>go_time\<close> and \<open>go_str\<close> name the groups.
\<close>

named_theorems go_map \<open>facts on Go maps and their iteration\<close>
named_theorems go_time \<open>facts on instants and durations\<close>
named_theorems go_str \<open>facts on the string functions\<close>

section \<open>Panics\<close>

text \<open>The run-time panics the program can raise; an operation that may panic returns a sum.\<close>

datatype go_panic = SendOnClosed | CloseOfClosed | NilDereference | SliceOutOfRange | IndexOutOfRange

type_synonym 'a go = "go_panic + 'a"

text \<open>Continue with the value of a call, or return its error.\<close>

fun and_then :: "'e + 'a \<Rightarrow> ('a \<Rightarrow> 'e + 'b) \<Rightarrow> 'e + 'b" where
  "and_then (Inl e) f = Inl e"
| "and_then (Inr a) f = f a"

section \<open>Maps\<close>

text \<open>
  A Go map is a finite map. A range statement visits every key once, in an order the
  language leaves open and that may differ between two statements: an operation that
  ranges over a map takes the order of that statement as an argument, and
  \<open>range_order\<close> says which lists are such orders.
\<close>

type_synonym ('k, 'v) gomap = "('k, 'v) fmap"

definition range_order :: "('k, 'v) gomap \<Rightarrow> 'k list \<Rightarrow> bool" where
  "range_order m ks \<longleftrightarrow> distinct ks \<and> fset_of_list ks = fmdom m"

definition go_len :: "('k, 'v) gomap \<Rightarrow> nat" where
  "go_len m = fcard (fmdom m)"

text \<open>Indexing a map yields the zero value of the element type when the key is absent.\<close>

definition go_index :: "'v \<Rightarrow> ('k, 'v) gomap \<Rightarrow> 'k \<Rightarrow> 'v" where
  "go_index z m k = (case fmlookup m k of None \<Rightarrow> z | Some v \<Rightarrow> v)"

text \<open>The values a range statement sees, in the order \<open>ks\<close>.\<close>

definition range_values :: "('k, 'v) gomap \<Rightarrow> 'k list \<Rightarrow> 'v list" where
  "range_values m ks = List.map_filter (fmlookup m) ks"

text \<open>
  An operation with several range statements takes a family of orders: for the number of the
  statement and the set of keys, the order of the visit.
\<close>

type_synonym range_orders = "nat \<Rightarrow> string fset \<Rightarrow> string list"

definition valid_orders :: "range_orders \<Rightarrow> bool" where
  "valid_orders ord \<longleftrightarrow> (\<forall>i S. distinct (ord i S) \<and> fset_of_list (ord i S) = S)"

definition lex_orders :: range_orders where
  "lex_orders i S = sorted_list_of_fset S"

section \<open>Time\<close>

text \<open>
  An instant is a number of nanoseconds since the Unix epoch and a duration a number of
  nanoseconds. The zero instant of Go is 1 January of year 1. Subtraction saturates at the
  bounds of a 64-bit duration, as time.Time.Sub does.
\<close>

type_synonym gotime = int
type_synonym duration = int

definition Millisecond :: duration where "Millisecond = 1000000"
definition Second :: duration where "Second = 1000000000"
definition Minute :: duration where "Minute = 60000000000"
definition Hour :: duration where "Hour = 3600000000000"

definition zero_time :: gotime where "zero_time = - 62135596800000000000"

definition max_duration :: duration where "max_duration = 9223372036854775807"
definition min_duration :: duration where "min_duration = - 9223372036854775808"

definition is_zero :: "gotime \<Rightarrow> bool" where
  "is_zero t \<longleftrightarrow> t = zero_time"

definition time_sub :: "gotime \<Rightarrow> gotime \<Rightarrow> duration" where
  "time_sub t u = max min_duration (min max_duration (t - u))"

definition time_unix :: "int \<Rightarrow> gotime" where
  "time_unix s = s * Second"

definition unix_of :: "gotime \<Rightarrow> int" where
  "unix_of t = t div Second"

text \<open>Integer division and remainder truncate towards zero.\<close>

definition go_quot :: "int \<Rightarrow> int \<Rightarrow> int" where
  "go_quot a b = sgn a * sgn b * (\<bar>a\<bar> div \<bar>b\<bar>)"

definition go_rem :: "int \<Rightarrow> int \<Rightarrow> int" where
  "go_rem a b = a - b * go_quot a b"

text \<open>Conversion of a real number to an integer type truncates towards zero.\<close>

definition trunc_rat :: "rat \<Rightarrow> int" where
  "trunc_rat r = (if r < 0 then - \<lfloor>- r\<rfloor> else \<lfloor>r\<rfloor>)"

section \<open>Strings\<close>

fun contains :: "string \<Rightarrow> string \<Rightarrow> bool" where
  "contains [] p \<longleftrightarrow> p = []"
| "contains (c # s) p \<longleftrightarrow> prefix p (c # s) \<or> contains s p"

definition has_prefix :: "string \<Rightarrow> string \<Rightarrow> bool" where
  "has_prefix s p \<longleftrightarrow> prefix p s"

definition has_suffix :: "string \<Rightarrow> string \<Rightarrow> bool" where
  "has_suffix s p \<longleftrightarrow> suffix p s"

definition trim_prefix :: "string \<Rightarrow> string \<Rightarrow> string" where
  "trim_prefix s p = (if prefix p s then drop (length p) s else s)"

text \<open>The white space of strings.TrimSpace and strings.Fields on ASCII text.\<close>

definition is_space :: "char \<Rightarrow> bool" where
  "is_space c \<longleftrightarrow> c \<in> {CHR '' '', CHR 0x09, CHR 0x0A, CHR 0x0B, CHR 0x0C, CHR 0x0D}"

definition trim_space :: "string \<Rightarrow> string" where
  "trim_space s = rev (dropWhile is_space (rev (dropWhile is_space s)))"

text \<open>strings.Split with a one-byte separator.\<close>

fun split_char :: "char \<Rightarrow> string \<Rightarrow> string list" where
  "split_char c [] = [[]]"
| "split_char c (x # xs) =
     (if x = c then [] # split_char c xs
      else case split_char c xs of [] \<Rightarrow> [[x]] | w # ws \<Rightarrow> (x # w) # ws)"

definition fields :: "string \<Rightarrow> string list" where
  "fields s = filter (\<lambda>w. w \<noteq> []) (split_char CHR '' '' (map (\<lambda>c. if is_space c then CHR '' '' else c) s))"

fun join_with :: "string \<Rightarrow> string list \<Rightarrow> string" where
  "join_with sep [] = []"
| "join_with sep [w] = w"
| "join_with sep (w # v # ws) = w @ sep @ join_with sep (v # ws)"

text \<open>strconv: decimal digits of a number and the value of a digit string.\<close>

definition digit_char :: "nat \<Rightarrow> char" where
  "digit_char d = char_of (48 + d)"

definition is_digit :: "char \<Rightarrow> bool" where
  "is_digit c \<longleftrightarrow> 48 \<le> (of_char c :: nat) \<and> (of_char c :: nat) \<le> 57"

definition digit_val :: "char \<Rightarrow> nat" where
  "digit_val c = of_char c - 48"

fun itoa_nat :: "nat \<Rightarrow> string" where
  "itoa_nat n = (if n < 10 then [digit_char n] else itoa_nat (n div 10) @ [digit_char (n mod 10)])"

definition itoa :: "int \<Rightarrow> string" where
  "itoa i = (if i < 0 then CHR ''-'' # itoa_nat (nat (- i)) else itoa_nat (nat i))"

definition dec_value :: "string \<Rightarrow> nat" where
  "dec_value s = foldl (\<lambda>n c. 10 * n + digit_val c) 0 s"

text \<open>strconv.Atoi on a 64-bit platform: an optional sign, then digits, in the int range.\<close>

definition atoi :: "string \<Rightarrow> int option" where
  "atoi s =
     (let neg = (case s of c # _ \<Rightarrow> c = CHR ''-'' | [] \<Rightarrow> False);
          ds = (case s of c # r \<Rightarrow> if c = CHR ''-'' \<or> c = CHR ''+'' then r else s | [] \<Rightarrow> [])
      in if ds = [] \<or> \<not> list_all is_digit ds then None
         else let v = (if neg then - int (dec_value ds) else int (dec_value ds))
              in if v < - 9223372036854775808 \<or> 9223372036854775807 < v then None else Some v)"

section \<open>Shared lemmas\<close>

lemma and_then_Inl: "and_then r f = Inl e \<longleftrightarrow> r = Inl e \<or> (\<exists>a. r = Inr a \<and> f a = Inl e)"
  by (cases r) auto

lemma and_then_Inr: "and_then r f = Inr b \<longleftrightarrow> (\<exists>a. r = Inr a \<and> f a = Inr b)"
  by (cases r) auto

lemma range_order_member [go_map]:
  "range_order m ks \<Longrightarrow> k \<in> set ks \<longleftrightarrow> fmlookup m k \<noteq> None"
  unfolding range_order_def
  by (metis fmdom_notD fmdom_notI fset_of_list_elem not_Some_eq fmlookup_dom_iff)

lemma range_order_distinct [go_map]: "range_order m ks \<Longrightarrow> distinct ks"
  by (simp add: range_order_def)

lemma range_order_length [go_map]: "range_order m ks \<Longrightarrow> length ks = go_len m"
  unfolding range_order_def go_len_def
  by (metis distinct_card fcard.rep_eq fset_of_list.rep_eq)

lemma range_values_set [go_map]:
  "range_order m ks \<Longrightarrow> v \<in> set (range_values m ks) \<longleftrightarrow> (\<exists>k. fmlookup m k = Some v)"
  unfolding range_values_def List.map_filter_def
  using range_order_member [of m ks] by force

lemma range_values_length [go_map]:
  assumes "range_order m ks"
  shows "length (range_values m ks) = go_len m"
proof -
  have "\<forall>k \<in> set ks. fmlookup m k \<noteq> None"
    using range_order_member [OF assms] by blast
  then have "length (range_values m ks) = length ks"
    by (induction ks) (auto simp: range_values_def)
  then show ?thesis using range_order_length [OF assms] by simp
qed

lemma go_len_upd [go_map]:
  "go_len (fmupd k v m) = (if fmlookup m k = None then Suc (go_len m) else go_len m)"
  unfolding go_len_def
  by (auto simp: fcard_finsert_if fmlookup_dom_iff)

lemma go_len_drop_le [go_map]: "go_len (fmdrop k m) \<le> go_len m"
  unfolding go_len_def by (auto intro: fcard_mono)

lemma go_len_empty [simp, go_map]: "go_len fmempty = 0"
  by (simp add: go_len_def)

lemma valid_orders_range [go_map]: "valid_orders ord \<Longrightarrow> range_order m (ord i (fmdom m))"
  by (simp add: valid_orders_def range_order_def)

lemma lex_orders_valid: "valid_orders lex_orders"
proof -
  have "fset_of_list (sorted_list_of_fset S) = S" for S :: "string fset"
    by (rule fset_eqI) (simp add: fset_of_list_elem sorted_list_of_fset.rep_eq)
  then show ?thesis by (simp add: valid_orders_def lex_orders_def sorted_list_of_fset.rep_eq)
qed

lemma time_sub_less [go_time]:
  "- max_duration < d \<Longrightarrow> d \<le> max_duration \<Longrightarrow> time_sub t u < d \<longleftrightarrow> t - u < d"
  by (auto simp: time_sub_def max_duration_def min_duration_def)

lemma time_sub_greater [go_time]:
  "- max_duration < d \<Longrightarrow> d < max_duration \<Longrightarrow> d < time_sub t u \<longleftrightarrow> d < t - u"
  by (auto simp: time_sub_def max_duration_def min_duration_def)

lemma unix_of_time_unix [simp, go_time]: "unix_of (time_unix s) = s"
  by (simp add: unix_of_def time_unix_def Second_def)

lemma contains_iff [go_str]: "contains s p \<longleftrightarrow> sublist p s"
  by (induction s) (auto simp: sublist_Cons_right)

lemma split_char_nonempty [simp, go_str]: "split_char c s \<noteq> []"
  by (induction s) (auto split: list.splits)

lemma join_split_char [go_str]: "join_with [c] (split_char c s) = s"
proof (induction s)
  case Nil
  show ?case by simp
next
  case (Cons x s)
  obtain w ws where "split_char c s = w # ws"
    by (cases "split_char c s") (auto simp: split_char_nonempty)
  then show ?case using Cons by (cases ws) auto
qed

declare itoa_nat.simps [simp del]

lemma split_char_no_sep: "c \<notin> set w \<Longrightarrow> split_char c w = [w]"
  by (induction w) auto

lemma split_char_append:
  "c \<notin> set w \<Longrightarrow> split_char c (w @ c # s) = w # split_char c s"
  by (induction w) auto

lemma split_join_with [go_str]:
  assumes "\<forall>w \<in> set ws. c \<notin> set w" "ws \<noteq> []"
  shows "split_char c (join_with [c] ws) = ws"
  using assms by (induction "[c]" ws rule: join_with.induct) (auto simp: split_char_no_sep split_char_append)

lemma of_char_digit: "d < 10 \<Longrightarrow> (of_char (digit_char d) :: nat) = 48 + d"
  by (simp add: digit_char_def)

lemma digit_char_props [go_str]:
  "d < 10 \<Longrightarrow> is_digit (digit_char d)" "d < 10 \<Longrightarrow> digit_val (digit_char d) = d"
  by (simp_all add: is_digit_def digit_val_def of_char_digit)

lemma itoa_nat_digits [go_str]: "list_all is_digit (itoa_nat n)"
  by (induction n rule: itoa_nat.induct) (subst itoa_nat.simps, auto simp: digit_char_props)

lemma itoa_nat_nonempty [simp]: "itoa_nat n \<noteq> []"
  by (subst itoa_nat.simps) simp

lemma dec_value_itoa [simp, go_str]: "dec_value (itoa_nat n) = n"
proof (induction n rule: itoa_nat.induct)
  case (1 n)
  then show ?case
    by (subst itoa_nat.simps) (auto simp: dec_value_def digit_char_props)
qed

lemma itoa_nat_hd:
  "10 \<le> n \<Longrightarrow> hd (itoa_nat n) \<noteq> CHR ''0''"
proof (induction n rule: itoa_nat.induct)
  case (1 n)
  have z: "digit_char d \<noteq> CHR ''0''" if "0 < d" "d < 10" for d
  proof
    assume "digit_char d = CHR ''0''"
    then have "(of_char (digit_char d) :: nat) = of_char CHR ''0''" by simp
    with of_char_digit [OF that(2)] that(1) show False by simp
  qed
  show ?case
  proof (cases "n div 10 < 10")
    case True
    then have "itoa_nat (n div 10) = [digit_char (n div 10)]" by (subst itoa_nat.simps) simp
    moreover have "0 < n div 10" using 1(2) by simp
    ultimately show ?thesis using z [OF _ True] 1(2) by (subst itoa_nat.simps) simp
  next
    case False
    then show ?thesis using 1 by (subst itoa_nat.simps) simp
  qed
qed

lemma itoa_nat_length: "n < 10 \<Longrightarrow> length (itoa_nat n) = 1"
  by (subst itoa_nat.simps) simp

lemma not_digit_itoa: "\<not> is_digit c \<Longrightarrow> c \<notin> set (itoa_nat n)"
  using itoa_nat_digits [of n] by (auto simp: list_all_iff)

end
