(* ===== verification/RateLimit.thy ===== *)
theory RateLimit
  imports GoPrelude
begin

text \<open>
  The per-source rate limiter of pkg/ratelimit/limiter.go: one token bucket per key and a list
  of entries in order of use that bounds the number of keys. The list elements live in a heap
  because the map of buckets points into the list. Tokens are rational numbers, and every
  floating point operation of the code is followed by the rounding function \<open>fl\<close>, which is a
  parameter: the theorems say what they need of it, or take exact arithmetic.
\<close>

section \<open>State\<close>

record bucket =
  tokens :: rat
  lastFill :: gotime

record entry =
  e_ip :: string
  e_bkt :: bucket

record IPRateLimiter =
  rl_rate :: rat
  rl_burst :: rat
  maxIPs :: int
  buckets :: "(string, nat) gomap"
  lru :: "nat list"
  elems :: "(nat, entry) gomap"
  next_elem :: nat

definition DefaultRate :: rat where "DefaultRate = 10"
definition DefaultBurst :: rat where "DefaultBurst = 20"
definition DefaultMaxIPs :: int where "DefaultMaxIPs = 4096"

definition Limiter_New :: "rat \<Rightarrow> rat \<Rightarrow> int \<Rightarrow> IPRateLimiter" where
  "Limiter_New r b n =
     \<lparr>rl_rate = (if r \<le> 0 then DefaultRate else r),
      rl_burst = (if b \<le> 0 then DefaultBurst else if b < 1 then 1 else b),
      maxIPs = (if n \<le> 0 then DefaultMaxIPs else n),
      buckets = fmempty, lru = [], elems = fmempty, next_elem = 0\<rparr>"

definition Limiter_NewDefault :: IPRateLimiter where
  "Limiter_NewDefault = Limiter_New DefaultRate DefaultBurst DefaultMaxIPs"

section \<open>Operations\<close>

text \<open>time.Duration.Seconds: whole seconds and the rest, converted separately.\<close>

definition seconds :: "(rat \<Rightarrow> rat) \<Rightarrow> duration \<Rightarrow> rat" where
  "seconds fl d = fl (fl (of_int (go_quot d Second)) + fl (fl (of_int (go_rem d Second)) / 1000000000))"

text \<open>Refill one bucket and take a token if there is one.\<close>

definition refill :: "(rat \<Rightarrow> rat) \<Rightarrow> rat \<Rightarrow> rat \<Rightarrow> bucket \<Rightarrow> gotime \<Rightarrow> rat" where
  "refill fl r b bkt now =
     (let t = fl (tokens bkt + fl (seconds fl (time_sub now (lastFill bkt)) * r))
      in if t > b then b else t)"

definition bucket_take :: "(rat \<Rightarrow> rat) \<Rightarrow> rat \<Rightarrow> rat \<Rightarrow> bucket \<Rightarrow> gotime \<Rightarrow> (bool \<times> rat \<times> duration) \<times> bucket" where
  "bucket_take fl r b bkt now =
     (let t = refill fl r b bkt now in
      if t < 1 then ((False, 0, trunc_rat (fl (fl (fl (1 - t) / r) * 1000000000))),
                     bkt\<lparr>tokens := t, lastFill := now\<rparr>)
      else ((True, fl (t - 1), 0), bkt\<lparr>tokens := fl (t - 1), lastFill := now\<rparr>))"

text \<open>Eviction of the least recently used entry when the list is full.\<close>

definition evict :: "IPRateLimiter \<Rightarrow> IPRateLimiter" where
  "evict l =
     (if int (length (lru l)) \<ge> maxIPs l \<and> lru l \<noteq> []
      then let oldest = last (lru l) in
        l\<lparr>lru := butlast (lru l),
          buckets := (case fmlookup (elems l) oldest of None \<Rightarrow> buckets l
             | Some e \<Rightarrow> fmdrop (e_ip e) (buckets l))\<rparr>
      else l)"

definition push_new :: "(rat \<Rightarrow> rat) \<Rightarrow> IPRateLimiter \<Rightarrow> string \<Rightarrow> gotime \<Rightarrow> IPRateLimiter" where
  "push_new fl l key now =
     l\<lparr>lru := next_elem l # lru l,
       elems := fmupd (next_elem l) \<lparr>e_ip = key, e_bkt = \<lparr>tokens = fl (rl_burst l - 1), lastFill = now\<rparr>\<rparr> (elems l),
       buckets := fmupd key (next_elem l) (buckets l),
       next_elem := Suc (next_elem l)\<rparr>"

definition consume :: "(rat \<Rightarrow> rat) \<Rightarrow> IPRateLimiter \<Rightarrow> string \<Rightarrow> gotime \<Rightarrow>
    ((bool \<times> rat \<times> duration) \<times> IPRateLimiter) go" where
  "consume fl l key now =
     (case fmlookup (buckets l) key of
        Some el \<Rightarrow>
          (case fmlookup (elems l) el of
             None \<Rightarrow> Inl NilDereference
           | Some e \<Rightarrow>
               (let (r, bkt') = bucket_take fl (rl_rate l) (rl_burst l) (e_bkt e) now in
                Inr (r, l\<lparr>elems := fmupd el (e\<lparr>e_bkt := bkt'\<rparr>) (elems l),
                          lru := el # remove1 el (lru l)\<rparr>)))
      | None \<Rightarrow> Inr ((True, fl (rl_burst l - 1), 0), push_new fl (evict l) key now))"

definition Limiter_Allow :: "(rat \<Rightarrow> rat) \<Rightarrow> IPRateLimiter \<Rightarrow> string \<Rightarrow> gotime \<Rightarrow> (bool \<times> IPRateLimiter) go" where
  "Limiter_Allow fl l ip now =
     (case consume fl l ip now of Inl p \<Rightarrow> Inl p | Inr ((ok, _, _), l') \<Rightarrow> Inr (ok, l'))"

definition Limiter_Reserve :: "(rat \<Rightarrow> rat) \<Rightarrow> IPRateLimiter \<Rightarrow> string \<Rightarrow> gotime \<Rightarrow>
    ((bool \<times> int \<times> duration) \<times> IPRateLimiter) go" where
  "Limiter_Reserve fl l key now =
     (case consume fl l key now of Inl p \<Rightarrow> Inl p
      | Inr ((ok, rem, after), l') \<Rightarrow> Inr ((ok, trunc_rat rem, after), l'))"

definition Limiter_Burst :: "IPRateLimiter \<Rightarrow> int" where
  "Limiter_Burst l = trunc_rat (rl_burst l)"

definition Limiter_Rate :: "IPRateLimiter \<Rightarrow> rat" where
  "Limiter_Rate l = rl_rate l"

definition Limiter_Reset :: "IPRateLimiter \<Rightarrow> IPRateLimiter" where
  "Limiter_Reset l = l\<lparr>buckets := fmempty, lru := []\<rparr>"

section \<open>Specification: an ordered table of buckets\<close>

text \<open>
  What the limiter promises, without pointers: a list of keys with their buckets, the most
  recently used first.
\<close>

type_synonym table = "(string \<times> bucket) list"

definition table_consume :: "(rat \<Rightarrow> rat) \<Rightarrow> rat \<Rightarrow> rat \<Rightarrow> int \<Rightarrow> table \<Rightarrow> string \<Rightarrow> gotime \<Rightarrow>
    (bool \<times> rat \<times> duration) \<times> table" where
  "table_consume fl r b n xs key now =
     (case map_of xs key of
        Some bkt \<Rightarrow> (let (res, bkt') = bucket_take fl r b bkt now
                     in (res, (key, bkt') # filter (\<lambda>x. fst x \<noteq> key) xs))
      | None \<Rightarrow> ((True, fl (b - 1), 0),
          (key, \<lparr>tokens = fl (b - 1), lastFill = now\<rparr>)
            # (if int (length xs) \<ge> n then butlast xs else xs)))"

definition elem_pair :: "(nat, entry) gomap \<Rightarrow> nat \<Rightarrow> string \<times> bucket" where
  "elem_pair h el = (case fmlookup h el of Some e \<Rightarrow> (e_ip e, e_bkt e) | None \<Rightarrow> ([], \<lparr>tokens = 0, lastFill = 0\<rparr>))"

definition table_of :: "IPRateLimiter \<Rightarrow> table" where
  "table_of l = map (elem_pair (elems l)) (lru l)"

definition limiter_inv :: "IPRateLimiter \<Rightarrow> bool" where
  "limiter_inv l \<longleftrightarrow>
     0 < rl_rate l \<and> 1 \<le> rl_burst l \<and> 0 < maxIPs l \<and> int (length (lru l)) \<le> maxIPs l
     \<and> distinct (lru l)
     \<and> (\<forall>el \<in> set (lru l). el < next_elem l \<and> fmlookup (elems l) el \<noteq> None)
     \<and> (\<forall>k el. fmlookup (buckets l) k = Some el \<longleftrightarrow>
          el \<in> set (lru l) \<and> (\<exists>e. fmlookup (elems l) el = Some e \<and> e_ip e = k))"

text \<open>A run of requests, with their instants, and the answers.\<close>

fun allow_run :: "(rat \<Rightarrow> rat) \<Rightarrow> IPRateLimiter \<Rightarrow> (string \<times> gotime) list \<Rightarrow> bool list go" where
  "allow_run fl l [] = Inr []"
| "allow_run fl l ((k, t) # rs) =
     (case Limiter_Allow fl l k t of
        Inl p \<Rightarrow> Inl p
      | Inr (ok, l') \<Rightarrow> (case allow_run fl l' rs of Inl p \<Rightarrow> Inl p | Inr oks \<Rightarrow> Inr (ok # oks)))"

fun table_run :: "(rat \<Rightarrow> rat) \<Rightarrow> rat \<Rightarrow> rat \<Rightarrow> int \<Rightarrow> table \<Rightarrow> (string \<times> gotime) list \<Rightarrow> bool list" where
  "table_run fl r b n xs [] = []"
| "table_run fl r b n xs ((k, t) # rs) =
     (let ((ok, _, _), xs') = table_consume fl r b n xs k t in ok # table_run fl r b n xs' rs)"

text \<open>The number of requests for \<open>k\<close> that a run allowed.\<close>

definition allowed_for :: "string \<Rightarrow> (string \<times> gotime) list \<Rightarrow> bool list \<Rightarrow> nat" where
  "allowed_for k rs oks = length (filter (\<lambda>((k', _), ok). k' = k \<and> ok) (zip rs oks))"

section \<open>The limiter implements the ordered table\<close>

lemma limiter_new_inv: "limiter_inv (Limiter_New r b n)"
  by (auto simp: limiter_inv_def Limiter_New_def DefaultRate_def DefaultBurst_def DefaultMaxIPs_def)

lemma limiter_buckets:
  "limiter_inv l \<Longrightarrow> fmlookup (buckets l) k = Some el \<longleftrightarrow>
     el \<in> set (lru l) \<and> (\<exists>e. fmlookup (elems l) el = Some e \<and> e_ip e = k)"
  unfolding limiter_inv_def by blast

lemma limiter_elem: "limiter_inv l \<Longrightarrow> el \<in> set (lru l) \<Longrightarrow> \<exists>e. fmlookup (elems l) el = Some e"
  unfolding limiter_inv_def by blast

lemma limiter_invI:
  assumes "0 < rl_rate l" "1 \<le> rl_burst l" "0 < maxIPs l" "int (length (lru l)) \<le> maxIPs l"
    and "distinct (lru l)"
    and "\<And>el. el \<in> set (lru l) \<Longrightarrow> el < next_elem l"
    and "\<And>el. el \<in> set (lru l) \<Longrightarrow> \<exists>e. fmlookup (elems l) el = Some e"
    and "\<And>k el. fmlookup (buckets l) k = Some el \<longleftrightarrow>
           el \<in> set (lru l) \<and> (\<exists>e. fmlookup (elems l) el = Some e \<and> e_ip e = k)"
  shows "limiter_inv l"
  by (simp add: limiter_inv_def assms)

lemma limiter_params:
  assumes "limiter_inv l"
  shows "0 < rl_rate l" "1 \<le> rl_burst l" "0 < maxIPs l" "int (length (lru l)) \<le> maxIPs l"
    "distinct (lru l)" "el \<in> set (lru l) \<Longrightarrow> el < next_elem l"
  using assms by (auto simp: limiter_inv_def)

lemma limiter_unique:
  assumes "limiter_inv l" "x \<in> set (lru l)" "y \<in> set (lru l)"
    and "fst (elem_pair (elems l) x) = fst (elem_pair (elems l) y)"
  shows "x = y"
proof -
  obtain e f where ef: "fmlookup (elems l) x = Some e" "fmlookup (elems l) y = Some f"
    using assms(1-3) limiter_elem by blast
  with assms(4) have "e_ip e = e_ip f" by (simp add: elem_pair_def)
  with ef assms(1-3) have "fmlookup (buckets l) (e_ip e) = Some x" "fmlookup (buckets l) (e_ip e) = Some y"
    using limiter_buckets by metis+
  then show ?thesis by simp
qed

lemma limiter_lookup_Some:
  assumes "limiter_inv l" "fmlookup (buckets l) k = Some el"
  shows "\<exists>e. fmlookup (elems l) el = Some e \<and> e_ip e = k \<and> el \<in> set (lru l)
           \<and> map_of (table_of l) k = Some (e_bkt e)"
proof -
  obtain e where e: "el \<in> set (lru l)" "fmlookup (elems l) el = Some e" "e_ip e = k"
    using assms limiter_buckets by blast
  have "distinct (map fst (table_of l))"
    using limiter_unique [OF assms(1)] limiter_params(5) [OF assms(1)]
    by (auto simp: table_of_def distinct_map inj_on_def)
  moreover have "(k, e_bkt e) \<in> set (table_of l)"
    using e by (force simp: table_of_def elem_pair_def)
  ultimately show ?thesis using e by auto
qed

lemma limiter_lookup_None:
  assumes "limiter_inv l" "fmlookup (buckets l) k = None"
  shows "map_of (table_of l) k = None"
proof -
  have "k \<notin> fst ` set (table_of l)"
  proof
    assume "k \<in> fst ` set (table_of l)"
    then obtain el where el: "el \<in> set (lru l)" "fst (elem_pair (elems l) el) = k"
      by (auto simp: table_of_def)
    then obtain e where "fmlookup (elems l) el = Some e"
      using assms(1) limiter_elem by blast
    with el have "fmlookup (buckets l) k = Some el"
      using limiter_buckets [OF assms(1)] by (simp add: elem_pair_def)
    with assms show False by simp
  qed
  then show ?thesis by (simp add: map_of_eq_None_iff)
qed

lemma move_to_front:
  assumes inv: "limiter_inv l" and b: "fmlookup (buckets l) k = Some el"
    and e: "fmlookup (elems l) el = Some e"
    and l': "l' = l\<lparr>elems := fmupd el (e\<lparr>e_bkt := bkt\<rparr>) (elems l), lru := el # remove1 el (lru l)\<rparr>"
  shows "limiter_inv l'"
    and "table_of l' = (k, bkt) # filter (\<lambda>x. fst x \<noteq> k) (table_of l)"
proof -
  have el: "el \<in> set (lru l)" "e_ip e = k" "distinct (lru l)"
    using limiter_buckets [OF inv, of k el] limiter_params(5) [OF inv] b e by auto
  have set': "set (el # remove1 el (lru l)) = set (lru l)"
    using el by auto
  have len: "length (el # remove1 el (lru l)) = length (lru l)"
    using el length_pos_if_in_set [OF el(1)] by (simp add: length_remove1)
  show "limiter_inv l'"
  proof (rule limiter_invI)
    show "int (length (lru l')) \<le> maxIPs l'" "distinct (lru l')"
      using limiter_params(4) [OF inv] len el by (simp_all add: l')
    show "x < next_elem l'" if "x \<in> set (lru l')" for x
      using that limiter_params(6) [OF inv] set' by (auto simp: l')
    show "\<exists>e. fmlookup (elems l') x = Some e" if "x \<in> set (lru l')" for x
      using that limiter_elem [OF inv] set' by (auto simp: l')
    show "(fmlookup (buckets l') k' = Some x) =
        (x \<in> set (lru l') \<and> (\<exists>e. fmlookup (elems l') x = Some e \<and> e_ip e = k'))" for k' x
      using limiter_buckets [OF inv, of k' x] set' el e by (auto simp: l')
  qed (use limiter_params(1-3) [OF inv] in \<open>simp_all add: l'\<close>)
  have rm: "remove1 el (lru l) = filter (\<lambda>x. fst (elem_pair (elems l) x) \<noteq> k) (lru l)"
  proof -
    have "remove1 el (lru l) = filter (\<lambda>x. el \<noteq> x) (lru l)"
      using el by (simp add: distinct_remove1_removeAll removeAll_filter_not_eq)
    also have "\<dots> = filter (\<lambda>x. fst (elem_pair (elems l) x) \<noteq> k) (lru l)"
    proof (rule filter_cong [OF refl])
      fix x assume "x \<in> set (lru l)"
      from limiter_unique [OF inv this el(1)] show "(el \<noteq> x) = (fst (elem_pair (elems l) x) \<noteq> k)"
        using el(2) e by (auto simp: elem_pair_def)
    qed
    finally show ?thesis .
  qed
  have "map (elem_pair (elems l')) (remove1 el (lru l)) = map (elem_pair (elems l)) (remove1 el (lru l))"
    using el by (intro map_cong) (auto simp: l' elem_pair_def)
  then show "table_of l' = (k, bkt) # filter (\<lambda>x. fst x \<noteq> k) (table_of l)"
    using el rm by (simp add: table_of_def l' elem_pair_def filter_map comp_def)
qed

lemma evict_props:
  assumes inv: "limiter_inv l"
  shows "limiter_inv (evict l)"
    and "int (length (lru (evict l))) < maxIPs l"
    and "table_of (evict l) =
           (if int (length (table_of l)) \<ge> maxIPs l then butlast (table_of l) else table_of l)"
    and "fmlookup (buckets l) k = None \<Longrightarrow> fmlookup (buckets (evict l)) k = None"
proof -
  have "limiter_inv (evict l) \<and> int (length (lru (evict l))) < maxIPs l
      \<and> table_of (evict l) = (if int (length (table_of l)) \<ge> maxIPs l then butlast (table_of l) else table_of l)
      \<and> (fmlookup (buckets l) k = None \<longrightarrow> fmlookup (buckets (evict l)) k = None)"
  proof (cases "int (length (lru l)) \<ge> maxIPs l")
    case False
    then show ?thesis using inv by (simp add: evict_def table_of_def)
  next
    case True
    with limiter_params(3) [OF inv] have ne: "lru l \<noteq> []" by auto
    then obtain ys o' where ys: "lru l = ys @ [o']" by (metis rev_exhaust)
    then obtain e where e: "fmlookup (elems l) o' = Some e"
      using limiter_elem [OF inv, of o'] by auto
    have ev: "evict l = l\<lparr>lru := ys, buckets := fmdrop (e_ip e) (buckets l)\<rparr>"
      using True ys e by (simp add: evict_def)
    have d: "distinct (ys @ [o'])" and len: "int (length (ys @ [o'])) \<le> maxIPs l"
      using limiter_params(4,5) [OF inv] ys by simp_all
    have o': "fmlookup (buckets l) (e_ip e) = Some o'"
      using limiter_buckets [OF inv] ys e by simp
    have "limiter_inv (evict l)"
    proof (rule limiter_invI)
      show "int (length (lru (evict l))) \<le> maxIPs (evict l)" "distinct (lru (evict l))"
        using d len by (simp_all add: ev)
      show "x < next_elem (evict l)" "\<exists>e. fmlookup (elems (evict l)) x = Some e"
        if "x \<in> set (lru (evict l))" for x
        using that limiter_params(6) [OF inv, of x] limiter_elem [OF inv, of x] ys by (simp_all add: ev)
      show "(fmlookup (buckets (evict l)) k' = Some x) =
          (x \<in> set (lru (evict l)) \<and> (\<exists>e. fmlookup (elems (evict l)) x = Some e \<and> e_ip e = k'))" for k' x
        using limiter_buckets [OF inv, of k' x] o' ys d e by (auto simp: ev)
    qed (use limiter_params(1-3) [OF inv] in \<open>simp_all add: ev\<close>)
    then show ?thesis
      using True ys len by (simp add: ev table_of_def butlast_append)
  qed
  then show "limiter_inv (evict l)" "int (length (lru (evict l))) < maxIPs l"
    "table_of (evict l) = (if int (length (table_of l)) \<ge> maxIPs l then butlast (table_of l) else table_of l)"
    "fmlookup (buckets l) k = None \<Longrightarrow> fmlookup (buckets (evict l)) k = None"
    by auto
qed

lemma push_new_props:
  assumes inv: "limiter_inv l" and len: "int (length (lru l)) < maxIPs l"
    and new: "fmlookup (buckets l) k = None"
  shows "limiter_inv (push_new fl l k now)"
    and "table_of (push_new fl l k now) = (k, \<lparr>tokens = fl (rl_burst l - 1), lastFill = now\<rparr>) # table_of l"
proof -
  have fresh: "next_elem l \<notin> set (lru l)"
    using limiter_params(6) [OF inv] by blast
  show "limiter_inv (push_new fl l k now)"
  proof (rule limiter_invI)
    show "(fmlookup (buckets (push_new fl l k now)) k' = Some x) =
        (x \<in> set (lru (push_new fl l k now)) \<and>
         (\<exists>e. fmlookup (elems (push_new fl l k now)) x = Some e \<and> e_ip e = k'))" for k' x
      using limiter_buckets [OF inv, of k' x] new fresh by (auto simp: push_new_def)
    show "x < next_elem (push_new fl l k now)" "\<exists>e. fmlookup (elems (push_new fl l k now)) x = Some e"
      if "x \<in> set (lru (push_new fl l k now))" for x
      using that limiter_params(6) [OF inv, of x] limiter_elem [OF inv, of x] by (auto simp: push_new_def)
  qed (use limiter_params(1-5) [OF inv] len fresh in \<open>simp_all add: push_new_def\<close>)
  show "table_of (push_new fl l k now) = (k, \<lparr>tokens = fl (rl_burst l - 1), lastFill = now\<rparr>) # table_of l"
    using fresh by (auto simp: table_of_def push_new_def elem_pair_def)
qed

lemma evict_frame [simp]:
  "rl_rate (evict l) = rl_rate l" "rl_burst (evict l) = rl_burst l" "maxIPs (evict l) = maxIPs l"
  by (simp_all add: evict_def Let_def)

lemma consume_implements_table:
  assumes "limiter_inv l"
  shows "\<exists>res l'. consume fl l k now = Inr (res, l') \<and> limiter_inv l'
     \<and> rl_rate l' = rl_rate l \<and> rl_burst l' = rl_burst l \<and> maxIPs l' = maxIPs l
     \<and> table_consume fl (rl_rate l) (rl_burst l) (maxIPs l) (table_of l) k now = (res, table_of l')"
proof (cases "fmlookup (buckets l) k")
  case None
  note ev = evict_props [OF assms]
  have "consume fl l k now = Inr ((True, fl (rl_burst l - 1), 0), push_new fl (evict l) k now)"
    using None by (simp add: consume_def)
  moreover note push_new_props [OF ev(1) _ ev(4) [OF None], of fl now]
  ultimately show ?thesis
    using ev(2,3) limiter_lookup_None [OF assms None]
    by (simp add: table_consume_def) (simp add: push_new_def)
next
  case (Some el)
  from limiter_lookup_Some [OF assms Some] obtain e where
    e: "fmlookup (elems l) el = Some e" "map_of (table_of l) k = Some (e_bkt e)" by blast
  obtain res bkt' where take: "bucket_take fl (rl_rate l) (rl_burst l) (e_bkt e) now = (res, bkt')"
    by (meson surj_pair)
  let ?l' = "l\<lparr>elems := fmupd el (e\<lparr>e_bkt := bkt'\<rparr>) (elems l), lru := el # remove1 el (lru l)\<rparr>"
  have "consume fl l k now = Inr (res, ?l')"
    using Some e take by (simp add: consume_def)
  then show ?thesis
    using move_to_front [OF assms Some e(1) refl, of bkt'] e take
    by (intro exI [of _ res] exI [of _ ?l']) (simp add: table_consume_def)
qed

section \<open>Bounds in exact arithmetic\<close>

lemma seconds_exact: "seconds (\<lambda>x. x) d = of_int d / 1000000000"
proof -
  have "(of_int (go_rem d Second) :: rat) = of_int d - 1000000000 * of_int (go_quot d Second)"
    by (simp add: go_rem_def Second_def)
  then show ?thesis by (simp add: seconds_def field_simps)
qed

lemma time_sub_nonneg: "t \<le> u \<Longrightarrow> 0 \<le> time_sub u t"
  and time_sub_le: "t \<le> u \<Longrightarrow> time_sub u t \<le> u - t"
  and time_sub_exact: "t \<le> u \<Longrightarrow> u - t \<le> max_duration \<Longrightarrow> time_sub u t = u - t"
  by (auto simp: time_sub_def max_duration_def min_duration_def)

lemma bucket_take_exact:
  assumes "bucket_take (\<lambda>x. x) r b bkt now = ((ok, rem, after), bkt')"
    and "lastFill bkt \<le> now" "0 \<le> r"
  shows "(if ok then 1 else 0) + tokens bkt' \<le> tokens bkt + r * of_int (now - lastFill bkt) / 1000000000"
    and "lastFill bkt' = now"
proof -
  have "of_int (time_sub now (lastFill bkt)) * r \<le> of_int (now - lastFill bkt) * r"
    using time_sub_le [OF assms(2)] assms(3) by (intro mult_right_mono) (simp_all only: of_int_le_iff)
  then have "refill (\<lambda>x. x) r b bkt now \<le> tokens bkt + r * of_int (now - lastFill bkt) / 1000000000"
    by (simp add: refill_def seconds_exact Let_def field_simps)
  then show "(if ok then 1 else 0) + tokens bkt' \<le> tokens bkt + r * of_int (now - lastFill bkt) / 1000000000"
    "lastFill bkt' = now"
    using assms(1) by (auto simp: bucket_take_def Let_def split: if_splits)
qed

lemma bucket_take_nonneg:
  assumes "bucket_take (\<lambda>x. x) r b bkt now = (res, bkt')"
    and "lastFill bkt \<le> now" "0 \<le> r" "1 \<le> b" "0 \<le> tokens bkt"
  shows "0 \<le> tokens bkt'" and "lastFill bkt' = now"
proof -
  have "0 \<le> of_int (time_sub now (lastFill bkt)) / 1000000000 * r"
    using time_sub_nonneg [OF assms(2)] assms(3) by simp
  then have "0 \<le> refill (\<lambda>x. x) r b bkt now"
    using assms(4,5) by (auto simp: refill_def seconds_exact Let_def)
  then show "0 \<le> tokens bkt'" "lastFill bkt' = now"
    using assms(1) by (auto simp: bucket_take_def Let_def split: if_splits)
qed

text \<open>
  The credit of a key: the tokens it could take now. A key without a bucket has a full one.
\<close>

definition credit :: "rat \<Rightarrow> rat \<Rightarrow> table \<Rightarrow> string \<Rightarrow> gotime \<Rightarrow> rat" where
  "credit r b xs k t = (case map_of xs k of None \<Rightarrow> b
     | Some bkt \<Rightarrow> tokens bkt + r * of_int (t - lastFill bkt) / 1000000000)"

definition table_upto :: "table \<Rightarrow> gotime \<Rightarrow> bool" where
  "table_upto xs t \<longleftrightarrow> distinct (map fst xs) \<and> (\<forall>(k, bkt) \<in> set xs. lastFill bkt \<le> t \<and> 0 \<le> tokens bkt)"

lemma credit_later:
  assumes "0 \<le> r" "t \<le> t'"
  shows "credit r b xs k t' \<le> credit r b xs k t + r * of_int (t' - t) / 1000000000"
  using assms by (auto simp: credit_def algebra_simps add_divide_distrib diff_divide_distrib split: option.splits)
     (simp add: divide_right_mono mult_left_mono)

lemma table_consume_upto:
  assumes "table_upto xs t" "t \<le> now" "0 \<le> r" "1 \<le> b"
    and "table_consume (\<lambda>x. x) r b n xs k now = (res, xs')"
    and "int (card (insert k (fst ` set xs))) \<le> n"
  shows "table_upto xs' now" and "fst ` set xs' = insert k (fst ` set xs)"
    and "j \<noteq> k \<Longrightarrow> map_of xs' j = map_of xs j"
    and "\<exists>bkt. map_of xs' k = Some bkt \<and> lastFill bkt = now"
proof -
  have upto: "distinct (map fst xs)" "\<And>k bkt. (k, bkt) \<in> set xs \<Longrightarrow> lastFill bkt \<le> now"
      "\<And>k bkt. (k, bkt) \<in> set xs \<Longrightarrow> 0 \<le> tokens bkt"
    using assms(1,2) by (force simp: table_upto_def)+
  have "table_upto xs' now \<and> fst ` set xs' = insert k (fst ` set xs) \<and> (j \<noteq> k \<longrightarrow> map_of xs' j = map_of xs j)
      \<and> (\<exists>bkt. map_of xs' k = Some bkt \<and> lastFill bkt = now)"
  proof (cases "map_of xs k")
    case None
    then have k: "k \<notin> fst ` set xs" by (simp add: map_of_eq_None_iff)
    moreover have "card (fst ` set xs) = length xs"
      using distinct_card [OF upto(1)] by simp
    ultimately have "int (length xs) < n"
      using assms(6) by simp
    then show ?thesis
      using None assms(4,5) upto k by (auto simp: table_consume_def table_upto_def)
  next
    case (Some bkt)
    obtain res' bkt' where take: "bucket_take (\<lambda>x. x) r b bkt now = (res', bkt')" by (meson surj_pair)
    have xs': "xs' = (k, bkt') # filter (\<lambda>x. fst x \<noteq> k) xs"
      using Some assms(5) take by (auto simp: table_consume_def)
    have last: "0 \<le> tokens bkt'" "lastFill bkt' = now"
      using bucket_take_nonneg [OF take _ assms(3,4)] upto(2,3) [OF map_of_SomeD [OF Some]] by auto
    have "k \<in> fst ` set xs" using Some by (metis map_of_eq_None_iff option.distinct(1))
    moreover have "map_of (filter (\<lambda>x. fst x \<noteq> k) xs) j = map_of xs j" if "j \<noteq> k"
      using that by (induction xs) auto
    ultimately show ?thesis
      using upto last by (auto simp: xs' table_upto_def distinct_map_filter)
  qed
  then show "table_upto xs' now" "fst ` set xs' = insert k (fst ` set xs)"
    "j \<noteq> k \<Longrightarrow> map_of xs' j = map_of xs j" "\<exists>bkt. map_of xs' k = Some bkt \<and> lastFill bkt = now"
    by auto
qed

lemma table_consume_credit:
  assumes "table_upto xs t" "t \<le> now" "0 \<le> r" "1 \<le> b"
    and "table_consume (\<lambda>x. x) r b n xs k now = ((ok, rem, after), xs')"
    and "int (card (insert k (fst ` set xs))) \<le> n"
  shows "(if k = j \<and> ok then 1 else 0) + credit r b xs' j now \<le> credit r b xs j now"
proof (cases "k = j")
  case False
  then show ?thesis
    using table_consume_upto(3) [OF assms, of j] by (simp add: credit_def)
next
  case True
  show ?thesis
  proof (cases "map_of xs k")
    case None
    then show ?thesis using assms(5) True by (auto simp: table_consume_def credit_def)
  next
    case (Some bkt)
    obtain res' bkt' where take: "bucket_take (\<lambda>x. x) r b bkt now = (res', bkt')" by (meson surj_pair)
    with Some assms(5) have eqs: "res' = (ok, rem, after)" "map_of xs' k = Some bkt'"
      by (auto simp: table_consume_def)
    have "lastFill bkt \<le> now"
      using Some assms(1,2) by (auto simp: table_upto_def dest!: map_of_SomeD)
    from bucket_take_exact [OF _ this assms(3)] take eqs(1)
    show ?thesis using True Some eqs(2) by (auto simp: credit_def)
  qed
qed

lemma table_run_credit:
  assumes "table_upto xs t" "0 \<le> r" "1 \<le> b" "sorted (t # map snd rs)"
    and "\<forall>u \<in> set (map snd rs). u \<le> t1" "t \<le> t1"
    and "int (card (fst ` set xs \<union> fst ` set rs)) \<le> n"
  shows "of_nat (allowed_for j rs (table_run (\<lambda>x. x) r b n xs rs))
    \<le> credit r b xs j t + r * of_int (t1 - t) / 1000000000"
  using assms
proof (induction rs arbitrary: xs t)
  case Nil
  have "0 \<le> r * of_int (t - lastFill bkt) / 1000000000 \<and> 0 \<le> tokens bkt" if "map_of xs j = Some bkt" for bkt
    using Nil.prems(1,2) map_of_SomeD [OF that] by (force simp: table_upto_def)
  then have "0 \<le> credit r b xs j t"
    using Nil.prems(3) by (auto simp: credit_def add_nonneg_nonneg split: option.splits)
  moreover have "0 \<le> r * of_int (t1 - t) / 1000000000" using Nil.prems(2,6) by simp
  ultimately show ?case by (simp add: allowed_for_def)
next
  case (Cons q rs)
  obtain k u where q: "q = (k, u)" by (cases q)
  obtain ok rem after xs' where c: "table_consume (\<lambda>x. x) r b n xs k u = ((ok, rem, after), xs')"
    by (metis surj_pair)
  have tu: "t \<le> u" "u \<le> t1" using Cons.prems(4,5) q by auto
  have "card (insert k (fst ` set xs)) \<le> card (fst ` set xs \<union> fst ` set (q # rs))"
    by (rule card_mono) (auto simp: q)
  then have card: "int (card (insert k (fst ` set xs))) \<le> n" using Cons.prems(7) by linarith
  note step = table_consume_upto(1,2) [OF Cons.prems(1) tu(1) Cons.prems(2,3) c card]
  have "of_nat (allowed_for j rs (table_run (\<lambda>x. x) r b n xs' rs))
      \<le> credit r b xs' j u + r * of_int (t1 - u) / 1000000000"
  proof (rule Cons.IH [OF step(1) Cons.prems(2,3)])
    show "sorted (u # map snd rs)" "\<forall>u \<in> set (map snd rs). u \<le> t1" "u \<le> t1"
      using Cons.prems(4,5) q tu by auto
    have "fst ` set xs' \<union> fst ` set rs = fst ` set xs \<union> fst ` set (q # rs)"
      using step(2) q by auto
    then show "int (card (fst ` set xs' \<union> fst ` set rs)) \<le> n" using Cons.prems(7) by simp
  qed
  moreover have "(if k = j \<and> ok then 1 else 0) + credit r b xs' j u \<le> credit r b xs j u"
    by (rule table_consume_credit [OF Cons.prems(1) tu(1) Cons.prems(2,3) c card])
  moreover have "allowed_for j (q # rs) (table_run (\<lambda>x. x) r b n xs (q # rs)) =
      (if k = j \<and> ok then 1 else 0) + allowed_for j rs (table_run (\<lambda>x. x) r b n xs' rs)"
    by (simp add: q c allowed_for_def)
  moreover have "r * of_int (u - t) / 1000000000 + r * of_int (t1 - u) / 1000000000
      = r * of_int (t1 - t) / 1000000000"
    by (simp add: field_simps)
  ultimately show ?case
    using credit_later [OF Cons.prems(2) tu(1), of b xs j] by (auto split: if_splits)
qed

lemma allow_run_table:
  "limiter_inv l \<Longrightarrow>
   allow_run fl l rs = Inr (table_run fl (rl_rate l) (rl_burst l) (maxIPs l) (table_of l) rs)"
proof (induction rs arbitrary: l)
  case (Cons q rs)
  obtain k t where q: "q = (k, t)" by (cases q)
  from consume_implements_table [OF Cons.prems, of fl k t] obtain ok rem after l' where
    c: "consume fl l k t = Inr ((ok, rem, after), l')" "limiter_inv l'"
      "rl_rate l' = rl_rate l" "rl_burst l' = rl_burst l" "maxIPs l' = maxIPs l"
      "table_consume fl (rl_rate l) (rl_burst l) (maxIPs l) (table_of l) k t = ((ok, rem, after), table_of l')"
    by (metis surj_pair)
  from Cons.IH [OF c(2)] c show ?case by (simp add: q Limiter_Allow_def)
qed simp

section \<open>Rounding\<close>

text \<open>What the bounds on the tokens need of the rounding of floating point numbers.\<close>

definition rounding :: "rat \<Rightarrow> (rat \<Rightarrow> rat) \<Rightarrow> bool" where
  "rounding b fl \<longleftrightarrow> mono fl \<and> fl 0 = 0 \<and> fl b = b"

lemma rounding_nonneg: "rounding b fl \<Longrightarrow> 0 \<le> x \<Longrightarrow> 0 \<le> fl x"
  by (metis monoD rounding_def)

lemma seconds_nonneg:
  assumes "rounding b fl" "0 \<le> d"
  shows "0 \<le> seconds fl d"
proof -
  have "0 \<le> go_quot d Second"
    using assms(2) by (auto simp: go_quot_def Second_def sgn_if)
  moreover have "0 \<le> go_rem d Second"
    using assms(2) by (auto simp: go_rem_def go_quot_def Second_def sgn_if minus_mult_div_eq_mod)
  ultimately show ?thesis
    unfolding seconds_def using rounding_nonneg [OF assms(1)] by (simp add: add_nonneg_nonneg)
qed

lemma bucket_take_bounds:
  assumes "rounding b fl" "0 \<le> r" "1 \<le> b" "lastFill bkt \<le> now" "0 \<le> tokens bkt"
    and "bucket_take fl r b bkt now = (res, bkt')"
  shows "0 \<le> tokens bkt' \<and> tokens bkt' \<le> b \<and> lastFill bkt' = now"
proof -
  have "0 \<le> seconds fl (time_sub now (lastFill bkt)) * r"
    using seconds_nonneg [OF assms(1) time_sub_nonneg [OF assms(4)]] assms(2) by simp
  then have "0 \<le> fl (tokens bkt + fl (seconds fl (time_sub now (lastFill bkt)) * r))"
    using rounding_nonneg [OF assms(1)] assms(5) by (simp add: add_nonneg_nonneg)
  then have t: "0 \<le> refill fl r b bkt now" "refill fl r b bkt now \<le> b"
    using assms(3) by (auto simp: refill_def Let_def)
  have "mono fl" using assms(1) by (simp add: rounding_def)
  then have "fl (refill fl r b bkt now - 1) \<le> fl b"
    by (rule monoD) (use t(2) in simp)
  then have u: "fl (refill fl r b bkt now - 1) \<le> b" using assms(1) by (simp add: rounding_def)
  show ?thesis
  proof (cases "refill fl r b bkt now < 1")
    case True
    then show ?thesis using assms(6) t by (auto simp: bucket_take_def Let_def)
  next
    case False
    then have "0 \<le> fl (refill fl r b bkt now - 1)" by (intro rounding_nonneg [OF assms(1)]) simp
    then show ?thesis using False assms(6) u by (auto simp: bucket_take_def Let_def)
  qed
qed

definition tokens_within :: "rat \<Rightarrow> gotime \<Rightarrow> table \<Rightarrow> bool" where
  "tokens_within b t xs \<longleftrightarrow> (\<forall>(k, bkt) \<in> set xs. 0 \<le> tokens bkt \<and> tokens bkt \<le> b \<and> lastFill bkt \<le> t)"

lemma table_consume_within:
  assumes "rounding b fl" "0 \<le> r" "1 \<le> b" "tokens_within b t xs" "t \<le> now"
    and "table_consume fl r b n xs k now = (res, xs')"
  shows "tokens_within b now xs'"
proof -
  have upto: "0 \<le> tokens bkt \<and> tokens bkt \<le> b \<and> lastFill bkt \<le> now" if "(j, bkt) \<in> set xs" for j bkt
    using assms(4,5) that by (force simp: tokens_within_def)
  show ?thesis
  proof (cases "map_of xs k")
    case None
    have "mono fl" "fl b = b" using assms(1) by (simp_all add: rounding_def)
    then have "0 \<le> fl (b - 1) \<and> fl (b - 1) \<le> b"
      using rounding_nonneg [OF assms(1)] assms(3) monoD [of fl "b - 1" b] by simp
    moreover have "0 \<le> tokens bkt \<and> tokens bkt \<le> b \<and> lastFill bkt \<le> now"
      if "(j, bkt) \<in> set (butlast xs)" for j bkt
      using upto [OF in_set_butlastD [OF that]] .
    ultimately show ?thesis
      using None assms(6) upto by (auto simp: table_consume_def tokens_within_def split: if_splits)
  next
    case (Some bkt)
    obtain res' bkt' where take: "bucket_take fl r b bkt now = (res', bkt')" by (meson surj_pair)
    from bucket_take_bounds [OF assms(1-3) _ _ take] upto [OF map_of_SomeD [OF Some]]
    have "0 \<le> tokens bkt' \<and> tokens bkt' \<le> b \<and> lastFill bkt' = now" by blast
    then show ?thesis
      using Some assms(6) upto take by (auto simp: table_consume_def tokens_within_def)
  qed
qed

section \<open>Properties\<close>

text \<open>
  C13. The limiter implements an ordered table of buckets: in a state that satisfies its
  invariant, a request never panics, answers as the table does, leaves the table the
  specification leaves, and keeps the invariant, which bounds the number of entries by the
  configured maximum and ties the map of buckets to the list of entries.
\<close>

theorem limiter_refines_table:
  assumes "limiter_inv l"
  shows "\<exists>res l'. consume fl l k now = Inr (res, l') \<and> limiter_inv l'
     \<and> table_consume fl (rl_rate l) (rl_burst l) (maxIPs l) (table_of l) k now = (res, table_of l')"
  using consume_implements_table [OF assms] by blast

theorem limiter_refines_table_witness:
  "\<exists>res l'. consume (\<lambda>x. x) Limiter_NewDefault ''10.0.0.1'' 5 = Inr (res, l') \<and> limiter_inv l'
     \<and> table_consume (\<lambda>x. x) (rl_rate Limiter_NewDefault) (rl_burst Limiter_NewDefault)
          (maxIPs Limiter_NewDefault) (table_of Limiter_NewDefault) ''10.0.0.1'' 5 = (res, table_of l')"
  by (rule limiter_refines_table) (simp add: Limiter_NewDefault_def limiter_new_inv)





text \<open>
  Whatever the rounding of the floating point operations, as long as it is monotone and
  exact on zero and on the burst, the tokens of every bucket stay between zero and the burst
  while the clock does not run backwards.
\<close>

theorem tokens_stay_in_range:
  assumes "limiter_inv l" "rounding (rl_burst l) fl"
    and "tokens_within (rl_burst l) t (table_of l)" "t \<le> now"
  shows "\<exists>res l'. consume fl l k now = Inr (res, l') \<and> tokens_within (rl_burst l') now (table_of l')"
proof -
  obtain res l' where c: "consume fl l k now = Inr (res, l')" "rl_burst l' = rl_burst l"
      "table_consume fl (rl_rate l) (rl_burst l) (maxIPs l) (table_of l) k now = (res, table_of l')"
    using consume_implements_table [OF assms(1), of fl k now] by blast
  have "0 \<le> rl_rate l" "1 \<le> rl_burst l" using limiter_params [OF assms(1)] by auto
  from table_consume_within [OF assms(2) this assms(3,4) c(3)] c(1,2) show ?thesis by metis
qed

theorem tokens_stay_in_range_witness:
  "\<exists>res l'. consume (\<lambda>x. x) Limiter_NewDefault ''a'' 7 = Inr (res, l')
     \<and> tokens_within (rl_burst l') 7 (table_of l')"
proof (rule tokens_stay_in_range)
  show "limiter_inv Limiter_NewDefault" by (simp add: Limiter_NewDefault_def limiter_new_inv)
  show "rounding (rl_burst Limiter_NewDefault) (\<lambda>x. x)" by (simp add: rounding_def monoI)
  show "tokens_within (rl_burst Limiter_NewDefault) 0 (table_of Limiter_NewDefault)"
    by (simp add: tokens_within_def table_of_def Limiter_NewDefault_def Limiter_New_def)
qed simp

end
