(* ===== verification/Routes.thy ===== *)
theory Routes
  imports GoPrelude
begin

text \<open>
  Route management: the diff of pkg/routes/routes.go, and the reading and applying of routes on
  the local host (pkg/daemon/routes.go) and over SSH (pkg/ssh/routes.go). The output of the
  external commands is an argument; the commands that are run are returned as a list, and
  \<open>fails\<close> says which of them fail.
\<close>

section \<open>Entries and their diff\<close>

record Entry =
  rt_Network :: string
  rt_Gateway :: string

definition count_char :: "char \<Rightarrow> string \<Rightarrow> nat" where
  "count_char c s = length (filter (\<lambda>d. d = c) s)"

definition NormalizeNetwork :: "string \<Rightarrow> string" where
  "NormalizeNetwork network =
     (if \<not> contains network ''/'' then
        (if count_char CHR ''.'' network = 3 then network @ ''/32''
         else if contains network '':'' then network @ ''/128''
         else network)
      else network)"

definition MakeKey :: "string \<Rightarrow> string \<Rightarrow> string" where
  "MakeKey network gateway = network @ ''|'' @ gateway"

definition route_key :: "Entry \<Rightarrow> string" where
  "route_key r = MakeKey (rt_Network r) (rt_Gateway r)"

definition route_map :: "Entry list \<Rightarrow> (string, Entry) gomap" where
  "route_map rs = foldl (\<lambda>m r. fmupd (route_key r) r m) fmempty rs"

definition by_network :: "Entry list \<Rightarrow> (string, Entry) gomap" where
  "by_network rs = foldl (\<lambda>m r. fmupd (rt_Network r) r m) fmempty rs"

text \<open>The body of the first loop, for one desired route: what it removes.\<close>

definition replaced_route :: "(string, Entry) gomap \<Rightarrow> Entry \<Rightarrow> Entry list" where
  "replaced_route currentByNetwork route =
     (case fmlookup currentByNetwork (rt_Network route) of
        None \<Rightarrow> []
      | Some cur \<Rightarrow> if rt_Gateway cur \<noteq> rt_Gateway route \<and> rt_Gateway cur \<noteq> [] then [cur] else [])"

text \<open>
  \<open>dks\<close> and \<open>cks\<close> are the orders in which the two range statements visit the maps of desired
  and of current routes.
\<close>

definition CalculateDiff :: "string list \<Rightarrow> string list \<Rightarrow> Entry list \<Rightarrow> Entry list \<Rightarrow> Entry list \<times> Entry list" where
  "CalculateDiff dks cks current desired =
     (let currentMap = route_map current; desiredMap = route_map desired;
          currentByNetwork = by_network current; desiredByNetwork = by_network desired;
          new = filter (\<lambda>r. fmlookup currentMap (route_key r) = None) (range_values desiredMap dks);
          gone = filter (\<lambda>r. fmlookup desiredMap (route_key r) = None
                   \<and> fmlookup desiredByNetwork (rt_Network r) = None \<and> rt_Gateway r \<noteq> [])
                 (range_values currentMap cks)
      in (new, concat (map (replaced_route currentByNetwork) new) @ gone))"

section \<open>Reading and applying routes\<close>

fun via_gateway :: "string list \<Rightarrow> string" where
  "via_gateway (p # g # ps) = (if p = ''via'' then g else via_gateway (g # ps))"
| "via_gateway _ = []"

definition parse_route_line :: "string \<Rightarrow> Entry option" where
  "parse_route_line line =
     (case GoPrelude.fields line of
        [] \<Rightarrow> None
      | p # ps \<Rightarrow> Some \<lparr>rt_Network = NormalizeNetwork p, rt_Gateway = via_gateway (p # ps)\<rparr>)"

text \<open>ssh.GetCurrentRoutes keeps the directly connected routes, the daemon drops them.\<close>

definition ssh_GetCurrentRoutes :: "string option \<Rightarrow> Entry list option" where
  "ssh_GetCurrentRoutes output =
     map_option (\<lambda>out. List.map_filter parse_route_line (split_char CHR 0x0A (trim_space out))) output"

definition getCurrentRoutes :: "string option \<Rightarrow> Entry list option" where
  "getCurrentRoutes output =
     map_option (\<lambda>out. filter (\<lambda>r. rt_Gateway r \<noteq> [])
       (List.map_filter parse_route_line (map trim_space (split_char CHR 0x0A (trim_space out))))) output"

type_synonym argv = "string list"

fun run_all :: "(argv \<Rightarrow> bool) \<Rightarrow> argv list \<Rightarrow> argv list \<times> bool" where
  "run_all fails [] = ([], True)"
| "run_all fails (c # cs) =
     (if fails c then ([c], False) else let (done, ok) = run_all fails cs in (c # done, ok))"

definition forward_rule :: "string \<Rightarrow> string \<Rightarrow> argv" where
  "forward_rule flag iface = [''iptables'', flag, ''FORWARD'', ''-i'', iface, ''-o'', iface, ''-j'', ''ACCEPT'']"

definition ensureWGForwardingRule :: "(argv \<Rightarrow> bool) \<Rightarrow> string \<Rightarrow> argv list" where
  "ensureWGForwardingRule fails iface =
     (let check = forward_rule ''-C'' iface in
      if fails check then [check, forward_rule ''-A'' iface] else [check])"

text \<open>The commands that were run and whether the function returned without an error.\<close>

definition applyRouteDiff :: "(argv \<Rightarrow> bool) \<Rightarrow> string \<Rightarrow> Entry list \<Rightarrow> Entry list \<Rightarrow> argv list \<times> bool" where
  "applyRouteDiff fails iface toAdd toRemove =
     (let dels = map (\<lambda>r. [''ip'', ''route'', ''del'', rt_Network r, ''via'', rt_Gateway r, ''dev'', iface]) toRemove;
          (adds, ok) = run_all fails
            (map (\<lambda>r. [''ip'', ''route'', ''replace'', rt_Network r, ''via'', rt_Gateway r, ''dev'', iface]) toAdd)
      in if ok then (dels @ adds @ [[''sysctl'', ''-w'', ''net.ipv4.ip_forward=1'']] @ ensureWGForwardingRule fails iface, True)
         else (dels @ adds, False))"

definition ssh_del_cmd :: "string \<Rightarrow> Entry \<Rightarrow> string" where
  "ssh_del_cmd iface r =
     (if rt_Gateway r \<noteq> []
      then ''ip route del '' @ rt_Network r @ '' via '' @ rt_Gateway r @ '' dev '' @ iface @ '' 2>/dev/null || true''
      else ''ip route del '' @ rt_Network r @ '' dev '' @ iface @ '' 2>/dev/null || true'')"

definition ssh_add_cmd :: "string \<Rightarrow> Entry \<Rightarrow> string" where
  "ssh_add_cmd iface r =
     (if rt_Gateway r \<noteq> []
      then (let route = rt_Network r @ '' via '' @ rt_Gateway r @ '' dev '' @ iface
            in ''ip route add '' @ route @ '' || ip route replace '' @ route)
      else (let route = rt_Network r @ '' dev '' @ iface
            in ''ip route add '' @ route @ '' || ip route replace '' @ route))"

definition ssh_ApplyRouteDiff :: "(string \<Rightarrow> bool) \<Rightarrow> string \<Rightarrow> Entry list \<Rightarrow> Entry list \<Rightarrow> string list \<times> bool" where
  "ssh_ApplyRouteDiff fails iface toAdd toRemove =
     (if toAdd = [] \<and> toRemove = [] then ([], True)
      else let dels = map (ssh_del_cmd iface) toRemove;
               sysctl = ''sysctl -w net.ipv4.ip_forward=1 > /dev/null'';
               (adds, ok) = run_all (\<lambda>c. fails (hd c)) (map (\<lambda>r. [ssh_add_cmd iface r]) toAdd)
           in if ok then (dels @ map hd adds @ [sysctl], \<not> fails sysctl)
              else (dels @ map hd adds, False))"

section \<open>Lemmas\<close>

lemma append_bar_eq:
  assumes "CHR ''|'' \<notin> set a" "CHR ''|'' \<notin> set b"
  shows "a @ CHR ''|'' # x = b @ CHR ''|'' # y \<longleftrightarrow> a = b \<and> x = y"
  using assms by (auto simp: append_eq_append_conv2 Cons_eq_append_conv append_eq_Cons_conv)

lemma route_key_inj:
  assumes "CHR ''|'' \<notin> set (rt_Network r)" "CHR ''|'' \<notin> set (rt_Network s)"
  shows "route_key r = route_key s \<longleftrightarrow> r = s"
  using append_bar_eq [OF assms] by (cases r; cases s) (simp add: route_key_def MakeKey_def)

definition bar_free :: "Entry list \<Rightarrow> bool" where
  "bar_free rs \<longleftrightarrow> list_all (\<lambda>r. CHR ''|'' \<notin> set (rt_Network r)) rs"

lemma foldl_fmupd_Some:
  "fmlookup (foldl (\<lambda>m r. fmupd (f r) r m) m0 rs) k = Some r \<Longrightarrow>
   (r \<in> set rs \<and> f r = k) \<or> fmlookup m0 k = Some r"
  by (induction rs arbitrary: m0) (fastforce split: if_splits)+

lemma foldl_fmupd_None:
  "fmlookup (foldl (\<lambda>m r. fmupd (f r) r m) m0 rs) k = None \<longleftrightarrow> k \<notin> f ` set rs \<and> fmlookup m0 k = None"
  by (induction rs arbitrary: m0) auto

lemma foldl_fmupd_inj:
  assumes "inj_on f (set rs)" "r \<in> set rs"
  shows "fmlookup (foldl (\<lambda>m r. fmupd (f r) r m) fmempty rs) (f r) = Some r"
proof -
  obtain s where s: "fmlookup (foldl (\<lambda>m r. fmupd (f r) r m) fmempty rs) (f r) = Some s"
    using foldl_fmupd_None [of f fmempty rs "f r"] assms(2) by auto
  with foldl_fmupd_Some [OF s] assms have "s = r" by (auto dest: inj_onD)
  with s show ?thesis by simp
qed

lemma route_map_set:
  assumes "bar_free rs" "range_order (route_map rs) ks"
  shows "set (range_values (route_map rs) ks) = set rs"
proof -
  have inj: "inj_on route_key (set rs)"
    using assms(1) route_key_inj by (auto simp: bar_free_def list_all_iff inj_on_def)
  show ?thesis
    using range_values_set [OF assms(2)] foldl_fmupd_inj [OF inj] foldl_fmupd_Some [of route_key fmempty rs]
    by (fastforce simp: route_map_def)
qed

lemma route_map_None:
  assumes "bar_free rs" "CHR ''|'' \<notin> set (rt_Network r)"
  shows "fmlookup (route_map rs) (route_key r) = None \<longleftrightarrow> r \<notin> set rs"
proof -
  have "route_key r \<in> route_key ` set rs \<longleftrightarrow> r \<in> set rs"
    using assms route_key_inj by (fastforce simp: bar_free_def list_all_iff)
  then show ?thesis by (simp add: route_map_def foldl_fmupd_None)
qed

lemma by_network_None: "fmlookup (by_network rs) n = None \<longleftrightarrow> n \<notin> rt_Network ` set rs"
  by (simp add: by_network_def foldl_fmupd_None)

lemma by_network_Some:
  assumes "inj_on rt_Network (set rs)"
  shows "fmlookup (by_network rs) n = Some r \<longleftrightarrow> r \<in> set rs \<and> rt_Network r = n"
  using foldl_fmupd_inj [OF assms] foldl_fmupd_Some [of rt_Network fmempty rs n r]
  by (auto simp: by_network_def)

lemma bar_freeD: "bar_free rs \<Longrightarrow> r \<in> set rs \<Longrightarrow> CHR ''|'' \<notin> set (rt_Network r)"
  by (simp add: bar_free_def list_all_iff)

lemma diff_added:
  assumes "bar_free current" "bar_free desired" "range_order (route_map desired) dks"
  shows "set (fst (CalculateDiff dks cks current desired)) = set desired - set current"
  using assms route_map_set [OF assms(2,3)] route_map_None [OF assms(1)] bar_freeD [OF assms(2)]
  by (auto simp: CalculateDiff_def Let_def)

lemma diff_removed:
  assumes "bar_free current" "bar_free desired"
    and "range_order (route_map desired) dks" "range_order (route_map current) cks"
    and "inj_on rt_Network (set current)" "inj_on rt_Network (set desired)"
  shows "set (snd (CalculateDiff dks cks current desired)) =
         {r \<in> set current. rt_Gateway r \<noteq> [] \<and> r \<notin> set desired}"
proof (rule set_eqI)
  fix r
  let ?new = "fst (CalculateDiff dks cks current desired)"
  have new: "set ?new = set desired - set current" by (rule diff_added [OF assms(1-3)])
  have snd_eq: "set (snd (CalculateDiff dks cks current desired)) =
      (\<Union>d \<in> set ?new. set (replaced_route (by_network current) d)) \<union>
      {r \<in> set current. fmlookup (route_map desired) (route_key r) = None
        \<and> fmlookup (by_network desired) (rt_Network r) = None \<and> rt_Gateway r \<noteq> []}"
    using route_map_set [OF assms(1,4)] by (auto simp: CalculateDiff_def Let_def)
  have repl: "r \<in> set (replaced_route (by_network current) d) \<longleftrightarrow>
      r \<in> set current \<and> rt_Network r = rt_Network d \<and> rt_Gateway r \<noteq> rt_Gateway d \<and> rt_Gateway r \<noteq> []" for d
    using by_network_Some [OF assms(5), of "rt_Network d" r] by_network_None [of current "rt_Network d"]
      by_network_Some [OF assms(5), of "rt_Network d" "the (fmlookup (by_network current) (rt_Network d))"]
    by (cases "fmlookup (by_network current) (rt_Network d)") (auto simp: replaced_route_def)
  have same: "r = d" if "rt_Network r = rt_Network d" "rt_Gateway r = rt_Gateway d" for d
    using that by (cases r; cases d) simp
  show "r \<in> set (snd (CalculateDiff dks cks current desired)) \<longleftrightarrow>
        r \<in> {r \<in> set current. rt_Gateway r \<noteq> [] \<and> r \<notin> set desired}"
  proof (cases "r \<in> set current")
    case True
    have none: "fmlookup (route_map desired) (route_key r) = None \<longleftrightarrow> r \<notin> set desired"
      by (rule route_map_None [OF assms(2) bar_freeD [OF assms(1) True]])
    have left: "(\<exists>d \<in> set desired - set current. rt_Network r = rt_Network d \<and> rt_Gateway r \<noteq> rt_Gateway d)
        \<longleftrightarrow> r \<notin> set desired \<and> rt_Network r \<in> rt_Network ` set desired"
    proof (intro iffI conjI)
      assume "\<exists>d \<in> set desired - set current. rt_Network r = rt_Network d \<and> rt_Gateway r \<noteq> rt_Gateway d"
      then show "r \<notin> set desired" "rt_Network r \<in> rt_Network ` set desired"
        using inj_onD [OF assms(6), of r] by auto
    next
      assume *: "r \<notin> set desired \<and> rt_Network r \<in> rt_Network ` set desired"
      then obtain d where d: "d \<in> set desired" "rt_Network r = rt_Network d" by auto
      then have "d \<notin> set current" using inj_onD [OF assms(5), of r d] True * by auto
      then show "\<exists>d \<in> set desired - set current. rt_Network r = rt_Network d \<and> rt_Gateway r \<noteq> rt_Gateway d"
        using d same [OF d(2)] * by blast
    qed
    show ?thesis
      unfolding snd_eq new using True none left repl by (auto simp: by_network_None)
  next
    case False
    then show ?thesis unfolding snd_eq using repl by auto
  qed
qed

lemma distinct_pair:
  assumes "distinct xs" "set xs = {a, b}" "a \<noteq> b"
  shows "xs = [a, b] \<or> xs = [b, a]"
proof -
  have "length xs = 2" using distinct_card [OF assms(1)] assms(2,3) by simp
  then obtain x y where "xs = [x, y]" by (auto simp: length_Suc_conv numeral_2_eq_2)
  with assms show ?thesis by (auto simp: doubleton_eq_iff)
qed

section \<open>Properties\<close>



text \<open>
  The uniqueness that convergence needs is not established by the callers. When two peers
  advertise the same network, the desired list has two gateways for it, and the diff alternates:
  with one gateway installed it removes that one and adds the other, and with the other installed
  it does the reverse, so no sequence of synchronisations settles.
\<close>

theorem duplicate_network_flaps:
  assumes "g1 \<noteq> g2" "g1 \<noteq> []" "g2 \<noteq> []"
    and "r1 = \<lparr>rt_Network = n, rt_Gateway = g1\<rparr>" "r2 = \<lparr>rt_Network = n, rt_Gateway = g2\<rparr>"
    and "range_order (route_map [r1, r2]) dks"
  shows "CalculateDiff dks [route_key r1] [r1] [r1, r2] = ([r2], [r1])
    \<and> CalculateDiff dks [route_key r2] [r2] [r1, r2] = ([r1], [r2])"
proof -
  have keys: "route_key r1 \<noteq> route_key r2" "r1 \<noteq> r2" "route_key r2 \<noteq> route_key r1"
    using assms(1,4,5) by (simp_all add: route_key_def MakeKey_def)
  have "dks = [route_key r1, route_key r2] \<or> dks = [route_key r2, route_key r1]"
  proof (rule distinct_pair)
    show "distinct dks" using assms(6) by (simp add: range_order_def)
    have "fset_of_list dks = {|route_key r1, route_key r2|}"
      using assms(6) by (simp add: range_order_def route_map_def finsert_commute)
    then show "set dks = {route_key r1, route_key r2}"
      by (metis fset_of_list.rep_eq finsert.rep_eq bot_fset.rep_eq)
    show "route_key r1 \<noteq> route_key r2" by (rule keys(1))
  qed
  moreover have fields: "rt_Network r1 = n" "rt_Network r2 = n" "rt_Gateway r1 = g1" "rt_Gateway r2 = g2"
    by (simp_all add: assms(4,5))
  ultimately show ?thesis
    using keys assms(1-3)
    by (elim disjE) (simp_all add: CalculateDiff_def replaced_route_def route_map_def by_network_def
        range_values_def List.map_filter_def fields)
qed

theorem duplicate_network_flaps_witness:
  "CalculateDiff [''10.1.0.0/16|10.0.0.2'', ''10.1.0.0/16|10.0.0.3''] [''10.1.0.0/16|10.0.0.2'']
     [\<lparr>rt_Network = ''10.1.0.0/16'', rt_Gateway = ''10.0.0.2''\<rparr>]
     [\<lparr>rt_Network = ''10.1.0.0/16'', rt_Gateway = ''10.0.0.2''\<rparr>,
      \<lparr>rt_Network = ''10.1.0.0/16'', rt_Gateway = ''10.0.0.3''\<rparr>]
   = ([\<lparr>rt_Network = ''10.1.0.0/16'', rt_Gateway = ''10.0.0.3''\<rparr>],
      [\<lparr>rt_Network = ''10.1.0.0/16'', rt_Gateway = ''10.0.0.2''\<rparr>])"
  using duplicate_network_flaps [of "''10.0.0.2''" "''10.0.0.3''" _ "''10.1.0.0/16''" _
      "[''10.1.0.0/16|10.0.0.2'', ''10.1.0.0/16|10.0.0.3'']", OF _ _ _ refl refl]
  by (simp add: route_map_def route_key_def MakeKey_def range_order_def finsert_commute)

end
