(* ===== verification/GoNet.thy ===== *)
theory GoNet
  imports GoPrelude
begin

text \<open>
  The part of the Go packages net and net/netip that wgmesh relies on: host and port
  splitting, textual IP addresses of both families, CIDR prefixes and membership in them,
  and the printing of addresses. An address is a list of bytes, 4 or 16 long, as net.IP is.
\<close>

unbundle bit_operations_syntax

type_synonym byte = "8 word"

section \<open>Hosts and ports\<close>

fun index_char :: "char \<Rightarrow> string \<Rightarrow> nat option" where
  "index_char c [] = None"
| "index_char c (x # xs) = (if x = c then Some 0 else map_option Suc (index_char c xs))"

fun last_index_char :: "char \<Rightarrow> string \<Rightarrow> nat option" where
  "last_index_char c [] = None"
| "last_index_char c (x # xs) =
     (case last_index_char c xs of Some i \<Rightarrow> Some (Suc i)
      | None \<Rightarrow> if x = c then Some 0 else None)"

text \<open>net.SplitHostPort; every error of the function is the value None.\<close>

definition split_host_port :: "string \<Rightarrow> (string \<times> string) option" where
  "split_host_port hp =
     (case last_index_char CHR '':'' hp of
        None \<Rightarrow> None
      | Some i \<Rightarrow>
          if hd hp = CHR ''['' then
            (case index_char CHR '']'' hp of
               None \<Rightarrow> None
             | Some e \<Rightarrow>
                 if Suc e \<noteq> i then None
                 else if CHR ''['' \<in> set (drop 1 hp) \<or> CHR '']'' \<in> set (drop (Suc e) hp) then None
                 else Some (take (e - 1) (drop 1 hp), drop (Suc i) hp))
          else
            (if CHR '':'' \<in> set (take i hp) then None
             else if CHR ''['' \<in> set hp \<or> CHR '']'' \<in> set hp then None
             else Some (take i hp, drop (Suc i) hp)))"

definition join_host_port :: "string \<Rightarrow> string \<Rightarrow> string" where
  "join_host_port h p =
     (if CHR '':'' \<in> set h then CHR ''['' # h @ '']:'' @ p else h @ '':'' @ p)"

section \<open>Textual addresses\<close>

text \<open>An octet of a dotted address: 1 to 3 digits without a leading zero, at most 255.\<close>

definition octet_ok :: "string \<Rightarrow> bool" where
  "octet_ok w \<longleftrightarrow> w \<noteq> [] \<and> list_all is_digit w \<and> (length w = 1 \<or> hd w \<noteq> CHR ''0'') \<and> dec_value w \<le> 255"

definition parse_ipv4 :: "string \<Rightarrow> byte list option" where
  "parse_ipv4 s = (let ws = split_char CHR ''.'' s in
     if length ws = 4 \<and> list_all octet_ok ws then Some (map (\<lambda>w. word_of_nat (dec_value w)) ws) else None)"

definition is_hex :: "char \<Rightarrow> bool" where
  "is_hex c \<longleftrightarrow> is_digit c \<or> (97 \<le> (of_char c :: nat) \<and> (of_char c :: nat) \<le> 102)
     \<or> (65 \<le> (of_char c :: nat) \<and> (of_char c :: nat) \<le> 70)"

definition hex_val :: "char \<Rightarrow> nat" where
  "hex_val c = (if is_digit c then of_char c - 48
     else if 97 \<le> (of_char c :: nat) then of_char c - 87 else of_char c - 55)"

definition hex_value :: "string \<Rightarrow> nat" where
  "hex_value s = foldl (\<lambda>n c. 16 * n + hex_val c) 0 s"

text \<open>
  The loop of netip.parseIPv6: at most eight groups, the bytes so far, and the position of
  the ellipsis. The first component of the result is the unread rest.
\<close>

fun ipv6_groups :: "nat \<Rightarrow> string \<Rightarrow> byte list \<Rightarrow> nat option \<Rightarrow>
    (string \<times> byte list \<times> nat option) option" where
  "ipv6_groups 0 s bs ell = Some (s, bs, ell)"
| "ipv6_groups (Suc n) s bs ell =
     (let ds = takeWhile is_hex s; rest = dropWhile is_hex s; v = hex_value ds;
          bs' = bs @ [word_of_nat (v div 256), word_of_nat (v mod 256)]
      in if ds = [] \<or> 4 < length ds then None
         else case rest of
           [] \<Rightarrow> Some ([], bs', ell)
         | c # r \<Rightarrow>
             if c = CHR ''.'' then
               (if ell = None \<and> length bs \<noteq> 12 \<or> 16 < length bs + 4 then None
                else case parse_ipv4 s of None \<Rightarrow> None | Some q \<Rightarrow> Some ([], bs @ q, ell))
             else if c \<noteq> CHR '':'' \<or> r = [] then None
             else if hd r = CHR '':'' then
               (if ell \<noteq> None then None
                else if tl r = [] then Some ([], bs', Some (length bs'))
                else ipv6_groups n (tl r) bs' (Some (length bs')))
             else ipv6_groups n r bs' ell)"

definition parse_ipv6 :: "string \<Rightarrow> byte list option" where
  "parse_ipv6 s =
     (let lead = prefix ''::'' s; s' = (if lead then drop 2 s else s) in
      if lead \<and> s' = [] then Some (replicate 16 0)
      else case ipv6_groups 8 s' [] (if lead then Some 0 else None) of
        None \<Rightarrow> None
      | Some (rest, bs, ell) \<Rightarrow>
          if rest \<noteq> [] then None
          else if length bs < 16 then
            (case ell of None \<Rightarrow> None
             | Some e \<Rightarrow> Some (take e bs @ replicate (16 - length bs) 0 @ drop e bs))
          else if ell \<noteq> None then None else Some bs)"

text \<open>netip.ParseAddr: the first of dot, colon and percent decides the family.\<close>

datatype netip_addr = Addr4 "byte list" | Addr6 "byte list" string

definition parse_addr :: "string \<Rightarrow> netip_addr option" where
  "parse_addr s =
     (case dropWhile (\<lambda>c. c \<notin> {CHR ''.'', CHR '':'', CHR ''%''}) s of
        [] \<Rightarrow> None
      | c # _ \<Rightarrow>
          if c = CHR ''.'' then map_option Addr4 (parse_ipv4 s)
          else if c = CHR '':'' then
            (case index_char CHR ''%'' s of
               None \<Rightarrow> map_option (\<lambda>b. Addr6 b []) (parse_ipv6 s)
             | Some i \<Rightarrow> if drop (Suc i) s = [] then None
                         else map_option (\<lambda>b. Addr6 b (drop (Suc i) s)) (parse_ipv6 (take i s)))
          else None)"

definition v4_in_v6 :: "byte list \<Rightarrow> byte list" where
  "v4_in_v6 q = replicate 10 0 @ [255, 255] @ q"

text \<open>net.IP.Equal.\<close>

definition ip_equal :: "byte list \<Rightarrow> byte list \<Rightarrow> bool" where
  "ip_equal a b \<longleftrightarrow> (if length a = length b then a = b
     else if length a = 4 \<and> length b = 16 then v4_in_v6 a = b
     else if length a = 16 \<and> length b = 4 then a = v4_in_v6 b else False)"

text \<open>net.ParseIP: the 16-byte form; an address with a zone is refused.\<close>

definition parse_ip :: "string \<Rightarrow> byte list option" where
  "parse_ip s = (case parse_addr s of
       Some (Addr4 q) \<Rightarrow> Some (v4_in_v6 q)
     | Some (Addr6 b z) \<Rightarrow> if z = [] then Some b else None
     | None \<Rightarrow> None)"

definition to4 :: "byte list \<Rightarrow> byte list option" where
  "to4 ip = (if length ip = 4 then Some ip
     else if length ip = 16 \<and> take 10 ip = replicate 10 0 \<and> ip ! 10 = 255 \<and> ip ! 11 = 255
     then Some (drop 12 ip) else None)"

section \<open>Printing addresses\<close>

definition hex_digit :: "nat \<Rightarrow> char" where
  "hex_digit d = (if d < 10 then char_of (48 + d) else char_of (87 + d))"

fun hex_nat :: "nat \<Rightarrow> string" where
  "hex_nat n = (if n < 16 then [hex_digit n] else hex_nat (n div 16) @ [hex_digit (n mod 16)])"

definition ipv4_string :: "byte list \<Rightarrow> string" where
  "ipv4_string q = join_with ''.'' (map (\<lambda>b. itoa_nat (unat b)) q)"

fun groups16 :: "byte list \<Rightarrow> nat list" where
  "groups16 (a # b # r) = (256 * unat a + unat b) # groups16 r"
| "groups16 _ = []"

text \<open>
  The run of zero groups that is printed as an ellipsis: the first of the longest runs, of at
  least two groups, as a pair of start and end.
\<close>

definition zero_run :: "nat list \<Rightarrow> (nat \<times> nat) option" where
  "zero_run gs = foldl (\<lambda>best i.
       let j = i + length (takeWhile (\<lambda>g. g = 0) (drop i gs)) in
       if 2 \<le> j - i \<and> (case best of None \<Rightarrow> 0 | Some (a, b) \<Rightarrow> b - a) < j - i then Some (i, j) else best)
     None [0..<length gs]"

definition ipv6_string :: "byte list \<Rightarrow> string" where
  "ipv6_string b = (let gs = groups16 b; hexs = (\<lambda>ks. join_with '':'' (map hex_nat ks)) in
     case zero_run gs of
       None \<Rightarrow> hexs gs
     | Some (i, j) \<Rightarrow> hexs (take i gs) @ ''::'' @ hexs (drop j gs))"

text \<open>net.IP.String on the two lengths the program has.\<close>

definition ip_string :: "byte list \<Rightarrow> string" where
  "ip_string ip = (if ip = [] then ''<nil>''
     else case to4 ip of Some q \<Rightarrow> ipv4_string q | None \<Rightarrow> ipv6_string ip)"

section \<open>Prefixes\<close>

record IPNet =
  net_ip :: "byte list"
  net_mask :: "byte list"

text \<open>net.CIDRMask: \<open>n\<close> ones followed by zeros, in \<open>k\<close> bytes.\<close>

definition cidr_mask :: "nat \<Rightarrow> nat \<Rightarrow> byte list" where
  "cidr_mask n k = map (\<lambda>i. if 8 * Suc i \<le> n then 255
     else if n \<le> 8 * i then 0 else NOT (mask (8 * Suc i - n))) [0..<k]"

definition ip_mask :: "byte list \<Rightarrow> byte list \<Rightarrow> byte list" where
  "ip_mask ip m = map2 (AND) ip m"

definition parse_cidr :: "string \<Rightarrow> (byte list \<times> IPNet) option" where
  "parse_cidr s =
     (case index_char CHR ''/'' s of
        None \<Rightarrow> None
      | Some i \<Rightarrow>
          (let ms = drop (Suc i) s; n = dec_value ms in
           if ms = [] \<or> \<not> list_all is_digit ms \<or> 16777215 \<le> n then None
           else case parse_addr (take i s) of
               None \<Rightarrow> None
             | Some (Addr4 q) \<Rightarrow>
                 if 32 < n then None
                 else Some (v4_in_v6 q, \<lparr>net_ip = ip_mask q (cidr_mask n 4), net_mask = cidr_mask n 4\<rparr>)
             | Some (Addr6 b z) \<Rightarrow>
                 if z \<noteq> [] \<or> 128 < n then None
                 else Some (b, \<lparr>net_ip = ip_mask b (cidr_mask n 16), net_mask = cidr_mask n 16\<rparr>)))"

text \<open>net.IPNet.Contains.\<close>

definition net_contains :: "IPNet \<Rightarrow> byte list \<Rightarrow> bool" where
  "net_contains n ip =
     (let ip' = (case to4 ip of Some q \<Rightarrow> q | None \<Rightarrow> ip);
          nn = (case to4 (net_ip n) of Some q \<Rightarrow> q | None \<Rightarrow> net_ip n);
          m = (if length (net_mask n) = 16 \<and> length nn = 4 then drop 12 (net_mask n) else net_mask n)
      in length ip' = length nn \<and> length m = length nn
         \<and> ip_mask nn m = ip_mask ip' m)"

section \<open>Lemmas\<close>

declare hex_nat.simps [simp del]

lemma last_index_char_None [go_str]: "last_index_char c s = None \<longleftrightarrow> c \<notin> set s"
  by (induction s) (auto split: option.splits)

lemma index_char_None [go_str]: "index_char c s = None \<longleftrightarrow> c \<notin> set s"
  by (induction s) auto

lemma last_index_char_append [go_str]:
  "c \<notin> set p \<Longrightarrow> last_index_char c (h @ c # p) = Some (length h)"
proof (induction h)
  case Nil
  then have "last_index_char c p = None" by (simp add: last_index_char_None)
  then show ?case by simp
qed simp

lemma index_char_append [go_str]:
  "c \<notin> set h \<Longrightarrow> index_char c (h @ c # p) = Some (length h)"
  by (induction h) auto

text \<open>
  Joining a host and a port and splitting the result gives them back, for hosts and ports
  without brackets and ports without colons.
\<close>

lemma split_join_host_port [go_str]:
  assumes "CHR ''['' \<notin> set h" "CHR '']'' \<notin> set h"
    and "CHR ''['' \<notin> set p" "CHR '']'' \<notin> set p" "CHR '':'' \<notin> set p"
  shows "split_host_port (join_host_port h p) = Some (h, p)"
proof (cases "CHR '':'' \<in> set h")
  case True
  let ?s = "CHR ''['' # h @ CHR '']'' # CHR '':'' # p"
  have "last_index_char CHR '':'' ?s = Some (length (CHR ''['' # h @ '']''))"
    using last_index_char_append [of "CHR '':''" p "CHR ''['' # h @ '']''"] assms by simp
  moreover have "index_char CHR '']'' ?s = Some (Suc (length h))"
    using index_char_append [of "CHR '']''" "CHR ''['' # h" "CHR '':'' # p"] assms by simp
  ultimately show ?thesis
    using True assms by (simp add: split_host_port_def join_host_port_def)
next
  case False
  have "last_index_char CHR '':'' (h @ CHR '':'' # p) = Some (length h)"
    using assms by (intro last_index_char_append)
  moreover have "hd (h @ CHR '':'' # p) \<noteq> CHR ''[''"
    using assms by (cases h) auto
  ultimately show ?thesis
    using False assms by (simp add: split_host_port_def join_host_port_def)
qed

lemma parse_ip_length [go_str]: "parse_ipv4 s = Some q \<Longrightarrow> length q = 4"
  by (auto simp: parse_ipv4_def Let_def split: if_splits)

lemma to4_v4_in_v6 [simp]: "length q = 4 \<Longrightarrow> to4 (v4_in_v6 q) = Some q"
  by (simp add: to4_def v4_in_v6_def nth_append)

lemma byte_le: "unat (b :: byte) \<le> 255"
proof -
  have "unat b < 2 ^ LENGTH(8)" by (rule unsigned_less)
  then show ?thesis by simp
qed

lemma octet_ok_itoa: "n \<le> 255 \<Longrightarrow> octet_ok (itoa_nat n)"
  using itoa_nat_digits [of n] itoa_nat_hd [of n] itoa_nat_length [of n]
  by (cases "n < 10") (auto simp: octet_ok_def)

text \<open>Printing a dotted address and parsing it gives the address back.\<close>

lemma parse_ipv4_string [go_str]:
  assumes "length q = 4"
  shows "parse_ipv4 (ipv4_string q) = Some q"
proof -
  let ?ws = "map (\<lambda>b. itoa_nat (unat b)) q"
  have dot: "\<not> is_digit CHR ''.''" by (simp add: is_digit_def)
  have "split_char CHR ''.'' (ipv4_string q) = ?ws"
    unfolding ipv4_string_def using assms not_digit_itoa [OF dot] by (intro split_join_with) auto
  moreover have "list_all octet_ok ?ws"
    using octet_ok_itoa byte_le by (auto simp: list_all_iff)
  moreover have "map (\<lambda>w. word_of_nat (dec_value w)) ?ws = q"
    by (simp add: comp_def)
  ultimately show ?thesis using assms by (simp add: parse_ipv4_def)
qed

lemma dotted_first:
  assumes "length q = 4"
  shows "\<exists>r. dropWhile (\<lambda>c. c \<notin> {CHR ''.'', CHR '':'', CHR ''%''}) (ipv4_string q) = CHR ''.'' # r"
proof -
  obtain a b r where q: "q = a # b # r" using assms by (cases q; cases "tl q") auto
  let ?w = "itoa_nat (unat a)"
  have "\<forall>c \<in> set ?w. c \<notin> {CHR ''.'', CHR '':'', CHR ''%''}"
    using not_digit_itoa [of _ "unat a"] by (auto simp: is_digit_def)
  then have "dropWhile (\<lambda>c. c \<notin> {CHR ''.'', CHR '':'', CHR ''%''}) (?w @ CHR ''.'' # s) = CHR ''.'' # s" for s
    by (subst dropWhile_append2) auto
  then show ?thesis by (simp add: ipv4_string_def q)
qed

lemma parse_ip_ipv4_string [go_str]:
  assumes "length q = 4"
  shows "parse_ip (ipv4_string q) = Some (v4_in_v6 q)"
  using dotted_first [OF assms] parse_ipv4_string [OF assms]
  by (auto simp: parse_ip_def parse_addr_def)

end
