(* ===== verification/Base64.thy ===== *)
theory Base64
  imports GoNet
begin

text \<open>
  The encodings of encoding/base64 that the program uses: the standard alphabet with padding
  and the URL alphabet without. Decoding ignores line breaks, demands complete padding and
  allows nothing after it.
\<close>

definition b64_std :: string where
  "b64_std = ''ABCDEFGHIJKLMNOPQRSTUVWXYZabcdefghijklmnopqrstuvwxyz0123456789+/''"

definition b64_url :: string where
  "b64_url = ''ABCDEFGHIJKLMNOPQRSTUVWXYZabcdefghijklmnopqrstuvwxyz0123456789-_''"

fun b64_encode :: "bool \<Rightarrow> string \<Rightarrow> byte list \<Rightarrow> string" where
  "b64_encode pad al [] = []"
| "b64_encode pad al [a] =
     (let v = unat a in [al ! (v div 4), al ! (16 * (v mod 4))] @ (if pad then ''=='' else []))"
| "b64_encode pad al [a, b] =
     (let v = 256 * unat a + unat b in
      [al ! (v div 1024), al ! (v div 16 mod 64), al ! (4 * (v mod 16))] @ (if pad then ''='' else []))"
| "b64_encode pad al (a # b # c # r) =
     (let v = 65536 * unat a + 256 * unat b + unat c in
      [al ! (v div 262144), al ! (v div 4096 mod 64), al ! (v div 64 mod 64), al ! (v mod 64)]
        @ b64_encode pad al r)"

definition b64_index :: "string \<Rightarrow> char \<Rightarrow> nat option" where
  "b64_index al c = index_char c al"

definition b64_quad :: "nat \<Rightarrow> nat \<Rightarrow> nat \<Rightarrow> nat \<Rightarrow> nat" where
  "b64_quad i j k l = 262144 * i + 4096 * j + 64 * k + l"

definition b64_byte :: "nat \<Rightarrow> byte" where
  "b64_byte n = word_of_nat n"

fun b64_decode_quads :: "string \<Rightarrow> string \<Rightarrow> byte list option" where
  "b64_decode_quads al [] = Some []"
| "b64_decode_quads al (a # b # c # d # r) =
     (case (b64_index al a, b64_index al b) of
        (Some i, Some j) \<Rightarrow>
          if c = CHR ''='' then
            (if d = CHR ''='' \<and> r = [] then Some [b64_byte (b64_quad i j 0 0 div 65536)] else None)
          else (case b64_index al c of None \<Rightarrow> None
            | Some k \<Rightarrow>
                if d = CHR ''='' then
                  (if r = [] then Some [b64_byte (b64_quad i j k 0 div 65536),
                                        b64_byte (b64_quad i j k 0 div 256 mod 256)] else None)
                else (case (b64_index al d, b64_decode_quads al r) of
                    (Some l, Some rest) \<Rightarrow>
                      Some (b64_byte (b64_quad i j k l div 65536) # b64_byte (b64_quad i j k l div 256 mod 256)
                            # b64_byte (b64_quad i j k l mod 256) # rest)
                  | _ \<Rightarrow> None))
      | _ \<Rightarrow> None)"
| "b64_decode_quads al _ = None"

definition b64_decode :: "string \<Rightarrow> byte list option" where
  "b64_decode s = b64_decode_quads b64_std (filter (\<lambda>c. c \<noteq> CHR 0x0A \<and> c \<noteq> CHR 0x0D) s)"

section \<open>Round trip\<close>

lemma index_char_nth: "distinct al \<Longrightarrow> i < length al \<Longrightarrow> index_char (al ! i) al = Some i"
proof (induction al arbitrary: i)
  case (Cons x al)
  then show ?case by (cases i) auto
qed simp

lemma b64_std_distinct: "distinct b64_std" "length b64_std = 64"
  by (simp_all add: b64_std_def)

lemma b64_index_std: "i < 64 \<Longrightarrow> b64_index b64_std (b64_std ! i) = Some i"
  by (simp add: b64_index_def index_char_nth b64_std_distinct)

lemma b64_std_chars: "c \<in> set b64_std \<Longrightarrow> c \<noteq> CHR ''='' \<and> c \<noteq> CHR 0x0A \<and> c \<noteq> CHR 0x0D"
  by (auto simp: b64_std_def)

lemma b64_std_nth: "i < 64 \<Longrightarrow> b64_std ! i \<noteq> CHR ''='' \<and> b64_std ! i \<noteq> CHR 0x0A \<and> b64_std ! i \<noteq> CHR 0x0D"
  using b64_std_chars [of "b64_std ! i"] b64_std_distinct by simp

lemma b64_byte_unat [simp]: "b64_byte (unat b) = b"
  by (simp add: b64_byte_def)

lemma digits64:
  "64 * p + d = v \<Longrightarrow> 64 * q + c = p \<Longrightarrow> 64 * r + b = q \<Longrightarrow> 262144 * r + 4096 * b + 64 * c + d = v"
  for p q r b c d v :: nat
  by simp

lemma digits16:
  "16 * p + d = v \<Longrightarrow> 64 * q + c = p \<Longrightarrow> 262144 * q + 4096 * c + 64 * (4 * d) + 0 = 256 * v"
  for p q c d v :: nat
  by simp

lemma digits4:
  "4 * p + d = v \<Longrightarrow> 262144 * p + 4096 * (16 * d) + 64 * 0 + 0 = 65536 * v"
  for p d v :: nat
  by simp

lemma quad_digits:
  fixes v :: nat
  shows "b64_quad (v div 262144) (v div 4096 mod 64) (v div 64 mod 64) (v mod 64) = v"
proof -
  have "v div 4096 = v div 64 div 64" "v div 262144 = v div 64 div 64 div 64"
    by (simp_all add: div_mult2_eq [symmetric])
  then show ?thesis
    unfolding b64_quad_def by (simp only:) (rule digits64; rule mult_div_mod_eq)
qed

lemma three_bytes:
  fixes a b c :: nat
  assumes "a \<le> 255" "b \<le> 255" "c \<le> 255"
  shows "(65536 * a + 256 * b + c) div 65536 = a" "(65536 * a + 256 * b + c) div 256 mod 256 = b"
    "(65536 * a + 256 * b + c) mod 256 = c" "(65536 * a + 256 * b + c) div 262144 < 64"
proof -
  have x: "65536 * a + 256 * b + c = 256 * (256 * a + b) + c" by simp
  have "(256 * x + c) div 256 = x" "(256 * x + c) mod 256 = c" for x using assms(3) by simp_all
  then have d: "(65536 * a + 256 * b + c) div 256 = 256 * a + b" "(65536 * a + 256 * b + c) mod 256 = c"
    unfolding x by blast+
  have "(65536 * a + 256 * b + c) div 65536 = (65536 * a + 256 * b + c) div 256 div 256"
    by (simp add: div_mult2_eq [symmetric])
  then show "(65536 * a + 256 * b + c) div 65536 = a" "(65536 * a + 256 * b + c) div 256 mod 256 = b"
    "(65536 * a + 256 * b + c) mod 256 = c"
    using d assms by simp_all
  show "(65536 * a + 256 * b + c) div 262144 < 64"
    using assms by (intro less_mult_imp_div_less) linarith
qed

lemma two_bytes:
  fixes a b :: nat
  assumes "a \<le> 255" "b \<le> 255"
  defines "v \<equiv> 256 * a + b"
  shows "b64_quad (v div 1024) (v div 16 mod 64) (4 * (v mod 16)) 0 = 65536 * a + 256 * b + 0"
    and "v div 1024 < 64" "4 * (v mod 16) < 64"
proof -
  have "v div 1024 = v div 16 div 64" by (simp add: div_mult2_eq [symmetric])
  then have "b64_quad (v div 1024) (v div 16 mod 64) (4 * (v mod 16)) 0 = 256 * v"
    unfolding b64_quad_def by (simp only:) (rule digits16; rule mult_div_mod_eq)
  then show "b64_quad (v div 1024) (v div 16 mod 64) (4 * (v mod 16)) 0 = 65536 * a + 256 * b + 0"
    by (simp add: v_def)
  show "v div 1024 < 64" using assms by (intro less_mult_imp_div_less) simp
  have "v mod 16 < 16" by simp
  then show "4 * (v mod 16) < 64" by simp
qed

lemma one_byte:
  fixes a :: nat
  assumes "a \<le> 255"
  shows "b64_quad (a div 4) (16 * (a mod 4)) 0 0 = 65536 * a + 256 * 0 + 0" "a div 4 < 64" "16 * (a mod 4) < 64"
proof -
  have "b64_quad (a div 4) (16 * (a mod 4)) 0 0 = 65536 * a"
    unfolding b64_quad_def by (rule digits4) (rule mult_div_mod_eq)
  then show "b64_quad (a div 4) (16 * (a mod 4)) 0 0 = 65536 * a + 256 * 0 + 0" by simp
  have "a mod 4 < 4" by simp
  then show "16 * (a mod 4) < 64" by simp
  show "a div 4 < 64" using assms by simp
qed

lemma b64_decode_encode_quads: "b64_decode_quads b64_std (b64_encode True b64_std bs) = Some bs"
proof (induction True b64_std bs rule: b64_encode.induct)
  case (2 a)
  note a = byte_le [of a]
  show ?case
    using one_byte [OF a] three_bytes(1) [OF a, of 0 0] by (simp add: b64_index_std Let_def)
next
  case (3 a b)
  note ab = byte_le [of a] byte_le [of b]
  let ?v = "256 * unat a + unat b"
  show ?case
    using two_bytes [OF ab] three_bytes(1,2) [OF ab, of 0] b64_std_nth [of "4 * (?v mod 16)"]
    by (simp add: b64_index_std Let_def)
next
  case (4 a b c r)
  note abc = byte_le [of a] byte_le [of b] byte_le [of c]
  let ?v = "65536 * unat a + 256 * unat b + unat c"
  show ?case
    using 4 quad_digits [of ?v] three_bytes [OF abc] b64_std_nth [of "?v div 64 mod 64"] b64_std_nth [of "?v mod 64"]
    by (simp add: b64_index_std Let_def)
qed simp

lemma b64_encode_chars:
  assumes "length al = 64"
  shows "set (b64_encode pad al bs) \<subseteq> set al \<union> (if pad then {CHR ''=''} else {})"
  using assms
proof (induction pad al bs rule: b64_encode.induct)
  case (2 pad al a)
  then have "al ! (unat a div 4) \<in> set al" "al ! (16 * (unat a mod 4)) \<in> set al"
    using one_byte(2,3) [OF byte_le [of a]] by simp_all
  then show ?case by (auto simp: Let_def)
next
  case (3 pad al a b)
  let ?v = "256 * unat a + unat b"
  have "al ! (?v div 1024) \<in> set al" "al ! (?v div 16 mod 64) \<in> set al" "al ! (4 * (?v mod 16)) \<in> set al"
    using 3 two_bytes(2,3) [OF byte_le [of a] byte_le [of b]] by simp_all
  then show ?case by (auto simp: Let_def)
next
  case (4 pad al a b c r)
  let ?v = "65536 * unat a + 256 * unat b + unat c"
  have "al ! (?v div 262144) \<in> set al" "al ! (?v div 4096 mod 64) \<in> set al"
      "al ! (?v div 64 mod 64) \<in> set al" "al ! (?v mod 64) \<in> set al"
    using 4(2) three_bytes(4) [OF byte_le [of a] byte_le [of b] byte_le [of c]] by simp_all
  with 4(1) [OF refl 4(2)] show ?case by (simp add: Let_def)
qed simp

lemma b64_decode_encode [simp]: "b64_decode (b64_encode True b64_std bs) = Some bs"
proof -
  have "filter (\<lambda>c. c \<noteq> CHR 0x0A \<and> c \<noteq> CHR 0x0D) (b64_encode True b64_std bs) = b64_encode True b64_std bs"
    by (rule filter_True) (use b64_encode_chars [OF b64_std_distinct(2), of True bs] in \<open>auto simp: b64_std_def\<close>)
  then show ?thesis by (simp add: b64_decode_def b64_decode_encode_quads)
qed

end
