(* ===== verification/Sha256.thy ===== *)
theory Sha256
  imports GoNet
begin

text \<open>
  The hash functions of the Go standard library that wgmesh uses: SHA-256 and its HMAC, and
  the 64-bit FNV-1a hash. Byte strings are lists of 8-bit words. Key derivation by HKDF
  comes from a module outside the repository and stays a parameter of the theories that
  use it.
\<close>

section \<open>Bytes\<close>

definition bytes_of :: "string \<Rightarrow> byte list" where
  "bytes_of s = map of_char s"

definition be_bytes32 :: "32 word \<Rightarrow> byte list" where
  "be_bytes32 w = [ucast (drop_bit 24 w), ucast (drop_bit 16 w), ucast (drop_bit 8 w), ucast w]"

definition be_word32 :: "byte list \<Rightarrow> 32 word" where
  "be_word32 bs = foldl (\<lambda>w b. push_bit 8 w OR ucast b) 0 bs"

definition be_word64 :: "byte list \<Rightarrow> 64 word" where
  "be_word64 bs = foldl (\<lambda>w b. push_bit 8 w OR ucast b) 0 bs"

definition be_word16 :: "byte list \<Rightarrow> 16 word" where
  "be_word16 bs = foldl (\<lambda>w b. push_bit 8 w OR ucast b) 0 bs"

definition be_bytes64 :: "64 word \<Rightarrow> byte list" where
  "be_bytes64 w = map (\<lambda>i. ucast (drop_bit (8 * i) w)) (rev [0..<8])"

section \<open>SHA-256\<close>

type_synonym sha_state = "32 word \<times> 32 word \<times> 32 word \<times> 32 word \<times> 32 word \<times> 32 word \<times> 32 word \<times> 32 word"

text \<open>
  The constants are computed from their meaning: the first 32 bits of the fractional parts of
  the square roots of the first eight primes and of the cube roots of the first 64. The root
  is found bit by bit, from bit 35 down, as the largest \<open>r\<close> with \<open>r ^ n \<le> p * 2 ^ (32 * n)\<close>.
\<close>

definition root_frac :: "nat \<Rightarrow> nat \<Rightarrow> 32 word" where
  "root_frac n p =
     word_of_nat (foldl (\<lambda>r i. if (r + 2 ^ i) ^ n \<le> p * 2 ^ (32 * n) then r + 2 ^ i else r) 0 (rev [0..<36]))"

definition is_prime :: "nat \<Rightarrow> bool" where
  "is_prime n \<longleftrightarrow> 1 < n \<and> list_all (\<lambda>d. n mod d \<noteq> 0) [2..<n]"

definition sha_primes :: "nat list" where
  "sha_primes = filter is_prime [2..<312]"

definition sha_k :: "32 word list" where
  "sha_k = map (root_frac 3) sha_primes"

definition sha_init :: sha_state where
  "sha_init = (case map (root_frac 2) (take 8 sha_primes) of
       [a, b, c, d, e, f, g, h] \<Rightarrow> (a, b, c, d, e, f, g, h)
     | _ \<Rightarrow> (0, 0, 0, 0, 0, 0, 0, 0))"

definition rotr :: "nat \<Rightarrow> 32 word \<Rightarrow> 32 word" where
  "rotr n w = drop_bit n w OR push_bit (32 - n) w"

definition sha_extend :: "32 word list \<Rightarrow> 32 word list" where
  "sha_extend ws =
     (let i = length ws; x = ws ! (i - 15); y = ws ! (i - 2) in
      ws @ [ws ! (i - 16) + (rotr 7 x XOR rotr 18 x XOR drop_bit 3 x) + ws ! (i - 7)
            + (rotr 17 y XOR rotr 19 y XOR drop_bit 10 y)])"

definition sha_schedule :: "byte list \<Rightarrow> 32 word list" where
  "sha_schedule blk = (sha_extend ^^ 48) (map (\<lambda>i. be_word32 (take 4 (drop (4 * i) blk))) [0..<16])"

fun sha_round :: "sha_state \<Rightarrow> 32 word \<times> 32 word \<Rightarrow> sha_state" where
  "sha_round (a, b, c, d, e, f, g, h) (k, w) =
     (let t1 = h + (rotr 6 e XOR rotr 11 e XOR rotr 25 e) + ((e AND f) XOR (NOT e AND g)) + k + w;
          t2 = (rotr 2 a XOR rotr 13 a XOR rotr 22 a) + ((a AND b) XOR (a AND c) XOR (b AND c))
      in (t1 + t2, a, b, c, d + t1, e, f, g))"

fun sha_add :: "sha_state \<Rightarrow> sha_state \<Rightarrow> sha_state" where
  "sha_add (a, b, c, d, e, f, g, h) (a', b', c', d', e', f', g', h') =
     (a + a', b + b', c + c', d + d', e + e', f + f', g + g', h + h')"

definition sha_compress :: "sha_state \<Rightarrow> byte list \<Rightarrow> sha_state" where
  "sha_compress st blk = sha_add st (foldl sha_round st (zip sha_k (sha_schedule blk)))"

definition sha_pad :: "byte list \<Rightarrow> byte list" where
  "sha_pad m = m @ [0x80] @ replicate ((119 - length m mod 64) mod 64) 0
     @ be_bytes64 (word_of_nat (8 * length m))"

definition sha_blocks :: "byte list \<Rightarrow> byte list list" where
  "sha_blocks p = map (\<lambda>i. take 64 (drop (64 * i) p)) [0..<length p div 64]"

fun sha_digest :: "sha_state \<Rightarrow> byte list" where
  "sha_digest (a, b, c, d, e, f, g, h) = concat (map be_bytes32 [a, b, c, d, e, f, g, h])"

definition sha256 :: "byte list \<Rightarrow> byte list" where
  "sha256 m = sha_digest (foldl sha_compress sha_init (sha_blocks (sha_pad m)))"

section \<open>HMAC and FNV\<close>

definition hmac_sha256 :: "byte list \<Rightarrow> byte list \<Rightarrow> byte list" where
  "hmac_sha256 key m =
     (let k0 = (if length key > 64 then sha256 key else key);
          k = k0 @ replicate (64 - length k0) 0
      in sha256 (map (\<lambda>b. b XOR 0x5c) k @ sha256 (map (\<lambda>b. b XOR 0x36) k @ m)))"

definition fnv64a :: "byte list \<Rightarrow> 64 word" where
  "fnv64a bs = foldl (\<lambda>h b. (h XOR ucast b) * 1099511628211) 14695981039346656037 bs"

section \<open>Lemmas\<close>

lemma sha_digest_length [simp]: "length (sha_digest st) = 32"
  by (cases st rule: sha_digest.cases) (simp add: be_bytes32_def)

lemma sha256_length [simp]: "length (sha256 m) = 32"
  by (simp add: sha256_def)

lemma hmac_sha256_length [simp]: "length (hmac_sha256 k m) = 32"
  by (simp add: hmac_sha256_def Let_def)

lemma unat_of_char: "unat (of_char c :: byte) = of_char c"
proof -
  have "(of_char c :: byte) = word_of_nat (of_char c)" by (simp add: of_nat_of_char)
  then show ?thesis by (simp add: unsigned_of_nat take_bit_eq_mod)
qed

lemma of_char_byte_inj: "(of_char c :: byte) = of_char d \<longleftrightarrow> c = d"
  by (metis unat_of_char of_char_eq_iff)

end
