(* ===== verification/NetArith.thy ===== *)
theory NetArith
  imports Sha256
begin

text \<open>
  Arithmetic on IPv4 addresses: four bytes as a 32-bit word, masks and prefixes, and the
  relation between the byte-wise operations of package net and the operations on words.
\<close>

lemma bit_be_word32:
  "bit (be_word32 [a, b, c, d]) i \<longleftrightarrow>
     (if i < 8 then bit d i else if i < 16 then bit c (i - 8)
      else if i < 24 then bit b (i - 16) else i < 32 \<and> bit a (i - 24))"
  by (auto simp: be_word32_def bit_simps not_less dest: bit_imp_le_length)

lemma be_word32_mask:
  "be_word32 (ip_mask [a, b, c, d] [m0, m1, m2, m3]) = be_word32 [a, b, c, d] AND be_word32 [m0, m1, m2, m3]"
  by (rule bit_word_eqI) (simp add: ip_mask_def bit_be_word32 bit_and_iff)

lemma be_word32_bytes: "be_bytes32 (be_word32 [a, b, c, d]) = [a, b, c, d]"
  unfolding be_bytes32_def
  by (auto intro!: bit_word_eqI simp: bit_be_word32 bit_simps dest: bit_imp_le_length)

lemma four_bytes: "length q = 4 \<Longrightarrow> \<exists>a b c d. q = [a, b, c, d]"
  by (auto simp: numeral_eq_Suc length_Suc_conv)

lemma be_word32_inj:
  "length p = 4 \<Longrightarrow> length q = 4 \<Longrightarrow> be_word32 p = be_word32 q \<longleftrightarrow> p = q"
  using four_bytes [of p] four_bytes [of q] be_word32_bytes by metis

lemma be_word32_cidr_mask:
  assumes "n \<le> 32"
  shows "be_word32 (cidr_mask n 4) = NOT (mask (32 - n))"
proof -
  have "n \<in> set [0..<33]" using assms by auto
  then show ?thesis
    by (simp add: upt_rec [of _ "33"] upt_rec) (elim disjE; simp add: cidr_mask_def be_word32_def mask_eq_exp_minus_1 upt_rec)
qed

lemma unat_or_byte:
  assumes "unat (w :: 32 word) < 2 ^ 24"
  shows "unat (push_bit 8 w OR ucast (b :: byte)) = 256 * unat w + unat b"
proof -
  have "push_bit 8 w AND ucast b = (0 :: 32 word)"
    by (rule bit_word_eqI) (auto simp: bit_simps dest: bit_imp_le_length)
  then have "push_bit 8 w OR ucast b = push_bit 8 w + (ucast b :: 32 word)"
    by (simp add: disjunctive_add_eq_or)
  moreover have "unat (push_bit 8 w) = 256 * unat w"
    using assms by (simp add: push_bit_eq_mult unat_word_ariths)
  moreover have "unat (ucast b :: 32 word) = unat b"
    using byte_le [of b] by (simp add: unsigned_ucast_eq take_bit_nat_eq_self_iff)
  moreover have "unat b < 256" using byte_le [of b] by simp
  ultimately show ?thesis using assms by (simp add: unat_word_ariths)
qed

lemma unat_be_word32:
  "unat (be_word32 [a, b, c, d]) = ((unat a * 256 + unat b) * 256 + unat c) * 256 + unat d"
proof -
  note le = byte_le [of a] byte_le [of b] byte_le [of c] byte_le [of d]
  let ?w1 = "push_bit 8 0 OR ucast a :: 32 word"
  have 1: "unat ?w1 = unat a" using unat_or_byte [of 0 a] by simp
  let ?w2 = "push_bit 8 ?w1 OR ucast b"
  have 2: "unat ?w2 = 256 * unat a + unat b" using unat_or_byte [of ?w1 b] 1 le by simp
  let ?w3 = "push_bit 8 ?w2 OR ucast c"
  have 3: "unat ?w3 = 256 * (256 * unat a + unat b) + unat c" using unat_or_byte [of ?w2 c] 2 le by simp
  have "unat (push_bit 8 ?w3 OR ucast d) = 256 * (256 * (256 * unat a + unat b) + unat c) + unat d"
    using unat_or_byte [of ?w3 d] 3 le by simp
  then show ?thesis by (simp add: be_word32_def)
qed

text \<open>Adding a host number to a network address stays in the network.\<close>

lemma add_host_prefix:
  fixes base h :: "32 word"
  assumes "base AND NOT (mask k) = base" "unat h < 2 ^ k"
  shows "(base + h) AND NOT (mask k) = base"
proof -
  have "int (unat h) < int (2 ^ k)" using assms(2) by (simp only: of_nat_less_iff)
  then have "uint h < 2 ^ k" by simp
  then have hm: "h AND mask k = h" by (simp only: mask_eq_iff)
  have h: "i < k" if "bit h i" for i
  proof -
    have "bit (h AND mask k) i" using that by (simp only: hm)
    then show ?thesis by (simp add: bit_and_iff bit_mask_iff)
  qed
  have b: "\<not> i < k" if "bit base i" for i
  proof -
    have "bit (base AND NOT (mask k)) i" using that by (simp only: assms(1))
    then show ?thesis by (auto simp: bit_and_iff bit_not_iff bit_mask_iff dest: bit_imp_le_length)
  qed
  have "base AND h = 0" by (rule bit_word_eqI) (use h b in \<open>auto simp: bit_simps\<close>)
  then have "base + h = base OR h" by (simp add: disjunctive_add_eq_or)
  moreover have "(base OR h) AND NOT (mask k) = base"
    by (rule bit_word_eqI) (use h b in \<open>auto simp: bit_simps\<close>)
  ultimately show ?thesis by simp
qed

lemma mask_twice: "ip_mask (ip_mask q m) m = ip_mask q m"
  unfolding ip_mask_def by (induction q m rule: list_induct2') (simp_all add: and.assoc)

lemma cidr_mask_length [simp]: "length (cidr_mask n k) = k"
  by (simp add: cidr_mask_def)

lemma ip_mask_length [simp]: "length (ip_mask q m) = min (length q) (length m)"
  by (simp add: ip_mask_def)

lemma be_word32_ip_mask:
  assumes "length q = 4" "n \<le> 32"
  shows "be_word32 (ip_mask q (cidr_mask n 4)) = be_word32 q AND NOT (mask (32 - n))"
proof -
  obtain a b c d where "q = [a, b, c, d]" using four_bytes [OF assms(1)] by blast
  moreover obtain m0 m1 m2 m3 where "cidr_mask n 4 = [m0, m1, m2, m3]"
    using four_bytes [OF cidr_mask_length] by blast
  ultimately show ?thesis
    using be_word32_mask [of a b c d m0 m1 m2 m3] be_word32_cidr_mask [OF assms(2)] by simp
qed

text \<open>The value of a little-endian byte list, for the addition loop.\<close>

fun le_value :: "byte list \<Rightarrow> nat" where
  "le_value [] = 0"
| "le_value (b # bs) = unat b + 256 * le_value bs"

lemma le_value_less: "le_value bs < 256 ^ length bs"
proof (induction bs)
  case (Cons b bs)
  have "unat b < 256" using byte_le [of b] by simp
  then show ?case using Cons by simp
qed simp

lemma unat_be_word32_le: "length q = 4 \<Longrightarrow> unat (be_word32 q) = le_value (rev q)"
  using four_bytes [of q] by (auto simp: unat_be_word32)

lemma unat_and_255: "unat (r AND 0xFF :: 64 word) = unat r mod 256"
proof -
  have "r AND 0xFF = take_bit 8 r" by (simp add: take_bit_eq_mask mask_eq_exp_minus_1)
  then show ?thesis by (simp add: take_bit_eq_mod unat_mod)
qed

lemma unat_drop_8: "unat (drop_bit 8 r :: 64 word) = unat r div 256"
  by (simp add: drop_bit_eq_div unat_div)

end
