(* ===== verification/Derive.thy ===== *)
theory Derive
  imports NetArith
begin

text \<open>
  Key and address derivation: pkg/crypto/derive.go and pkg/crypto/membership.go. SHA-256 and
  HMAC are the functions of the theory Sha256. HKDF comes from golang.org/x/crypto and is the
  parameter \<open>hkdf\<close>: \<open>hkdf secret info n\<close> are the first \<open>n\<close> bytes of its output, or None when
  the reader fails.
\<close>

section \<open>Keys\<close>

definition MinSecretLength :: nat where "MinSecretLength = 16"
definition networkIDSize :: nat where "networkIDSize = 20"
definition rendezvousIDSize :: nat where "rendezvousIDSize = 8"
definition ipv6PrefixTailSize :: nat where "ipv6PrefixTailSize = 7"
definition GossipPortBase :: "16 word" where "GossipPortBase = 51821"
definition gossipPortRange :: "16 word" where "gossipPortRange = 1000"

type_synonym hkdf = "string \<Rightarrow> string \<Rightarrow> nat \<Rightarrow> byte list option"

record DerivedKeys =
  NetworkID :: "byte list"
  GossipKey :: "byte list"
  MeshSubnet :: "byte \<times> byte"
  MeshPrefixV6 :: "byte list"
  MulticastID :: "byte list"
  PSK :: "byte list"
  GossipPort :: "16 word"
  RendezvousID :: "byte list"
  MembershipKey :: "byte list"
  EpochSeed :: "byte list"

datatype derive_error = SecretTooShort | DeriveFailed string

definition deriveHKDF :: "hkdf \<Rightarrow> string \<Rightarrow> string \<Rightarrow> nat \<Rightarrow> derive_error + byte list" where
  "deriveHKDF hkdf secret info n =
     (case hkdf secret info n of None \<Rightarrow> Inl (DeriveFailed info) | Some bs \<Rightarrow> Inr bs)"

definition DeriveKeys :: "hkdf \<Rightarrow> string \<Rightarrow> derive_error + DerivedKeys" where
  "DeriveKeys hkdf secret =
     (if length secret < MinSecretLength then Inl SecretTooShort
      else
        let networkID = take networkIDSize (sha256 (bytes_of secret)) in
        and_then (deriveHKDF hkdf secret ''wgmesh-gossip-v1'' 32) (\<lambda>gossipKey.
        and_then (deriveHKDF hkdf secret ''wgmesh-subnet-v1'' 2) (\<lambda>subnet.
        and_then (deriveHKDF hkdf secret ''wgmesh-ipv6-prefix-v1'' ipv6PrefixTailSize) (\<lambda>prefixTail.
        and_then (deriveHKDF hkdf secret ''wgmesh-mcast-v1'' 4) (\<lambda>mcast.
        and_then (deriveHKDF hkdf secret ''wgmesh-wg-psk-v1'' 32) (\<lambda>psk.
        and_then (deriveHKDF hkdf secret ''wgmesh-gossip-port-v1'' 2) (\<lambda>portBytes.
        let gossipPort = GossipPortBase + be_word16 portBytes mod gossipPortRange;
            rv = take rendezvousIDSize (sha256 (bytes_of (secret @ ''rv''))) in
        and_then (deriveHKDF hkdf secret ''wgmesh-membership-v1'' 32) (\<lambda>membership.
        and_then (deriveHKDF hkdf secret ''wgmesh-epoch-v1'' 32) (\<lambda>epoch.
        Inr \<lparr>NetworkID = networkID, GossipKey = gossipKey, MeshSubnet = (subnet ! 0, subnet ! 1),
             MeshPrefixV6 = 0xfd # prefixTail, MulticastID = mcast, PSK = psk,
             GossipPort = gossipPort, RendezvousID = rv, MembershipKey = membership,
             EpochSeed = epoch\<rparr>)))))))))"

definition DeriveNetworkIDWithTime :: "string \<Rightarrow> gotime \<Rightarrow> byte list" where
  "DeriveNetworkIDWithTime secret t =
     (let hourEpoch = go_quot (unix_of t) 3600 in
      take networkIDSize (sha256 (bytes_of (secret @ ''||'' @ itoa hourEpoch))))"

definition GetCurrentAndPreviousNetworkIDs :: "string \<Rightarrow> gotime \<Rightarrow> byte list \<times> byte list" where
  "GetCurrentAndPreviousNetworkIDs secret now =
     (DeriveNetworkIDWithTime secret now, DeriveNetworkIDWithTime secret (now + -1 * Hour))"

definition MeshID :: "DerivedKeys \<Rightarrow> string" where
  "MeshID dk = concat (map (\<lambda>b. [hex_digit (unat b div 16), hex_digit (unat b mod 16)]) (take 6 (NetworkID dk)))"

section \<open>Mesh addresses\<close>

text \<open>The octet that ends an address, kept away from 0 and 255.\<close>

definition clamp_octet :: "byte \<Rightarrow> byte" where
  "clamp_octet b = (if b = 0 then 1 else if b = 255 then 254 else b)"

definition DeriveMeshIP :: "byte \<times> byte \<Rightarrow> string \<Rightarrow> string \<Rightarrow> string" where
  "DeriveMeshIP meshSubnet wgPubKey secret =
     (let hash = sha256 (bytes_of (wgPubKey @ secret));
          highByte = hash ! 0 XOR snd meshSubnet;
          lowByte = clamp_octet (hash ! 1)
      in ''10.'' @ itoa_nat (unat (fst meshSubnet)) @ ''.'' @ itoa_nat (unat highByte) @ ''.''
           @ itoa_nat (unat lowByte))"

definition mesh_iid :: "byte list \<Rightarrow> byte list" where
  "mesh_iid hash =
     (let iid = take 8 hash; iid' = iid[0 := (iid ! 0 OR 0x02) AND 0xfe]
      in if list_all (\<lambda>b. b = 0) iid' then iid'[7 := 1] else iid')"

definition mesh_ipv6_bytes :: "byte list \<Rightarrow> string \<Rightarrow> string \<Rightarrow> byte list" where
  "mesh_ipv6_bytes meshPrefixV6 wgPubKey secret =
     meshPrefixV6 @ mesh_iid (sha256 (bytes_of (wgPubKey @ ''|'' @ secret @ ''|ipv6'')))"

definition DeriveMeshIPv6 :: "byte list \<Rightarrow> string \<Rightarrow> string \<Rightarrow> string" where
  "DeriveMeshIPv6 meshPrefixV6 wgPubKey secret = ip_string (mesh_ipv6_bytes meshPrefixV6 wgPubKey secret)"

text \<open>net.IPMask.Size: the number of leading ones, and 0 of 0 bits when the mask is not canonical.\<close>

definition mask_bits :: "byte list \<Rightarrow> bool list" where
  "mask_bits m = concat (map (\<lambda>b. map (bit b) [7, 6, 5, 4, 3, 2, 1, 0]) m)"

definition mask_size :: "byte list \<Rightarrow> nat \<times> nat" where
  "mask_size m = (let bs = mask_bits m; ones = takeWhile (\<lambda>b. b) bs in
     if list_all Not (drop (length ones) bs) then (length ones, length bs) else (0, 0))"

datatype subnet_error = NotIPv4 nat | TooSmall nat

definition validateIPv4Subnet :: "IPNet \<Rightarrow> subnet_error + nat" where
  "validateIPv4Subnet subnet =
     (let (ones, bits) = mask_size (net_mask subnet) in
      if bits \<noteq> 32 then Inl (NotIPv4 bits)
      else if bits - ones < 2 then Inl (TooSmall ones)
      else Inr (bits - ones))"

text \<open>Big-endian addition of a host number: the loop runs from the last byte.\<close>

fun add_bytes :: "byte list \<Rightarrow> 64 word \<Rightarrow> byte list" where
  "add_bytes [] r = []"
| "add_bytes (b # bs) r =
     (if r = 0 then b # bs
      else let sum = ucast b + (r AND 0xFF)
           in ucast (sum AND 0xFF) # add_bytes bs (drop_bit 8 r + drop_bit 8 sum))"

definition addHostNum :: "byte list \<Rightarrow> 64 word \<Rightarrow> byte list" where
  "addHostNum base hostNum = rev (add_bytes (rev base) hostNum)"

definition host_number :: "byte list \<Rightarrow> nat \<Rightarrow> 64 word" where
  "host_number hash hostBits = be_word64 (take 8 hash) mod (push_bit hostBits 1 - 2) + 1"

definition DeriveMeshIPInSubnet :: "IPNet \<Rightarrow> string \<Rightarrow> string \<Rightarrow> subnet_error + string" where
  "DeriveMeshIPInSubnet subnet wgPubKey secret =
     and_then (validateIPv4Subnet subnet) (\<lambda>hostBits.
       Inr (ip_string (addHostNum (net_ip subnet)
         (host_number (sha256 (bytes_of (wgPubKey @ secret))) hostBits))))"

definition nonce_input :: "string \<Rightarrow> string \<Rightarrow> int \<Rightarrow> string" where
  "nonce_input wgPubKey secret nonce =
     itoa_nat (length wgPubKey) @ '':'' @ wgPubKey @ ''|'' @ itoa_nat (length secret) @ '':'' @ secret
       @ ''|nonce='' @ itoa nonce"

definition DeriveMeshIPInSubnetWithNonce :: "IPNet \<Rightarrow> string \<Rightarrow> string \<Rightarrow> int \<Rightarrow> subnet_error + string" where
  "DeriveMeshIPInSubnetWithNonce subnet wgPubKey secret nonce =
     and_then (validateIPv4Subnet subnet) (\<lambda>hostBits.
       Inr (ip_string (addHostNum (net_ip subnet)
         (host_number (sha256 (bytes_of (nonce_input wgPubKey secret nonce))) hostBits))))"

text \<open>No subnet (the value \<open>None\<close>) for the empty string; an error is \<open>Inl\<close>.\<close>

definition ParseSubnetOrDefault :: "string \<Rightarrow> string + IPNet option" where
  "ParseSubnetOrDefault cidr =
     (if cidr = [] then Inr None
      else case parse_cidr cidr of None \<Rightarrow> Inl cidr | Some (_, n) \<Rightarrow> Inr (Some n))"

section \<open>Membership tokens\<close>

definition MembershipTokenSize :: nat where "MembershipTokenSize = 32"

definition generateTokenForEpoch :: "byte list \<Rightarrow> byte list \<Rightarrow> int \<Rightarrow> byte list" where
  "generateTokenForEpoch membershipKey pubkey hourEpoch =
     hmac_sha256 membershipKey (pubkey @ bytes_of (''|'' @ itoa hourEpoch))"

definition GenerateMembershipToken :: "gotime \<Rightarrow> byte list \<Rightarrow> byte list \<Rightarrow> byte list" where
  "GenerateMembershipToken now membershipKey myPubkey =
     generateTokenForEpoch membershipKey myPubkey (go_quot (unix_of now) 3600)"

definition ValidateMembershipToken :: "gotime \<Rightarrow> byte list \<Rightarrow> byte list \<Rightarrow> byte list \<Rightarrow> bool" where
  "ValidateMembershipToken now membershipKey theirPubkey token =
     (if length token \<noteq> MembershipTokenSize then False
      else let hourEpoch = go_quot (unix_of now) 3600 in
      if token = generateTokenForEpoch membershipKey theirPubkey hourEpoch then True
      else if token = generateTokenForEpoch membershipKey theirPubkey (hourEpoch - 1) then True
      else token = generateTokenForEpoch membershipKey theirPubkey (hourEpoch + 1))"

section \<open>Addition of host numbers\<close>

lemma add_bytes_length [simp]: "length (add_bytes bs r) = length bs"
  by (induction bs r rule: add_bytes.induct) (simp_all add: Let_def)

lemma mod_byte: "a < 256 \<Longrightarrow> (a + 256 * x) mod (256 * m) = a + 256 * (x mod m)" for a x m :: nat
  by (simp add: mod_mult2_eq)

lemma carry_sum:
  "m + 256 * d = b + rm \<Longrightarrow> rm + 256 * rd = r \<Longrightarrow> m + 256 * (L + (rd + d)) = b + 256 * L + r"
  for m d b rm rd r L :: nat
  by simp

lemma add_bytes_value: "le_value (add_bytes bs r) = (le_value bs + unat r) mod 256 ^ length bs"
proof (induction bs arbitrary: r)
  case Nil
  show ?case by simp
next
  case (Cons b bs)
  show ?case
  proof (cases "r = 0")
    case True
    then show ?thesis using le_value_less [of "b # bs"] by simp
  next
    case False
    let ?sum = "ucast b + (r AND 0xFF) :: 64 word"
    let ?S = "unat b + unat r mod 256"
    have b: "unat b < 256" using byte_le [of b] by simp
    have "unat (ucast b :: 64 word) = unat b"
      using b by (simp add: unsigned_ucast_eq take_bit_nat_eq_self_iff)
    then have S: "unat ?sum = ?S"
      using b unat_and_255 [of r] by (simp add: unat_word_ariths)
    have low: "unat (ucast (?sum AND 0xFF) :: byte) = ?S mod 256"
      using S unat_and_255 [of ?sum] by (simp add: unsigned_ucast_eq take_bit_eq_mod)
    have "unat r < 2 ^ LENGTH(64)" by (rule unsigned_less)
    then have "unat r div 256 + ?S div 256 < 2 ^ 64" using b by simp
    then have carry: "unat (drop_bit 8 r + drop_bit 8 ?sum) = unat r div 256 + ?S div 256"
      using S by (simp add: unat_word_ariths unat_drop_8)
    define X where "X = le_value bs + (unat r div 256 + ?S div 256)"
    have "le_value (add_bytes (b # bs) r) = ?S mod 256 + 256 * (X mod 256 ^ length bs)"
      using False low carry Cons.IH by (simp add: Let_def X_def)
    also have "\<dots> = (?S mod 256 + 256 * X) mod (256 * 256 ^ length bs)"
      by (rule mod_byte [symmetric]) simp
    also have "?S mod 256 + 256 * X = le_value (b # bs) + unat r"
      unfolding X_def le_value.simps by (rule carry_sum) (rule mod_mult_div_eq)+
    finally show ?thesis by (simp only: length_Cons power_Suc)
  qed
qed

lemma addHostNum_length [simp]: "length (addHostNum base h) = length base"
  by (simp add: addHostNum_def)

lemma addHostNum_word:
  assumes "length base = 4"
  shows "be_word32 (addHostNum base h) = be_word32 base + ucast h"
proof -
  have "unat (be_word32 (addHostNum base h)) = (unat (be_word32 base) + unat h) mod 2 ^ 32"
    using assms add_bytes_value [of "rev base" h] by (simp add: unat_be_word32_le addHostNum_def)
  also have "\<dots> = unat (be_word32 base + ucast h)"
    by (simp add: unat_word_ariths unsigned_ucast_eq take_bit_eq_mod mod_simps)
  finally show ?thesis by (simp only: word_unat_eq_iff)
qed

section \<open>Host numbers and subnets\<close>

lemma host_number_range:
  assumes "2 \<le> k" "k \<le> 32"
  shows "0 < unat (host_number hash k) \<and> unat (host_number hash k) < 2 ^ k - 1"
proof -
  have two: "(4 :: nat) \<le> 2 ^ k"
    using power_increasing [OF assms(1), of "2 :: nat"] by simp
  have big: "(2 :: nat) ^ k \<le> 2 ^ 32"
    using power_increasing [OF assms(2), of "2 :: nat"] by simp
  have "unat (push_bit k 1 :: 64 word) = 2 ^ k"
  proof -
    have "(push_bit k 1 :: 64 word) = word_of_nat (2 ^ k)" by (simp add: push_bit_eq_mult)
    then show ?thesis using big by (simp only: unat_of_nat) simp
  qed
  then have m: "unat (push_bit k 1 - 2 :: 64 word) = 2 ^ k - 2"
    using two by (simp add: unat_sub_if')
  let ?x = "unat (be_word64 (take 8 hash)) mod (2 ^ k - 2)"
  have x: "?x < 2 ^ k - 2" using two by simp
  have "unat (host_number hash k) = ?x + 1"
    using x big m by (simp add: host_number_def unat_word_ariths unat_mod)
  then show ?thesis using x by linarith
qed

lemma mask_bits_length: "length (mask_bits m) = 8 * length m"
  by (induction m) (simp_all add: mask_bits_def)

lemma validate_length:
  assumes "validateIPv4Subnet n = Inr k"
  shows "length (net_mask n) = 4"
  using assms mask_bits_length [of "net_mask n"]
  by (auto simp: validateIPv4Subnet_def mask_size_def Let_def split: if_splits)

lemma mask_size_cidr:
  assumes "n \<le> 32"
  shows "mask_size (cidr_mask n 4) = (n, 32)"
proof -
  have "n \<in> set [0..<33]" using assms by auto
  then show ?thesis
    by (simp add: upt_rec) (elim disjE; simp add: cidr_mask_def mask_size_def mask_bits_def mask_eq_exp_minus_1 upt_rec)
qed

lemma parse_cidr_v4:
  assumes "parse_cidr s = Some (ip, n)" "length (net_mask n) = 4"
  shows "\<exists>q k. length q = 4 \<and> k \<le> 32 \<and> n = \<lparr>net_ip = ip_mask q (cidr_mask k 4), net_mask = cidr_mask k 4\<rparr>"
proof -
  have v4: "length q = 4" if "parse_addr t = Some (Addr4 q)" for t q
    using that by (auto simp: parse_addr_def dest: parse_ip_length split: list.splits if_splits option.splits)
  show ?thesis
    using assms v4
    by (auto simp: parse_cidr_def Let_def not_less split: option.splits if_splits netip_addr.splits)
qed

text \<open>An address inside the subnet that is neither its first nor its last one.\<close>

definition usable_in :: "IPNet \<Rightarrow> nat \<Rightarrow> string \<Rightarrow> bool" where
  "usable_in n k s \<longleftrightarrow> (\<exists>q h. parse_ip s = Some (v4_in_v6 q) \<and> length q = 4 \<and> net_contains n (v4_in_v6 q)
     \<and> be_word32 q = be_word32 (net_ip n) + h \<and> 0 < unat h \<and> unat h < 2 ^ k - 1)"

lemma host_usable:
  assumes "parse_cidr s = Some (ip, n)" "validateIPv4Subnet n = Inr k"
  shows "usable_in n k (ip_string (addHostNum (net_ip n) (host_number hash k)))"
proof -
  obtain q j where q: "length q = 4" "j \<le> 32"
    and n: "n = \<lparr>net_ip = ip_mask q (cidr_mask j 4), net_mask = cidr_mask j 4\<rparr>"
    using parse_cidr_v4 [OF assms(1) validate_length [OF assms(2)]] by blast
  have k: "k = 32 - j" "2 \<le> k" "k \<le> 32"
    using assms(2) q(2) by (auto simp: validateIPv4Subnet_def n mask_size_cidr split: if_splits)
  let ?h = "host_number hash k"
  let ?r = "addHostNum (net_ip n) ?h"
  have len: "length ?r = 4" "length (net_ip n) = 4" using q by (simp_all add: n)
  have ne: "?r \<noteq> []" using len(1) by (metis list.size(3) zero_neq_numeral)
  have h: "0 < unat ?h" "unat ?h < 2 ^ k - 1" using host_number_range [OF k(2,3)] by auto
  have "(2 :: nat) ^ k \<le> 2 ^ 32" using k(3) by (intro power_increasing) simp_all
  then have uh: "unat (ucast ?h :: 32 word) = unat ?h"
    using h(2) by (simp add: unsigned_ucast_eq take_bit_nat_eq_self_iff)
  have w: "be_word32 ?r = be_word32 (net_ip n) + ucast ?h"
    using len by (simp add: addHostNum_word)
  have base: "be_word32 (net_ip n) AND NOT (mask k) = be_word32 (net_ip n)"
    using q k(1) by (simp add: n be_word32_ip_mask and.assoc)
  have "be_word32 (ip_mask ?r (cidr_mask j 4)) = be_word32 ?r AND NOT (mask k)"
    using len q(2) k(1) by (simp add: be_word32_ip_mask)
  also have "\<dots> = be_word32 (net_ip n)"
    unfolding w by (rule add_host_prefix [OF base]) (use uh h(2) in simp)
  finally have "ip_mask ?r (cidr_mask j 4) = net_ip n"
    using len by (subst (asm) be_word32_inj) simp_all
  then have "net_contains n (v4_in_v6 ?r)"
    using len q mask_twice [of q "cidr_mask j 4"] by (simp add: net_contains_def n to4_def [of "ip_mask q _"] Let_def)
  moreover have "parse_ip (ip_string ?r) = Some (v4_in_v6 ?r)"
    using len parse_ip_ipv4_string [OF len(1)] ne by (simp add: ip_string_def to4_def)
  ultimately show ?thesis
    unfolding usable_in_def using w uh h len(1)
    by (intro exI [of _ ?r] exI [of _ "ucast ?h"]) simp
qed

section \<open>Legacy addresses, ports and hours\<close>

lemma DeriveMeshIP_bytes:
  "DeriveMeshIP sn wgPubKey secret =
     ipv4_string [10, fst sn, sha256 (bytes_of (wgPubKey @ secret)) ! 0 XOR snd sn,
                  clamp_octet (sha256 (bytes_of (wgPubKey @ secret)) ! 1)]"
proof -
  have "itoa_nat 10 = ''10''"
    by code_simp
  then show ?thesis by (simp add: DeriveMeshIP_def ipv4_string_def Let_def)
qed

lemma clamp_octet_range: "clamp_octet b \<noteq> 0" "clamp_octet b \<noteq> 255"
  by (auto simp: clamp_octet_def)

text \<open>The interface identifier is local and unicast, so the guard against an all-zero one never fires.\<close>

lemma mesh_iid_bits:
  assumes "8 \<le> length hash"
  shows "mesh_iid hash = (take 8 hash)[0 := (hash ! 0 OR 0x02) AND 0xfe]"
    and "length (mesh_iid hash) = 8"
    and "bit (mesh_iid hash ! 0) 1" and "\<not> bit (mesh_iid hash ! 0) 0"
proof -
  obtain b bs where hash: "hash = b # bs" using assms by (cases hash) auto
  let ?x = "(b OR 0x02) AND 0xfe :: byte"
  have bits: "bit ?x 1" "\<not> bit ?x 0" by (simp_all add: bit_simps)
  then have "?x \<noteq> 0" by auto
  then show eq: "mesh_iid hash = (take 8 hash)[0 := (hash ! 0 OR 0x02) AND 0xfe]"
    by (simp add: mesh_iid_def hash Let_def)
  show "length (mesh_iid hash) = 8" using assms by (simp add: eq)
  show "bit (mesh_iid hash ! 0) 1" "\<not> bit (mesh_iid hash ! 0) 0" using bits
    by (simp_all only: eq) (simp_all add: hash)
qed

lemma gossip_port_range:
  "51821 \<le> unat (GossipPortBase + x mod gossipPortRange) \<and> unat (GossipPortBase + x mod gossipPortRange) \<le> 52820"
proof -
  have "unat (x mod gossipPortRange) < 1000" by (simp add: gossipPortRange_def unat_mod)
  then show ?thesis by (simp add: GossipPortBase_def unat_word_ariths)
qed

lemma hour_of:
  assumes "0 \<le> t"
  shows "go_quot (unix_of t) 3600 = t div Hour"
proof -
  have "t div Hour = t div (1000000000 * 3600)" by (simp add: Hour_def)
  also have "\<dots> = t div 1000000000 div 3600" by (simp add: zdiv_zmult2_eq)
  finally show ?thesis
    using assms by (auto simp: go_quot_def unix_of_def Second_def sgn_if pos_imp_zdiv_nonneg_iff)
qed

lemma hour_step:
  assumes "t \<le> t'" "t' - t \<le> Hour"
  shows "t' div Hour = t div Hour \<or> t' div Hour = t div Hour + 1"
  using assms by (simp add: Hour_def) linarith

lemma hour_before: "(t + -1 * Hour) div Hour = t div Hour - 1"
  by (simp add: Hour_def)

section \<open>Properties\<close>

text \<open>
  C15. The address that is derived in a custom subnet, with or without a nonce, is a valid
  IPv4 address that lies in the subnet and is neither the network nor the broadcast address,
  for every CIDR string that parses and every key, secret and nonce.
\<close>

theorem custom_subnet_address_usable:
  assumes "parse_cidr cidr = Some (ip, n)" "validateIPv4Subnet n = Inr k"
  shows "\<exists>a b. DeriveMeshIPInSubnet n wgPubKey secret = Inr a \<and> usable_in n k a
     \<and> DeriveMeshIPInSubnetWithNonce n wgPubKey secret nonce = Inr b \<and> usable_in n k b"
  using host_usable [OF assms] assms(2)
  by (simp add: DeriveMeshIPInSubnet_def DeriveMeshIPInSubnetWithNonce_def)

theorem custom_subnet_address_usable_witness:
  "\<exists>a b. DeriveMeshIPInSubnet \<lparr>net_ip = [192, 168, 7, 0], net_mask = [255, 255, 255, 0]\<rparr> ''key'' ''secret'' = Inr a
     \<and> usable_in \<lparr>net_ip = [192, 168, 7, 0], net_mask = [255, 255, 255, 0]\<rparr> 8 a
     \<and> DeriveMeshIPInSubnetWithNonce \<lparr>net_ip = [192, 168, 7, 0], net_mask = [255, 255, 255, 0]\<rparr> ''key'' ''secret'' 1 = Inr b
     \<and> usable_in \<lparr>net_ip = [192, 168, 7, 0], net_mask = [255, 255, 255, 0]\<rparr> 8 b"
proof (rule custom_subnet_address_usable)
  show "parse_cidr ''192.168.7.9/24'' = Some (v4_in_v6 [192, 168, 7, 9],
      \<lparr>net_ip = [192, 168, 7, 0], net_mask = [255, 255, 255, 0]\<rparr>)"
    by (simp add: parse_cidr_def parse_addr_def parse_ipv4_def octet_ok_def is_digit_def dec_value_def
        digit_val_def cidr_mask_def ip_mask_def v4_in_v6_def upt_rec mask_eq_exp_minus_1)
  show "validateIPv4Subnet \<lparr>net_ip = [192, 168, 7, 0], net_mask = [255, 255, 255, 0]\<rparr> = Inr 8"
    by (simp add: validateIPv4Subnet_def mask_size_def mask_bits_def)
qed

text \<open>
  C37. Key derivation refuses exactly the secrets of fewer than 16 bytes; otherwise every key
  has the length the protocol uses, the IPv6 prefix is a unique local one (it starts with the
  byte 0xfd) and the gossip port lies between 51821 and 52820 without wrap-around. HKDF is
  any function that yields the bytes it is asked for.
\<close>

theorem derive_keys_wellformed:
  assumes "\<And>info n. n \<le> 32 \<Longrightarrow> \<exists>bs. hkdf secret info n = Some bs \<and> length bs = n"
  shows "if length secret < 16 then DeriveKeys hkdf secret = Inl SecretTooShort
     else \<exists>k. DeriveKeys hkdf secret = Inr k \<and> length (NetworkID k) = 20 \<and> length (GossipKey k) = 32
       \<and> length (MeshPrefixV6 k) = 8 \<and> hd (MeshPrefixV6 k) = 0xfd \<and> length (MulticastID k) = 4
       \<and> length (PSK k) = 32 \<and> length (RendezvousID k) = 8 \<and> length (MembershipKey k) = 32
       \<and> length (EpochSeed k) = 32 \<and> 51821 \<le> unat (GossipPort k) \<and> unat (GossipPort k) \<le> 52820"
proof (cases "length secret < 16")
  case True
  then show ?thesis by (simp add: DeriveKeys_def MinSecretLength_def)
next
  case False
  have ok: "\<exists>bs. deriveHKDF hkdf secret info n = Inr bs \<and> length bs = n" if "n \<le> 32" for info n
    using assms [OF that, of info] by (auto simp: deriveHKDF_def)
  obtain gk where gk: "deriveHKDF hkdf secret ''wgmesh-gossip-v1'' 32 = Inr gk" "length gk = 32"
    using ok by blast
  obtain sn where sn: "deriveHKDF hkdf secret ''wgmesh-subnet-v1'' 2 = Inr sn" "length sn = 2"
    using ok [of 2] by auto
  obtain pt where pt: "deriveHKDF hkdf secret ''wgmesh-ipv6-prefix-v1'' 7 = Inr pt" "length pt = 7"
    using ok [of 7] by auto
  obtain mc where mc: "deriveHKDF hkdf secret ''wgmesh-mcast-v1'' 4 = Inr mc" "length mc = 4"
    using ok [of 4] by auto
  obtain psk where psk: "deriveHKDF hkdf secret ''wgmesh-wg-psk-v1'' 32 = Inr psk" "length psk = 32"
    using ok by blast
  obtain gp where gp: "deriveHKDF hkdf secret ''wgmesh-gossip-port-v1'' 2 = Inr gp" "length gp = 2"
    using ok [of 2] by auto
  obtain mk where mk: "deriveHKDF hkdf secret ''wgmesh-membership-v1'' 32 = Inr mk" "length mk = 32"
    using ok by blast
  obtain es where es: "deriveHKDF hkdf secret ''wgmesh-epoch-v1'' 32 = Inr es" "length es = 32"
    using ok by blast
  show ?thesis
    using False gossip_port_range [of "be_word16 gp"] gk sn pt mc psk gp mk es
    by (simp add: DeriveKeys_def MinSecretLength_def networkIDSize_def rendezvousIDSize_def
        ipv6PrefixTailSize_def Let_def)
qed

theorem derive_keys_wellformed_witness:
  "if length ''a long enough secret'' < 16
   then DeriveKeys (\<lambda>s i n. Some (replicate n 7)) ''a long enough secret'' = Inl SecretTooShort
   else \<exists>k. DeriveKeys (\<lambda>s i n. Some (replicate n 7)) ''a long enough secret'' = Inr k
       \<and> length (NetworkID k) = 20 \<and> length (GossipKey k) = 32
       \<and> length (MeshPrefixV6 k) = 8 \<and> hd (MeshPrefixV6 k) = 0xfd \<and> length (MulticastID k) = 4
       \<and> length (PSK k) = 32 \<and> length (RendezvousID k) = 8 \<and> length (MembershipKey k) = 32
       \<and> length (EpochSeed k) = 32 \<and> 51821 \<le> unat (GossipPort k) \<and> unat (GossipPort k) \<le> 52820"
  by (rule derive_keys_wellformed) simp

text \<open>
  C16. Two nodes whose clocks differ by at most an hour meet on the DHT: the network identifier
  under which the one that is behind announces itself is one of the two, the current and the
  previous, that the other one uses, across every hourly rotation.
\<close>

theorem network_id_overlap:
  assumes "0 \<le> t" "t \<le> t'" "t' - t \<le> Hour" "Hour \<le> t'"
  shows "fst (GetCurrentAndPreviousNetworkIDs secret t) \<in>
     {fst (GetCurrentAndPreviousNetworkIDs secret t'), snd (GetCurrentAndPreviousNetworkIDs secret t')}"
proof -
  have h: "go_quot (unix_of t) 3600 = t div Hour" "go_quot (unix_of t') 3600 = t' div Hour"
    "go_quot (unix_of (t' + -1 * Hour)) 3600 = t' div Hour - 1"
    using hour_of [of t] hour_of [of t'] hour_of [of "t' + -1 * Hour"] hour_before [of t'] assms by auto
  show ?thesis
    using hour_step [OF assms(2,3)] h
    by (auto simp: GetCurrentAndPreviousNetworkIDs_def DeriveNetworkIDWithTime_def)
qed

theorem network_id_overlap_witness:
  "fst (GetCurrentAndPreviousNetworkIDs ''mesh secret'' (2 * Hour - 1)) \<in>
     {fst (GetCurrentAndPreviousNetworkIDs ''mesh secret'' (2 * Hour + 5)),
      snd (GetCurrentAndPreviousNetworkIDs ''mesh secret'' (2 * Hour + 5))}"
  by (rule network_id_overlap) (simp_all add: Hour_def)

text \<open>
  C38. A membership token that a node generates is accepted by every node with the same
  membership key whose clock is within one hour of the generating one, and a token is only
  ever accepted if it is the MAC of the public key for the current, the previous or the next
  hour.
\<close>

theorem membership_token_window:
  assumes "0 \<le> t" "0 \<le> t'" "\<bar>t - t'\<bar> \<le> Hour"
  shows "ValidateMembershipToken t' key pub (GenerateMembershipToken t key pub)
     \<and> (ValidateMembershipToken t' key pub tok \<longleftrightarrow>
          tok \<in> generateTokenForEpoch key pub ` {t' div Hour - 1, t' div Hour, t' div Hour + 1})"
proof -
  have "t div Hour \<in> {t' div Hour - 1, t' div Hour, t' div Hour + 1}"
    using hour_step [of t t'] hour_step [of t' t] assms(3) by (cases "t \<le> t'") auto
  then show ?thesis
    by (auto simp: ValidateMembershipToken_def GenerateMembershipToken_def generateTokenForEpoch_def
        MembershipTokenSize_def hour_of [OF assms(1)] hour_of [OF assms(2)] Let_def)
qed

theorem membership_token_window_witness:
  "ValidateMembershipToken (2 * Hour) [1, 2] [3] (GenerateMembershipToken (Hour + 7) [1, 2] [3])
     \<and> (ValidateMembershipToken (2 * Hour) [1, 2] [3] [] \<longleftrightarrow>
          [] \<in> generateTokenForEpoch [1, 2] [3] ` {2 * Hour div Hour - 1, 2 * Hour div Hour, 2 * Hour div Hour + 1})"
  by (rule membership_token_window) (simp_all add: Hour_def)

end
