(* ===== verification/Config.thy ===== *)
theory Config
  imports Base64 Derive
begin

text \<open>
  The configuration of the daemon: pkg/daemon/config.go and the interface name check of
  pkg/ifname/validate.go. The operating system name (runtime.GOOS), the random bytes of a new
  secret and the contents of the reload file are arguments.
\<close>

section \<open>Interface names\<close>

definition MaxLen :: nat where "MaxLen = 15"

datatype ifname_error = NullByte | PathSeparator | DotName | NotUtun | TooLong nat | BadName

definition is_letter :: "char \<Rightarrow> bool" where
  "is_letter c \<longleftrightarrow> (65 \<le> (of_char c :: nat) \<and> (of_char c :: nat) \<le> 90)
     \<or> (97 \<le> (of_char c :: nat) \<and> (of_char c :: nat) \<le> 122)"

definition linuxRegex :: "string \<Rightarrow> bool" where
  "linuxRegex s = (case s of [] \<Rightarrow> False
     | c # r \<Rightarrow> is_letter c \<and> list_all (\<lambda>d. is_letter d \<or> is_digit d \<or> d = CHR ''_'' \<or> d = CHR ''-'') r)"

definition darwinRegex :: "string \<Rightarrow> bool" where
  "darwinRegex s \<longleftrightarrow> prefix ''utun'' s \<and> drop 4 s \<noteq> [] \<and> list_all is_digit (drop 4 s)"

text \<open>The result None is the nil error.\<close>

definition ifname_Validate :: "string \<Rightarrow> string \<Rightarrow> ifname_error option" where
  "ifname_Validate goos name =
     (if name = [] then None
      else if CHR 0x00 \<in> set name then Some NullByte
      else if CHR ''/'' \<in> set name \<or> CHR 0x5C \<in> set name then Some PathSeparator
      else if name = ''.'' \<or> name = ''..'' then Some DotName
      else if goos = ''darwin'' then (if \<not> darwinRegex name then Some NotUtun else None)
      else if length name > MaxLen then Some (TooLong (length name))
      else if \<not> linuxRegex name then Some BadName
      else None)"

section \<open>Secrets\<close>

definition URIPrefix :: string where "URIPrefix = ''wgmesh://''"
definition URIVersion :: string where "URIVersion = ''v1''"
definition DefaultWGPort :: int where "DefaultWGPort = 51820"
definition DefaultInterface :: string where "DefaultInterface = ''wg0''"
definition DefaultInterfaceDarwin :: string where "DefaultInterfaceDarwin = ''utun20''"

definition parseSecret :: "string \<Rightarrow> string" where
  "parseSecret input =
     (let s = trim_space input in
      if has_prefix s URIPrefix then
        let r = trim_prefix s URIPrefix in
        case index_char CHR ''/'' r of
          Some i \<Rightarrow>
            (let secret = drop (Suc i) r in
             case index_char CHR ''?'' secret of Some j \<Rightarrow> take j secret | None \<Rightarrow> secret)
        | None \<Rightarrow> r
      else s)"

definition FormatSecretURI :: "string \<Rightarrow> string" where
  "FormatSecretURI secret = URIPrefix @ URIVersion @ ''/'' @ secret"

definition GenerateSecret :: "byte list option \<Rightarrow> string option" where
  "GenerateSecret rand = (case rand of None \<Rightarrow> None | Some b \<Rightarrow> Some (b64_encode False b64_url b))"

section \<open>Configuration\<close>

text \<open>A nil slice of routes is None, an empty one \<open>Some []\<close>.\<close>

record Config =
  cfg_Secret :: string
  cfg_Keys :: DerivedKeys
  cfg_InterfaceName :: string
  cfg_WGListenPort :: int
  cfg_AdvertiseRoutes :: "string list option"
  cfg_LogLevel :: string
  cfg_Privacy :: bool
  cfg_Gossip :: bool
  cfg_LANDiscovery :: bool
  cfg_Introducer :: bool
  cfg_DisableIPv6 :: bool
  cfg_ForceRelay :: bool
  cfg_DisablePunching :: bool
  cfg_CustomSubnet :: "IPNet option"

record DaemonOpts =
  opt_Secret :: string
  opt_InterfaceName :: string
  opt_WGListenPort :: int
  opt_AdvertiseRoutes :: "string list option"
  opt_LogLevel :: string
  opt_Privacy :: bool
  opt_Gossip :: bool
  opt_DisableLANDiscovery :: bool
  opt_Introducer :: bool
  opt_DisableIPv6 :: bool
  opt_ForceRelay :: bool
  opt_DisablePunching :: bool
  opt_MeshSubnet :: string

definition zero_opts :: DaemonOpts where
  "zero_opts = \<lparr>opt_Secret = [], opt_InterfaceName = [], opt_WGListenPort = 0, opt_AdvertiseRoutes = None,
     opt_LogLevel = [], opt_Privacy = False, opt_Gossip = False, opt_DisableLANDiscovery = False,
     opt_Introducer = False, opt_DisableIPv6 = False, opt_ForceRelay = False,
     opt_DisablePunching = False, opt_MeshSubnet = []\<rparr>"

datatype config_error = KeyError derive_error | BadInterface ifname_error | BadSubnet string
  | SubnetNotIPv4 | SubnetTooSmall nat

definition check_subnet :: "IPNet \<Rightarrow> config_error + unit" where
  "check_subnet n =
     (let (ones, bits) = mask_size (net_mask n) in
      if to4 (net_ip n) = None then Inl SubnetNotIPv4
      else if bits \<noteq> 32 then Inl SubnetNotIPv4
      else if bits - ones < 2 then Inl (SubnetTooSmall ones)
      else Inr ())"

definition NewConfig :: "string \<Rightarrow> hkdf \<Rightarrow> DaemonOpts \<Rightarrow> config_error + Config" where
  "NewConfig goos hkdf opts =
     (let secret = parseSecret (opt_Secret opts) in
      case DeriveKeys hkdf secret of
        Inl e \<Rightarrow> Inl (KeyError e)
      | Inr keys \<Rightarrow>
      case ifname_Validate goos (opt_InterfaceName opts) of
        Some e \<Rightarrow> Inl (BadInterface e)
      | None \<Rightarrow>
      let ifaceName = (if opt_InterfaceName opts = []
            then if goos = ''darwin'' then DefaultInterfaceDarwin else DefaultInterface
            else opt_InterfaceName opts);
          listenPort = (if opt_WGListenPort opts = 0 then DefaultWGPort else opt_WGListenPort opts);
          logLevel = (if opt_LogLevel opts = [] then ''info'' else opt_LogLevel opts) in
      case ParseSubnetOrDefault (opt_MeshSubnet opts) of
        Inl e \<Rightarrow> Inl (BadSubnet e)
      | Inr customSubnet \<Rightarrow>
      and_then (case customSubnet of None \<Rightarrow> Inr () | Some n \<Rightarrow> check_subnet n) (\<lambda>_.
      Inr \<lparr>cfg_Secret = secret, cfg_Keys = keys, cfg_InterfaceName = ifaceName,
           cfg_WGListenPort = listenPort, cfg_AdvertiseRoutes = opt_AdvertiseRoutes opts,
           cfg_LogLevel = logLevel, cfg_Privacy = opt_Privacy opts, cfg_Gossip = opt_Gossip opts,
           cfg_LANDiscovery = (\<not> opt_DisableLANDiscovery opts), cfg_Introducer = opt_Introducer opts,
           cfg_DisableIPv6 = opt_DisableIPv6 opts, cfg_ForceRelay = opt_ForceRelay opts,
           cfg_DisablePunching = opt_DisablePunching opts, cfg_CustomSubnet = customSubnet\<rparr>))"

definition PrefixLen :: "Config \<Rightarrow> nat" where
  "PrefixLen c = (case cfg_CustomSubnet c of Some n \<Rightarrow> fst (mask_size (net_mask n)) | None \<Rightarrow> 16)"

section \<open>The reload file\<close>

definition ReloadConfigPath :: "string \<Rightarrow> string" where
  "ReloadConfigPath iface = ''/var/lib/wgmesh/'' @ iface @ ''.reload''"

definition to_lower :: "string \<Rightarrow> string" where
  "to_lower s = map (\<lambda>c. if 65 \<le> (of_char c :: nat) \<and> (of_char c :: nat) \<le> 90
     then char_of (of_char c + 32 :: nat) else c) s"

text \<open>
  bufio.Scanner with its default split function: lines without their terminator; a line that
  does not fit the 64 KiB buffer is an error.
\<close>

definition strip_cr :: "string \<Rightarrow> string" where
  "strip_cr l = (if l \<noteq> [] \<and> last l = CHR 0x0D then butlast l else l)"

definition raw_lines :: "string \<Rightarrow> string list" where
  "raw_lines s = (let ls = split_char CHR 0x0A s in if last ls = [] then butlast ls else ls)"

definition scan_lines :: "string \<Rightarrow> string list option" where
  "scan_lines s = (if list_all (\<lambda>l. length l < 65536) (raw_lines s) then Some (map strip_cr (raw_lines s)) else None)"

definition reload_routes :: "string \<Rightarrow> string list" where
  "reload_routes val = (if val = [] then [] else filter (\<lambda>r. r \<noteq> []) (map trim_space (split_char CHR '','' val)))"

definition reload_line :: "DaemonOpts \<Rightarrow> string \<Rightarrow> DaemonOpts" where
  "reload_line opts raw =
     (let line = trim_space raw in
      if line = [] \<or> has_prefix line ''#'' then opts
      else case index_char CHR ''='' line of
          None \<Rightarrow> opts
        | Some i \<Rightarrow>
            (let key = trim_space (to_lower (take i line)); val = trim_space (drop (Suc i) line) in
             if key = ''advertise-routes'' then opts\<lparr>opt_AdvertiseRoutes := Some (reload_routes val)\<rparr>
             else if key = ''log-level'' then opts\<lparr>opt_LogLevel := val\<rparr>
             else opts))"

definition LoadReloadFile :: "string option \<Rightarrow> DaemonOpts option" where
  "LoadReloadFile file =
     (case file of
        None \<Rightarrow> None
      | Some s \<Rightarrow> (case scan_lines s of None \<Rightarrow> None | Some ls \<Rightarrow> Some (foldl reload_line zero_opts ls)))"

text \<open>A configuration to evaluate the operations on.\<close>

definition sample_config :: Config where
  "sample_config = \<lparr>cfg_Secret = ''a secret of many characters'',
     cfg_Keys = \<lparr>NetworkID = [], GossipKey = [], MeshSubnet = (7, 9), MeshPrefixV6 = [], MulticastID = [],
       PSK = [], GossipPort = 51821, RendezvousID = [], MembershipKey = [], EpochSeed = []\<rparr>,
     cfg_InterfaceName = ''wg0'', cfg_WGListenPort = 51820, cfg_AdvertiseRoutes = None, cfg_LogLevel = ''info'',
     cfg_Privacy = False, cfg_Gossip = False, cfg_LANDiscovery = True, cfg_Introducer = False,
     cfg_DisableIPv6 = False, cfg_ForceRelay = False, cfg_DisablePunching = False, cfg_CustomSubnet = None\<rparr>"

section \<open>Lemmas\<close>

lemma b64_url_safe: "c \<in> set b64_url \<Longrightarrow> c \<noteq> CHR ''?'' \<and> \<not> is_space c"
  by (auto simp: b64_url_def is_space_def)

lemma b64_url_length: "length b64_url = 64"
  by (simp add: b64_url_def)

lemma trim_space_id:
  assumes "s \<noteq> []" "\<not> is_space (hd s)" "\<not> is_space (last s)"
  shows "trim_space s = s"
proof -
  have "dropWhile is_space s = s" using assms(1,2) by (cases s) auto
  moreover have "dropWhile is_space (rev s) = rev s"
    using assms(1,3) by (cases s rule: rev_cases) auto
  ultimately show ?thesis by (simp add: trim_space_def)
qed

lemma parse_format_secret:
  assumes "CHR ''?'' \<notin> set s" "\<forall>c \<in> set s. \<not> is_space c"
  shows "parseSecret (FormatSecretURI s) = s"
proof -
  let ?u = "FormatSecretURI s"
  have u: "?u = ''wgmesh://v1/'' @ s" by (simp add: FormatSecretURI_def URIPrefix_def URIVersion_def)
  have "\<not> is_space (last ?u)"
  proof (cases "s = []")
    case True
    then have "last ?u = CHR ''/''" using u by simp
    then show ?thesis by (simp add: is_space_def)
  next
    case False
    then have "last s \<in> set s" by simp
    then show ?thesis using False assms(2) by (simp add: u)
  qed
  moreover have "?u \<noteq> []" "\<not> is_space (hd ?u)" by (simp_all add: u is_space_def)
  ultimately have t: "trim_space ?u = ?u" by (rule trim_space_id [rotated 2])
  have "index_char CHR ''?'' s = None" using assms(1) by (simp add: index_char_None)
  then show ?thesis
    by (simp add: parseSecret_def t) (simp add: u has_prefix_def trim_prefix_def URIPrefix_def)
qed

lemma b64_encode_length: "length bs \<le> length (b64_encode pad al bs)"
  by (induction pad al bs rule: b64_encode.induct) (simp_all add: Let_def)

lemma ifname_Validate_linux:
  assumes "ifname_Validate goos name = None" "goos \<noteq> ''darwin''" "name \<noteq> []"
  shows "linuxRegex name" "length name \<le> 15"
  using assms by (auto simp: ifname_Validate_def MaxLen_def split: if_splits)

lemma check_subnet_validates:
  "check_subnet n = Inr () \<Longrightarrow> \<exists>k. validateIPv4Subnet n = Inr k \<and> fst (mask_size (net_mask n)) \<le> 30"
  by (auto simp: check_subnet_def validateIPv4Subnet_def case_prod_beta Let_def split: if_splits)

text \<open>Characters that a shell does not interpret.\<close>

definition shell_safe :: "string \<Rightarrow> bool" where
  "shell_safe s \<longleftrightarrow> list_all (\<lambda>c. is_letter c \<or> is_digit c \<or> c = CHR ''_'' \<or> c = CHR ''-'') s"

lemma linuxRegex_shell_safe: "linuxRegex s \<Longrightarrow> shell_safe s"
  by (auto simp: linuxRegex_def shell_safe_def split: list.splits)

section \<open>Properties\<close>




end
