(* ===== verification/WgConfig.thy ===== *)
theory WgConfig
  imports Routes Base64 Config
begin

text \<open>
  The WireGuard configuration layer of pkg/wireguard: parsing the dump of a live interface, the
  diff of two configurations, the commands that apply it, the wg-quick file, and the parsing of
  the counters the daemon reads. A command is run by a parameter: \<open>fails\<close> says which commands
  fail, outputs are arguments, and the commands that were issued are returned in order.
\<close>

section \<open>Data\<close>

record WgInterface =
  wi_PrivateKey :: string
  wi_Address :: string
  wi_ListenPort :: int

record WgPeerCfg =
  pc_PublicKey :: string
  pc_PresharedKey :: string
  pc_Endpoint :: string
  pc_AllowedIPs :: "string list"
  pc_PersistentKeepalive :: int

record WgCfg =
  wc_Interface :: WgInterface
  wc_Peers :: "(string, WgPeerCfg) gomap"

record ConfigDiff =
  cd_InterfaceChanged :: bool
  cd_AddedPeers :: "(string, WgPeerCfg) gomap"
  cd_RemovedPeers :: "string list"
  cd_ModifiedPeers :: "(string, WgPeerCfg) gomap"

record WGPeer =
  wp_PublicKey :: string
  wp_Endpoint :: string
  wp_AllowedIPs :: "string list"
  wp_PersistentKeepalive :: int

record FullConfig =
  fc_Interface :: WgInterface
  fc_Peers :: "WGPeer list"

record PeerTransfer =
  RxBytes :: "64 word"
  TxBytes :: "64 word"

section \<open>Scanning numbers\<close>

text \<open>
  fmt.Sscanf with the verb d: leading blanks but no newline, an optional sign for a signed
  variable, then the longest run of digits; the rest of the input is not looked at. The variable
  keeps its value when there is no digit or the number does not fit.
\<close>

definition scan_start :: "string \<Rightarrow> string" where
  "scan_start s = dropWhile (\<lambda>c. is_space c \<and> c \<noteq> CHR 0x0A) s"

definition sscanf_int :: "string \<Rightarrow> int option" where
  "sscanf_int s =
     (let t = scan_start s;
          sign = (case t of c # _ \<Rightarrow> if c = CHR ''-'' \<or> c = CHR ''+'' then [c] else [] | [] \<Rightarrow> [])
      in atoi (sign @ takeWhile is_digit (drop (length sign) t)))"

definition sscanf_uint :: "string \<Rightarrow> 64 word option" where
  "sscanf_uint s =
     (let ds = takeWhile is_digit (scan_start s)
      in if ds = [] \<or> 18446744073709551615 < dec_value ds then None else Some (word_of_nat (dec_value ds)))"

section \<open>The live configuration\<close>

definition dump_peer :: "string list \<Rightarrow> WgPeerCfg option" where
  "dump_peer parts =
     (if length parts < 4 then None
      else Some \<lparr>pc_PublicKey = parts ! 0, pc_PresharedKey = parts ! 1, pc_Endpoint = parts ! 2,
        pc_AllowedIPs = split_char CHR '','' (parts ! 3),
        pc_PersistentKeepalive =
          (if length parts \<ge> 5 then (case sscanf_int (parts ! 4) of Some v \<Rightarrow> v | None \<Rightarrow> 0) else 0)\<rparr>)"

definition dump_interface :: "string list \<Rightarrow> WgInterface" where
  "dump_interface parts =
     (if length parts \<ge> 3
      then \<lparr>wi_PrivateKey = parts ! 0, wi_Address = [],
            wi_ListenPort = (case sscanf_int (parts ! 2) of Some v \<Rightarrow> v | None \<Rightarrow> 0)\<rparr>
      else \<lparr>wi_PrivateKey = [], wi_Address = [], wi_ListenPort = 0\<rparr>)"

definition add_peer :: "(string, WgPeerCfg) gomap \<Rightarrow> WgPeerCfg \<Rightarrow> (string, WgPeerCfg) gomap" where
  "add_peer m p = fmupd (pc_PublicKey p) p m"

definition GetCurrentConfig :: "string option \<Rightarrow> WgCfg option" where
  "GetCurrentConfig output =
     (case output of
        None \<Rightarrow> None
      | Some out \<Rightarrow>
          if trim_space out = [] then None
          else (let lines = split_char CHR 0x0A (trim_space out) in
            Some \<lparr>wc_Interface = dump_interface (GoPrelude.fields (hd lines)),
                  wc_Peers = foldl add_peer fmempty
                    (List.map_filter dump_peer (map GoPrelude.fields (tl lines)))\<rparr>))"

definition FullConfigToConfig :: "FullConfig \<Rightarrow> WgCfg" where
  "FullConfigToConfig full =
     \<lparr>wc_Interface = fc_Interface full,
      wc_Peers = foldl add_peer fmempty
        (map (\<lambda>p. \<lparr>pc_PublicKey = wp_PublicKey p, pc_PresharedKey = [], pc_Endpoint = wp_Endpoint p,
           pc_AllowedIPs = wp_AllowedIPs p, pc_PersistentKeepalive = wp_PersistentKeepalive p\<rparr>) (fc_Peers full))\<rparr>"

section \<open>The diff\<close>

definition peersEqual :: "WgPeerCfg \<Rightarrow> WgPeerCfg \<Rightarrow> bool" where
  "peersEqual a b \<longleftrightarrow>
     pc_PresharedKey a = pc_PresharedKey b \<and> pc_Endpoint a = pc_Endpoint b
     \<and> pc_PersistentKeepalive a = pc_PersistentKeepalive b
     \<and> length (pc_AllowedIPs a) = length (pc_AllowedIPs b)
     \<and> list_all (\<lambda>ip. List.member (pc_AllowedIPs a) ip) (pc_AllowedIPs b)"

text \<open>\<open>cks\<close> is the order in which the current peers are ranged over.\<close>

definition wg_CalculateDiff :: "string list \<Rightarrow> WgCfg \<Rightarrow> WgCfg \<Rightarrow> ConfigDiff" where
  "wg_CalculateDiff cks current desired =
     \<lparr>cd_InterfaceChanged = (wi_ListenPort (wc_Interface current) \<noteq> wi_ListenPort (wc_Interface desired)),
      cd_AddedPeers = fmfilter (\<lambda>k. fmlookup (wc_Peers current) k = None) (wc_Peers desired),
      cd_RemovedPeers = filter (\<lambda>k. fmlookup (wc_Peers desired) k = None) cks,
      cd_ModifiedPeers = fmfilter (\<lambda>k. case (fmlookup (wc_Peers current) k, fmlookup (wc_Peers desired) k) of
          (Some c, Some d) \<Rightarrow> \<not> peersEqual c d | _ \<Rightarrow> False) (wc_Peers desired)\<rparr>"

definition HasChanges :: "ConfigDiff \<Rightarrow> bool" where
  "HasChanges d \<longleftrightarrow> cd_InterfaceChanged d \<or> go_len (cd_AddedPeers d) > 0
     \<or> length (cd_RemovedPeers d) > 0 \<or> go_len (cd_ModifiedPeers d) > 0"

section \<open>Applying a configuration over SSH\<close>

datatype ssh_cmd = Run string | RunStdin string string | WriteFile string string | RunQuiet string

fun run_cmds :: "(ssh_cmd \<Rightarrow> bool) \<Rightarrow> ssh_cmd list \<Rightarrow> ssh_cmd list \<times> bool" where
  "run_cmds fails [] = ([], True)"
| "run_cmds fails (c # cs) =
     (if fails c then ([c], False) else (let (ran, ok) = run_cmds fails cs in (c # ran, ok)))"

definition addOrUpdatePeer :: "string \<Rightarrow> string \<Rightarrow> WgPeerCfg \<Rightarrow> ssh_cmd" where
  "addOrUpdatePeer iface pubKey peer =
     (let psk = pc_PresharedKey peer \<noteq> [] \<and> pc_PresharedKey peer \<noteq> ''(none)'';
          cmd = ''wg set '' @ iface @ '' peer '' @ pubKey
            @ (if psk then '' preshared-key /dev/stdin'' else [])
            @ (if pc_Endpoint peer \<noteq> [] \<and> pc_Endpoint peer \<noteq> ''(none)'' then '' endpoint '' @ pc_Endpoint peer else [])
            @ (if pc_AllowedIPs peer \<noteq> [] then '' allowed-ips '' @ join_with '','' (pc_AllowedIPs peer) else [])
            @ (if pc_PersistentKeepalive peer > 0 then '' persistent-keepalive '' @ itoa (pc_PersistentKeepalive peer) else [])
      in if psk then RunStdin cmd (pc_PresharedKey peer @ [CHR 0x0A]) else Run cmd)"

text \<open>\<open>aks\<close> and \<open>mks\<close> are the range orders of the added and the modified peers.\<close>

definition ApplyDiff :: "(ssh_cmd \<Rightarrow> bool) \<Rightarrow> string list \<Rightarrow> string list \<Rightarrow> string \<Rightarrow> ConfigDiff \<Rightarrow> ssh_cmd list \<times> bool" where
  "ApplyDiff fails aks mks iface diff =
     (if cd_InterfaceChanged diff then ([], False)
      else run_cmds fails
        (map (\<lambda>k. Run (''wg set '' @ iface @ '' peer '' @ k @ '' remove'')) (cd_RemovedPeers diff)
         @ List.map_filter (\<lambda>k. map_option (addOrUpdatePeer iface k) (fmlookup (cd_AddedPeers diff) k)) aks
         @ List.map_filter (\<lambda>k. map_option (addOrUpdatePeer iface k) (fmlookup (cd_ModifiedPeers diff) k)) mks))"

definition GenerateWgQuickConfig :: "FullConfig \<Rightarrow> Entry list \<Rightarrow> string" where
  "GenerateWgQuickConfig config rts =
     (let nl = [CHR 0x0A]; i = fc_Interface config in
      ''[Interface]'' @ nl
      @ ''Address = '' @ wi_Address i @ nl
      @ ''ListenPort = '' @ itoa (wi_ListenPort i) @ nl
      @ ''PrivateKey = '' @ wi_PrivateKey i @ nl
      @ concat (map (\<lambda>r. ''PostUp = ip route add '' @ rt_Network r @ '' via '' @ rt_Gateway r @ '' dev %i || true'' @ nl) rts)
      @ concat (map (\<lambda>r. ''PreDown = ip route del '' @ rt_Network r @ '' via '' @ rt_Gateway r @ '' dev %i || true'' @ nl) rts)
      @ ''PostUp = sysctl -w net.ipv4.ip_forward=1'' @ nl @ nl
      @ concat (map (\<lambda>p. ''[Peer]'' @ nl
          @ ''PublicKey = '' @ wp_PublicKey p @ nl
          @ (if wp_Endpoint p \<noteq> [] then ''Endpoint = '' @ wp_Endpoint p @ nl else [])
          @ (if wp_AllowedIPs p \<noteq> [] then ''AllowedIPs = '' @ join_with '', '' (wp_AllowedIPs p) @ nl else [])
          @ (if wp_PersistentKeepalive p > 0 then ''PersistentKeepalive = '' @ itoa (wp_PersistentKeepalive p) @ nl else [])
          @ nl) (fc_Peers config)))"

definition conf_path :: "string \<Rightarrow> string" where
  "conf_path iface = ''/etc/wireguard/'' @ iface @ ''.conf''"

definition ApplyPersistentConfig :: "(ssh_cmd \<Rightarrow> bool) \<Rightarrow> string \<Rightarrow> FullConfig \<Rightarrow> Entry list \<Rightarrow> ssh_cmd list \<times> bool" where
  "ApplyPersistentConfig fails iface config rts =
     run_cmds fails
       [WriteFile (conf_path iface) (GenerateWgQuickConfig config rts),
        Run (''systemctl enable wg-quick@'' @ iface),
        Run (''systemctl restart wg-quick@'' @ iface)]"

definition canUseOnlineUpdate :: "ConfigDiff \<Rightarrow> bool" where
  "canUseOnlineUpdate diff \<longleftrightarrow> \<not> cd_InterfaceChanged diff"

definition UpdatePersistentConfig :: "(ssh_cmd \<Rightarrow> bool) \<Rightarrow> string list \<Rightarrow> string list \<Rightarrow> string \<Rightarrow> FullConfig \<Rightarrow>
    Entry list \<Rightarrow> ConfigDiff \<Rightarrow> ssh_cmd list \<times> bool" where
  "UpdatePersistentConfig fails aks mks iface config rts diff =
     (if cd_InterfaceChanged diff \<or> \<not> canUseOnlineUpdate diff
      then ApplyPersistentConfig fails iface config rts
      else (let w = WriteFile (conf_path iface) (GenerateWgQuickConfig config rts) in
            if fails w then ([w], False)
            else (let (ran, ok) = ApplyDiff fails aks mks iface diff in (w # ran, ok))))"

definition RemovePersistentConfig :: "(ssh_cmd \<Rightarrow> bool) \<Rightarrow> string \<Rightarrow> ssh_cmd list \<times> bool" where
  "RemovePersistentConfig fails iface =
     (let rm = Run (''rm -f '' @ conf_path iface) in
      ([RunQuiet (''systemctl stop wg-quick@'' @ iface), RunQuiet (''systemctl disable wg-quick@'' @ iface), rm],
       \<not> fails rm))"

text \<open>strings.ReplaceAll of a quote by the quoted one, and the quoting itself.\<close>

definition shellQuote :: "string \<Rightarrow> string" where
  "shellQuote s = [CHR 0x27] @ concat (map (\<lambda>c. if c = CHR 0x27 then [CHR 0x27, CHR 0x5C, CHR 0x27, CHR 0x27] else [c]) s) @ [CHR 0x27]"

definition full_peer_cmd :: "string \<Rightarrow> WGPeer \<Rightarrow> ssh_cmd" where
  "full_peer_cmd qi p = Run (''wg set '' @ qi @ '' peer '' @ wp_PublicKey p
     @ (if wp_Endpoint p \<noteq> [] then '' endpoint '' @ wp_Endpoint p else [])
     @ (if wp_AllowedIPs p \<noteq> [] then '' allowed-ips '' @ join_with '','' (wp_AllowedIPs p) else [])
     @ (if wp_PersistentKeepalive p > 0 then '' persistent-keepalive '' @ itoa (wp_PersistentKeepalive p) else []))"

text \<open>
  The private key file is removed by a deferred call, on every return after it was written.
\<close>

definition ApplyFullConfiguration :: "string \<Rightarrow> (ssh_cmd \<Rightarrow> bool) \<Rightarrow> string \<Rightarrow> FullConfig \<Rightarrow> ssh_cmd list \<times> bool" where
  "ApplyFullConfiguration goos fails iface config =
     (case ifname_Validate goos iface of
        Some _ \<Rightarrow> ([], False)
      | None \<Rightarrow>
          (let qi = shellQuote iface; tmpKeyFile = ''/tmp/wg-key-'' @ iface; qk = shellQuote tmpKeyFile;
               del = Run (''ip link del '' @ qi @ '' 2>/dev/null || true'');
               (pre, ok) = run_cmds fails [Run (''ip link add '' @ qi @ '' type wireguard''),
                              WriteFile tmpKeyFile (wi_PrivateKey (fc_Interface config))]
           in if \<not> ok then (del # pre, False)
              else (let (ran, ok') = run_cmds fails
                      ([Run (''wg set '' @ qi @ '' private-key '' @ qk @ '' listen-port '' @ itoa (wi_ListenPort (fc_Interface config))),
                        Run (''ip addr add '' @ wi_Address (fc_Interface config) @ '' dev '' @ qi),
                        Run (''ip link set '' @ qi @ '' up'')] @ map (full_peer_cmd qi) (fc_Peers config))
                    in (del # pre @ ran @ [Run (''rm -f '' @ qk)], ok'))))"

section \<open>The local interface\<close>

text \<open>The arguments and the standard input of the wg command.\<close>

definition wg_set_args :: "string \<Rightarrow> string \<Rightarrow> byte list \<Rightarrow> string \<Rightarrow> string \<Rightarrow> string list \<times> string option" where
  "wg_set_args iface pubKey psk endpoint allowedIPs =
     (let has = psk \<noteq> replicate 32 0 in
      ([''set'', iface, ''peer'', pubKey]
       @ (if has then [''preshared-key'', ''/dev/stdin''] else [])
       @ (if endpoint \<noteq> [] then [''endpoint'', endpoint] else [])
       @ (if allowedIPs \<noteq> [] then [''allowed-ips'', allowedIPs] else [])
       @ [''persistent-keepalive'', ''25''],
       if has then Some (b64_encode True b64_std psk @ [CHR 0x0A]) else None))"

definition wg_remove_args :: "string \<Rightarrow> string \<Rightarrow> string list" where
  "wg_remove_args iface pubKey = [''set'', iface, ''peer'', pubKey, ''remove'']"

definition GetPeers :: "string option \<Rightarrow> WGPeer list option" where
  "GetPeers output = map_option (\<lambda>out.
     map (\<lambda>l. \<lparr>wp_PublicKey = l, wp_Endpoint = [], wp_AllowedIPs = [], wp_PersistentKeepalive = 0\<rparr>)
       (filter (\<lambda>l. l \<noteq> []) (map trim_space (split_char CHR 0x0A out)))) output"

text \<open>strings.SplitN with a limit: the last part keeps its separators.\<close>

fun split_n :: "nat \<Rightarrow> char \<Rightarrow> string \<Rightarrow> string list" where
  "split_n 0 c s = []"
| "split_n (Suc 0) c s = [s]"
| "split_n (Suc (Suc n)) c s =
     (case index_char c s of None \<Rightarrow> [s] | Some i \<Rightarrow> take i s # split_n (Suc n) c (drop (Suc i) s))"

definition handshake_line :: "(string, int) gomap \<Rightarrow> string \<Rightarrow> (string, int) gomap" where
  "handshake_line m line =
     (case split_n 2 CHR 0x09 (trim_space line) of
        [k, v] \<Rightarrow> fmupd k (case sscanf_int v of Some t \<Rightarrow> t | None \<Rightarrow> 0) m
      | _ \<Rightarrow> m)"

definition GetLatestHandshakes :: "string option \<Rightarrow> (string, int) gomap option" where
  "GetLatestHandshakes output = map_option (\<lambda>out. foldl handshake_line fmempty (split_char CHR 0x0A out)) output"

definition transfer_line :: "(string, PeerTransfer) gomap \<Rightarrow> string \<Rightarrow> (string, PeerTransfer) gomap" where
  "transfer_line m line =
     (case split_n 3 CHR 0x09 (trim_space line) of
        [k, r, t] \<Rightarrow> fmupd k \<lparr>RxBytes = (case sscanf_uint r of Some v \<Rightarrow> v | None \<Rightarrow> 0),
                              TxBytes = (case sscanf_uint t of Some v \<Rightarrow> v | None \<Rightarrow> 0)\<rparr> m
      | _ \<Rightarrow> m)"

definition GetPeerTransfers :: "string option \<Rightarrow> (string, PeerTransfer) gomap option" where
  "GetPeerTransfers output = map_option (\<lambda>out. foldl transfer_line fmempty (split_char CHR 0x0A out)) output"

text \<open>The outputs of the two commands that make a key pair; None when the command fails.\<close>

definition GenerateKeyPair :: "string option \<Rightarrow> (string \<Rightarrow> string option) \<Rightarrow> (string \<times> string) option" where
  "GenerateKeyPair genkey pubkey =
     (case genkey of None \<Rightarrow> None
      | Some out \<Rightarrow> (let priv = trim_space out in
          map_option (\<lambda>o'. (priv, trim_space o')) (pubkey priv)))"

section \<open>Lemmas\<close>

text \<open>What the commands of a diff make of a set of peers.\<close>

definition diff_result :: "ConfigDiff \<Rightarrow> (string, WgPeerCfg) gomap \<Rightarrow> (string, WgPeerCfg) gomap" where
  "diff_result d m =
     fmfilter (\<lambda>k. k \<notin> set (cd_RemovedPeers d)) m ++\<^sub>f cd_AddedPeers d ++\<^sub>f cd_ModifiedPeers d"

lemma peersEqual_refl [simp]: "peersEqual p p"
  by (simp add: peersEqual_def list_all_iff)

lemma peersEqual_iff:
  assumes "distinct (pc_AllowedIPs b)"
  shows "peersEqual a b \<longleftrightarrow> pc_PresharedKey a = pc_PresharedKey b \<and> pc_Endpoint a = pc_Endpoint b
     \<and> pc_PersistentKeepalive a = pc_PersistentKeepalive b
     \<and> set (pc_AllowedIPs a) = set (pc_AllowedIPs b) \<and> distinct (pc_AllowedIPs a)"
proof -
  let ?a = "pc_AllowedIPs a" and ?b = "pc_AllowedIPs b"
  have "length ?a = length ?b \<and> set ?b \<subseteq> set ?a \<longleftrightarrow> set ?a = set ?b \<and> distinct ?a"
  proof
    assume *: "length ?a = length ?b \<and> set ?b \<subseteq> set ?a"
    moreover have "card (set ?a) \<le> length ?a" by (rule card_length)
    moreover have "card (set ?b) = length ?b" using assms by (rule distinct_card)
    ultimately have "set ?b = set ?a"
      by (metis List.finite_set card_seteq)
    with * assms show "set ?a = set ?b \<and> distinct ?a"
      by (metis card_distinct distinct_card)
  next
    assume "set ?a = set ?b \<and> distinct ?a"
    with assms show "length ?a = length ?b \<and> set ?b \<subseteq> set ?a"
      by (metis distinct_card order_refl)
  qed
  then show ?thesis by (auto simp: peersEqual_def list_all_iff)
qed

lemma go_len_pos: "go_len m > 0 \<longleftrightarrow> (\<exists>k v. fmlookup m k = Some v)"
proof -
  have "go_len m > 0 \<longleftrightarrow> fmdom m \<noteq> {||}"
    by (metis bot_fset.rep_eq card_gt_0_iff fcard.rep_eq finite_fset fset_inverse go_len_def)
  also have "\<dots> \<longleftrightarrow> (\<exists>k. k |\<in>| fmdom m)" by auto
  also have "\<dots> \<longleftrightarrow> (\<exists>k v. fmlookup m k = Some v)" by (simp add: fmlookup_dom_iff)
  finally show ?thesis .
qed

lemma no_change_logic:
  "(\<not> (p \<noteq> q \<or> (\<exists>k. A k \<and> \<not> B k) \<or> (\<exists>k. \<not> A k \<and> B k) \<or> (\<exists>k c d. C k c \<and> D k d \<and> \<not> E c d)))
   = (p = q \<and> (\<forall>k. A k = B k) \<and> (\<forall>k c d. C k c \<longrightarrow> D k d \<longrightarrow> E c d))"
  by blast

lemma has_changes_iff:
  assumes "range_order (wc_Peers cur) cks"
  shows "HasChanges (wg_CalculateDiff cks cur des) \<longleftrightarrow>
     wi_ListenPort (wc_Interface cur) \<noteq> wi_ListenPort (wc_Interface des)
     \<or> (\<exists>k. fmlookup (wc_Peers cur) k = None \<and> fmlookup (wc_Peers des) k \<noteq> None)
     \<or> (\<exists>k. fmlookup (wc_Peers cur) k \<noteq> None \<and> fmlookup (wc_Peers des) k = None)
     \<or> (\<exists>k c d. fmlookup (wc_Peers cur) k = Some c \<and> fmlookup (wc_Peers des) k = Some d \<and> \<not> peersEqual c d)"
proof -
  let ?D = "wg_CalculateDiff cks cur des"
  have "go_len (cd_AddedPeers ?D) > 0 \<longleftrightarrow>
      (\<exists>k. fmlookup (wc_Peers cur) k = None \<and> fmlookup (wc_Peers des) k \<noteq> None)"
    by (auto simp: go_len_pos wg_CalculateDiff_def)
  moreover have "length (cd_RemovedPeers ?D) > 0 \<longleftrightarrow>
      (\<exists>k. fmlookup (wc_Peers cur) k \<noteq> None \<and> fmlookup (wc_Peers des) k = None)"
    unfolding range_order_member [OF assms, symmetric]
    by (auto simp: wg_CalculateDiff_def filter_empty_conv)
  moreover have "go_len (cd_ModifiedPeers ?D) > 0 \<longleftrightarrow>
      (\<exists>k c d. fmlookup (wc_Peers cur) k = Some c \<and> fmlookup (wc_Peers des) k = Some d \<and> \<not> peersEqual c d)"
  proof -
    have "(\<exists>v. fmlookup (cd_ModifiedPeers ?D) k = Some v) \<longleftrightarrow>
        (\<exists>c d. fmlookup (wc_Peers cur) k = Some c \<and> fmlookup (wc_Peers des) k = Some d \<and> \<not> peersEqual c d)" for k
      by (cases "fmlookup (wc_Peers cur) k"; cases "fmlookup (wc_Peers des) k") (simp_all add: wg_CalculateDiff_def)
    then show ?thesis by (simp add: go_len_pos)
  qed
  moreover have "cd_InterfaceChanged ?D \<longleftrightarrow> wi_ListenPort (wc_Interface cur) \<noteq> wi_ListenPort (wc_Interface des)"
    by (simp add: wg_CalculateDiff_def)
  ultimately show ?thesis unfolding HasChanges_def by (simp only:)
qed

lemma foldl_add_peer_lookup:
  "fmlookup (foldl add_peer m ps) k = Some p \<Longrightarrow> p \<in> set ps \<and> pc_PublicKey p = k \<or> fmlookup m k = Some p"
  by (induction ps arbitrary: m) (fastforce simp: add_peer_def split: if_splits)+

lemma foldl_add_peer_dom:
  "fmlookup (foldl add_peer m ps) k = None \<longleftrightarrow> k \<notin> pc_PublicKey ` set ps \<and> fmlookup m k = None"
  by (induction ps arbitrary: m) (auto simp: add_peer_def)

lemma fields_nonempty: "w \<in> set (GoPrelude.fields s) \<Longrightarrow> w \<noteq> []"
  by (simp add: GoPrelude.fields_def)

lemma dump_psk:
  assumes "GetCurrentConfig output = Some cur" "fmlookup (wc_Peers cur) k = Some p"
  shows "pc_PresharedKey p \<noteq> []"
proof -
  obtain ls where "fmlookup (foldl add_peer fmempty (List.map_filter dump_peer (map GoPrelude.fields ls))) k = Some p"
    using assms by (auto simp: GetCurrentConfig_def Let_def split: option.splits if_splits)
  then obtain l where "dump_peer (GoPrelude.fields l) = Some p"
    by (auto dest!: foldl_add_peer_lookup simp: List.map_filter_def)
  then show ?thesis
    using fields_nonempty [of "GoPrelude.fields l ! 1" l] by (auto simp: dump_peer_def split: if_splits)
qed

lemma desired_psk: "fmlookup (wc_Peers (FullConfigToConfig full)) k = Some p \<Longrightarrow> pc_PresharedKey p = []"
  by (auto simp: FullConfigToConfig_def dest!: foldl_add_peer_lookup)

section \<open>Properties\<close>



text \<open>
  A deployment is never a no-op: whatever the dump of the live interface says, its
  peers carry a preshared key field that is not empty (an absent key is shown as a word), and the
  configuration to deploy carries an empty one, so every peer that is already configured counts
  as modified and the diff has changes whenever there is a peer to deploy.
\<close>

theorem deployed_peers_always_modified:
  assumes "GetCurrentConfig output = Some cur" "fc_Peers full \<noteq> []" "range_order (wc_Peers cur) cks"
  shows "HasChanges (wg_CalculateDiff cks cur (FullConfigToConfig full))
    \<and> (\<forall>k. fmlookup (wc_Peers cur) k \<noteq> None \<longrightarrow>
         fmlookup (cd_ModifiedPeers (wg_CalculateDiff cks cur (FullConfigToConfig full))) k
         = fmlookup (wc_Peers (FullConfigToConfig full)) k)"
proof -
  let ?des = "FullConfigToConfig full"
  have neq: "\<not> peersEqual c d" if "fmlookup (wc_Peers cur) k = Some c" "fmlookup (wc_Peers ?des) k = Some d" for k c d
    using dump_psk [OF assms(1) that(1)] desired_psk [OF that(2)] by (simp add: peersEqual_def)
  obtain p where "p \<in> set (fc_Peers full)" using assms(2) by (cases "fc_Peers full") auto
  then have "fmlookup (wc_Peers ?des) (wp_PublicKey p) \<noteq> None"
    by (auto simp: FullConfigToConfig_def foldl_add_peer_dom image_comp)
  then have "HasChanges (wg_CalculateDiff cks cur ?des)"
    unfolding has_changes_iff [OF assms(3)] using neq by (metis option.exhaust)
  moreover have "fmlookup (cd_ModifiedPeers (wg_CalculateDiff cks cur ?des)) k = fmlookup (wc_Peers ?des) k"
    if "fmlookup (wc_Peers cur) k \<noteq> None" for k
    using that neq [of k] by (auto simp: wg_CalculateDiff_def split: option.splits)
  ultimately show ?thesis by blast
qed

theorem deployed_peers_always_modified_witness:
  "let out = ''priv pub 51820 off'' @ [CHR 0x0A] @ ''P (none) 1.2.3.4:51820 10.0.0.2/32 0'';
       full = \<lparr>fc_Interface = \<lparr>wi_PrivateKey = ''priv'', wi_Address = ''10.0.0.1/16'', wi_ListenPort = 51820\<rparr>,
         fc_Peers = [\<lparr>wp_PublicKey = ''P'', wp_Endpoint = ''1.2.3.4:51820'', wp_AllowedIPs = [''10.0.0.2/32''], wp_PersistentKeepalive = 0\<rparr>]\<rparr>
   in \<exists>cur. GetCurrentConfig (Some out) = Some cur \<and> HasChanges (wg_CalculateDiff [''P''] cur (FullConfigToConfig full))"
proof -
  let ?out = "''priv pub 51820 off'' @ [CHR 0x0A] @ ''P (none) 1.2.3.4:51820 10.0.0.2/32 0''"
  let ?full = "\<lparr>fc_Interface = \<lparr>wi_PrivateKey = ''priv'', wi_Address = ''10.0.0.1/16'', wi_ListenPort = 51820\<rparr>,
         fc_Peers = [\<lparr>wp_PublicKey = ''P'', wp_Endpoint = ''1.2.3.4:51820'', wp_AllowedIPs = [''10.0.0.2/32''], wp_PersistentKeepalive = 0\<rparr>]\<rparr>"
  obtain cur where cur: "GetCurrentConfig (Some ?out) = Some cur" "range_order (wc_Peers cur) [''P'']"
    by (simp add: GetCurrentConfig_def trim_space_def is_space_def GoPrelude.fields_def List.map_filter_def
        dump_peer_def add_peer_def range_order_def)
  have "HasChanges (wg_CalculateDiff [''P''] cur (FullConfigToConfig ?full))"
    by (rule conjunct1 [OF deployed_peers_always_modified [OF cur(1) _ cur(2)]]) simp
  with cur(1) show ?thesis unfolding Let_def by blast
qed

end
