(* ===== verification/MeshPolicy.thy ===== *)
theory MeshPolicy
  imports WgConfig
begin

text \<open>
  The centrally managed mesh of pkg/mesh: its state, adding and removing nodes, groups and
  access policies. The mutex of the mesh is modelled from the side of the one goroutine that
  runs a command: a call knows what the goroutine already holds, and taking the lock for reading
  while holding it for writing, or for writing while holding it at all, blocks for ever.
\<close>

section \<open>Data\<close>

record Node =
  nd_Hostname :: string
  nd_MeshIP :: "byte list"
  nd_PublicKey :: string
  nd_PrivateKey :: string
  nd_SSHHost :: string
  nd_SSHPort :: int
  nd_PublicEndpoint :: string
  nd_ListenPort :: int
  nd_BehindNAT :: bool
  nd_RoutableNetworks :: "string list"
  nd_IsLocal :: bool
  nd_ActualHostname :: string
  nd_FQDN :: string

record Group =
  gr_Description :: string
  gr_Members :: "string list"

record AccessPolicy =
  ap_Name :: string
  ap_Description :: string
  ap_FromGroups :: "string list"
  ap_ToGroups :: "string list"
  ap_AllowMeshIPs :: bool
  ap_AllowRoutableNetworks :: bool

record PeerAccess =
  AllowMeshIP :: bool
  AllowRoutableNetworks :: bool

record Mesh =
  me_InterfaceName :: string
  me_Network :: string
  me_ListenPort :: int
  me_Nodes :: "(string, Node) gomap"
  me_LocalHostname :: string
  me_Groups :: "(string, Group) gomap"
  me_AccessPolicies :: "AccessPolicy list"

section \<open>The mutex\<close>

datatype mu_held = Unheld | Reading | Writing

datatype stuck = Deadlock | GoPanic go_panic

type_synonym 'a locked = "stuck + 'a"

fun with_rlock :: "mu_held \<Rightarrow> (mu_held \<Rightarrow> 'a locked) \<Rightarrow> 'a locked" where
  "with_rlock Writing body = Inl Deadlock"
| "with_rlock _ body = body Reading"

fun with_lock :: "mu_held \<Rightarrow> (mu_held \<Rightarrow> 'a locked) \<Rightarrow> 'a locked" where
  "with_lock Unheld body = body Writing"
| "with_lock _ body = Inl Deadlock"

section \<open>Nodes\<close>

datatype mesh_error = BadNodeSpec | BadMeshIP string | BadSSHPort string | NodeExists string
  | KeyGeneration | NodeNotFound string | BadNetwork string | NotIPv4Network string

text \<open>The printing of a network: its address and the number of leading ones of its mask.\<close>

definition ipnet_string :: "IPNet \<Rightarrow> string" where
  "ipnet_string n = ip_string (net_ip n) @ ''/'' @ itoa_nat (fst (mask_size (net_mask n)))"

definition InitializeWithNetwork :: "string \<Rightarrow> string \<Rightarrow> mesh_error + Mesh" where
  "InitializeWithNetwork hostname network =
     (let mk = (\<lambda>net. \<lparr>me_InterfaceName = ''wg0'', me_Network = net, me_ListenPort = 51820,
           me_Nodes = fmempty, me_LocalHostname = hostname, me_Groups = fmempty, me_AccessPolicies = []\<rparr>)
      in if network = [] then Inr (mk ''10.99.0.0/16'')
         else case parse_cidr network of
           None \<Rightarrow> Inl (BadNetwork network)
         | Some (_, n) \<Rightarrow>
             (case to4 (net_ip n) of
                None \<Rightarrow> Inl (NotIPv4Network network)
              | Some q \<Rightarrow> Inr (mk (ipnet_string (n\<lparr>net_ip := q\<rparr>)))))"

text \<open>\<open>keys\<close> is the result of wireguard.GenerateKeyPair, the private key first.\<close>

definition AddNode :: "mu_held \<Rightarrow> (string \<times> string) option \<Rightarrow> Mesh \<Rightarrow> string \<Rightarrow> (mesh_error + Mesh) locked" where
  "AddNode mu keys m spec =
     (let parts = split_char CHR '':'' spec in
      if length parts < 3 then Inr (Inl BadNodeSpec)
      else case parse_ip (parts ! 1) of
        None \<Rightarrow> Inr (Inl (BadMeshIP (parts ! 1)))
      | Some ip \<Rightarrow>
          (case (if length parts \<ge> 4 then sscanf_int (parts ! 3) else Some 22) of
             None \<Rightarrow> Inr (Inl (BadSSHPort (parts ! 3)))
           | Some port \<Rightarrow>
               with_lock mu (\<lambda>_.
                 (case fmlookup (me_Nodes m) (parts ! 0) of
                    Some _ \<Rightarrow> Inr (Inl (NodeExists (parts ! 0)))
                  | None \<Rightarrow>
                      (case keys of
                         None \<Rightarrow> Inr (Inl KeyGeneration)
                       | Some (priv, pub) \<Rightarrow>
                           Inr (Inr (m\<lparr>me_Nodes := fmupd (parts ! 0)
                             \<lparr>nd_Hostname = parts ! 0, nd_MeshIP = ip, nd_PublicKey = pub, nd_PrivateKey = priv,
                              nd_SSHHost = parts ! 2, nd_SSHPort = port, nd_PublicEndpoint = [],
                              nd_ListenPort = me_ListenPort m, nd_BehindNAT = False, nd_RoutableNetworks = [],
                              nd_IsLocal = (parts ! 0 = me_LocalHostname m), nd_ActualHostname = [], nd_FQDN = []\<rparr>
                             (me_Nodes m)\<rparr>)))))))"

definition RemoveNode :: "mu_held \<Rightarrow> Mesh \<Rightarrow> string \<Rightarrow> (mesh_error + Mesh) locked" where
  "RemoveNode mu m hostname = with_lock mu (\<lambda>_.
     (case fmlookup (me_Nodes m) hostname of
        None \<Rightarrow> Inr (Inl (NodeNotFound hostname))
      | Some _ \<Rightarrow> Inr (Inr (m\<lparr>me_Nodes := fmdrop hostname (me_Nodes m)\<rparr>))))"

text \<open>The lines that ListSimple prints, for the order \<open>nks\<close> of the nodes.\<close>

definition ListSimple :: "mu_held \<Rightarrow> string list \<Rightarrow> Mesh \<Rightarrow> string list locked" where
  "ListSimple mu nks m = with_rlock mu (\<lambda>_. Inr (map
     (\<lambda>n. (if nd_ActualHostname n \<noteq> [] then nd_ActualHostname n else nd_Hostname n) @ '' '' @ ip_string (nd_MeshIP n))
     (range_values (me_Nodes m) nks)))"

section \<open>Groups and policies\<close>

datatype policy_error = DuplicateMember string string | DuplicatePolicy string | NoFromGroups string
  | NoToGroups string | MissingFromGroup string string | MissingToGroup string string | MatchesNothing string

fun first_duplicate :: "string list \<Rightarrow> string list \<Rightarrow> string option" where
  "first_duplicate seen [] = None"
| "first_duplicate seen (x # xs) = (if x \<in> set seen then Some x else first_duplicate (x # seen) xs)"

fun check_groups :: "(string, Group) gomap \<Rightarrow> string list \<Rightarrow> policy_error option" where
  "check_groups gs [] = None"
| "check_groups gs (k # ks) =
     (case fmlookup gs k of
        None \<Rightarrow> check_groups gs ks
      | Some g \<Rightarrow> (case first_duplicate [] (gr_Members g) of
          Some x \<Rightarrow> Some (DuplicateMember k x) | None \<Rightarrow> check_groups gs ks))"

definition ValidateGroups :: "mu_held \<Rightarrow> string list \<Rightarrow> Mesh \<Rightarrow> policy_error option locked" where
  "ValidateGroups mu gks m = with_rlock mu (\<lambda>_.
     Inr (if go_len (me_Groups m) = 0 then None else check_groups (me_Groups m) gks))"

definition group_members :: "Mesh \<Rightarrow> string \<Rightarrow> string list" where
  "group_members m g = (case fmlookup (me_Groups m) g of None \<Rightarrow> [] | Some grp \<Rightarrow> gr_Members grp)"

definition policy_matches :: "Mesh \<Rightarrow> AccessPolicy \<Rightarrow> bool" where
  "policy_matches m p \<longleftrightarrow> list_ex (\<lambda>f. list_ex (\<lambda>t. group_members m f \<noteq> [] \<and> group_members m t \<noteq> [])
     (ap_ToGroups p)) (ap_FromGroups p)"

definition check_policy :: "Mesh \<Rightarrow> AccessPolicy \<Rightarrow> policy_error option" where
  "check_policy m p =
     (if ap_FromGroups p = [] then Some (NoFromGroups (ap_Name p))
      else if ap_ToGroups p = [] then Some (NoToGroups (ap_Name p))
      else case find (\<lambda>g. fmlookup (me_Groups m) g = None) (ap_FromGroups p) of
        Some g \<Rightarrow> Some (MissingFromGroup (ap_Name p) g)
      | None \<Rightarrow>
          (case find (\<lambda>g. fmlookup (me_Groups m) g = None) (ap_ToGroups p) of
             Some g \<Rightarrow> Some (MissingToGroup (ap_Name p) g)
           | None \<Rightarrow> if policy_matches m p then None else Some (MatchesNothing (ap_Name p))))"

fun check_policies :: "Mesh \<Rightarrow> AccessPolicy list \<Rightarrow> policy_error option" where
  "check_policies m [] = None"
| "check_policies m (p # ps) =
     (case check_policy m p of Some e \<Rightarrow> Some e | None \<Rightarrow> check_policies m ps)"

definition ValidatePolicies :: "mu_held \<Rightarrow> Mesh \<Rightarrow> policy_error option locked" where
  "ValidatePolicies mu m = with_rlock mu (\<lambda>_.
     Inr (if me_AccessPolicies m = [] then None
          else case first_duplicate [] (map ap_Name (me_AccessPolicies m)) of
            Some x \<Rightarrow> Some (DuplicatePolicy x)
          | None \<Rightarrow> check_policies m (me_AccessPolicies m)))"

definition GetNodeGroups :: "mu_held \<Rightarrow> string list \<Rightarrow> Mesh \<Rightarrow> string \<Rightarrow> string list locked" where
  "GetNodeGroups mu gks m hostname = with_rlock mu (\<lambda>_.
     Inr (filter (\<lambda>g. hostname \<in> set (group_members m g)) gks))"

definition grant :: "AccessPolicy \<Rightarrow> bool \<Rightarrow> PeerAccess \<Rightarrow> PeerAccess" where
  "grant p isOutbound a =
     (if isOutbound
      then a\<lparr>AllowMeshIP := AllowMeshIP a \<or> ap_AllowMeshIPs p,
             AllowRoutableNetworks := AllowRoutableNetworks a \<or> ap_AllowRoutableNetworks p\<rparr>
      else a)"

definition grant_member :: "Mesh \<Rightarrow> string \<Rightarrow> AccessPolicy \<Rightarrow> bool \<Rightarrow> (string, PeerAccess) gomap \<Rightarrow> string \<Rightarrow> (string, PeerAccess) gomap" where
  "grant_member m hostname p isOutbound acc member =
     (if member = hostname then acc
      else if fmlookup (me_Nodes m) member = None then acc
      else fmupd member (grant p isOutbound
        (go_index \<lparr>AllowMeshIP = False, AllowRoutableNetworks = False\<rparr> acc member)) acc)"

text \<open>The loop over the groups on the other side; a missing group is a nil pointer.\<close>

fun grant_groups :: "Mesh \<Rightarrow> string \<Rightarrow> AccessPolicy \<Rightarrow> bool \<Rightarrow> (string, PeerAccess) gomap \<Rightarrow> string list \<Rightarrow> (string, PeerAccess) gomap locked" where
  "grant_groups m hostname p isOutbound acc [] = Inr acc"
| "grant_groups m hostname p isOutbound acc (g # gs) =
     (case fmlookup (me_Groups m) g of
        None \<Rightarrow> Inl (GoPanic NilDereference)
      | Some grp \<Rightarrow> grant_groups m hostname p isOutbound
          (foldl (grant_member m hostname p isOutbound) acc (gr_Members grp)) gs)"

definition is_member :: "string list \<Rightarrow> string list \<Rightarrow> bool" where
  "is_member nodeGroups gs \<longleftrightarrow> list_ex (\<lambda>g. g \<in> set nodeGroups) gs"

fun apply_policies :: "Mesh \<Rightarrow> string \<Rightarrow> string list \<Rightarrow> (string, PeerAccess) gomap \<Rightarrow> AccessPolicy list \<Rightarrow> (string, PeerAccess) gomap locked" where
  "apply_policies m hostname ngs acc [] = Inr acc"
| "apply_policies m hostname ngs acc (p # ps) =
     (let isOutbound = is_member ngs (ap_FromGroups p); isInbound = is_member ngs (ap_ToGroups p) in
      if \<not> isOutbound \<and> \<not> isInbound then apply_policies m hostname ngs acc ps
      else and_then (grant_groups m hostname p isOutbound acc
             ((if isOutbound then ap_ToGroups p else []) @ (if isInbound then ap_FromGroups p else [])))
           (\<lambda>acc'. apply_policies m hostname ngs acc' ps))"

definition GetAllowedPeers :: "mu_held \<Rightarrow> string list \<Rightarrow> Mesh \<Rightarrow> string \<Rightarrow> (string, PeerAccess) gomap locked" where
  "GetAllowedPeers mu gks m hostname = with_rlock mu (\<lambda>mu.
     and_then (GetNodeGroups mu gks m hostname) (\<lambda>ngs.
       if ngs = [] then Inr fmempty
       else apply_policies m hostname ngs fmempty (me_AccessPolicies m)))"

definition GetPeerHostnames :: "mu_held \<Rightarrow> string list \<Rightarrow> Mesh \<Rightarrow> string list locked" where
  "GetPeerHostnames mu nks m = with_rlock mu (\<lambda>_. Inr (sort nks))"

definition GetNodeGroupNames :: "mu_held \<Rightarrow> string list \<Rightarrow> Mesh \<Rightarrow> string list locked" where
  "GetNodeGroupNames mu gks m = with_rlock mu (\<lambda>_. Inr (sort gks))"

definition GetPolicyNames :: "mu_held \<Rightarrow> Mesh \<Rightarrow> string list locked" where
  "GetPolicyNames mu m = with_rlock mu (\<lambda>_. Inr (sort (map ap_Name (me_AccessPolicies m))))"

definition HasGroups :: "mu_held \<Rightarrow> Mesh \<Rightarrow> bool locked" where
  "HasGroups mu m = with_rlock mu (\<lambda>_. Inr (go_len (me_Groups m) > 0))"

definition HasPolicies :: "mu_held \<Rightarrow> Mesh \<Rightarrow> bool locked" where
  "HasPolicies mu m = with_rlock mu (\<lambda>_. Inr (me_AccessPolicies m \<noteq> []))"

definition IsAccessControlEnabled :: "mu_held \<Rightarrow> Mesh \<Rightarrow> bool locked" where
  "IsAccessControlEnabled mu m =
     and_then (HasGroups mu m) (\<lambda>b. if b then Inr True else HasPolicies mu m)"

section \<open>What a policy means\<close>

text \<open>
  A host is on a side of a policy when it is a member of one of the groups of that side. The
  peers a policy opens for a host are the members of the other side: the to-groups when the
  host is on the from-side, the from-groups when it is on the to-side.
\<close>

definition in_groups :: "Mesh \<Rightarrow> string \<Rightarrow> string list \<Rightarrow> bool" where
  "in_groups m h gs \<longleftrightarrow> list_ex (\<lambda>g. h \<in> set (group_members m g)) gs"

definition opens :: "Mesh \<Rightarrow> AccessPolicy \<Rightarrow> string \<Rightarrow> string \<Rightarrow> bool" where
  "opens m p h q \<longleftrightarrow> in_groups m h (ap_FromGroups p) \<and> in_groups m q (ap_ToGroups p)
     \<or> in_groups m h (ap_ToGroups p) \<and> in_groups m q (ap_FromGroups p)"

definition no_access :: PeerAccess where
  "no_access = \<lparr>AllowMeshIP = False, AllowRoutableNetworks = False\<rparr>"

definition opened :: "Mesh \<Rightarrow> string \<Rightarrow> AccessPolicy list \<Rightarrow> PeerAccess \<Rightarrow> string \<Rightarrow> PeerAccess" where
  "opened m h ps a q =
     \<lparr>AllowMeshIP = (AllowMeshIP a \<or> list_ex (\<lambda>p. in_groups m h (ap_FromGroups p) \<and> opens m p h q \<and> ap_AllowMeshIPs p) ps),
      AllowRoutableNetworks = (AllowRoutableNetworks a
        \<or> list_ex (\<lambda>p. in_groups m h (ap_FromGroups p) \<and> opens m p h q \<and> ap_AllowRoutableNetworks p) ps)\<rparr>"

definition groups_exist :: "Mesh \<Rightarrow> AccessPolicy list \<Rightarrow> bool" where
  "groups_exist m ps \<longleftrightarrow>
     list_all (\<lambda>p. list_all (\<lambda>g. fmlookup (me_Groups m) g \<noteq> None) (ap_FromGroups p @ ap_ToGroups p)) ps"

section \<open>Lemmas\<close>

lemma grant_idem [simp]: "grant p b (grant p b a) = grant p b a"
  by (simp add: grant_def)

lemma foldl_grant_member:
  "fmlookup (foldl (grant_member m h p b) acc ms) q =
     (if q \<in> set ms \<and> q \<noteq> h \<and> fmlookup (me_Nodes m) q \<noteq> None then Some (grant p b (go_index no_access acc q))
      else fmlookup acc q)"
  by (induction ms arbitrary: acc) (auto simp: grant_member_def go_index_def no_access_def)

lemma grant_groups_Inr:
  assumes "list_all (\<lambda>g. fmlookup (me_Groups m) g \<noteq> None) gs"
  shows "\<exists>acc'. grant_groups m h p b acc gs = Inr acc' \<and> (\<forall>q. fmlookup acc' q =
     (if in_groups m q gs \<and> q \<noteq> h \<and> fmlookup (me_Nodes m) q \<noteq> None then Some (grant p b (go_index no_access acc q))
      else fmlookup acc q))"
  using assms
proof (induction gs arbitrary: acc)
  case (Cons g gs)
  then obtain grp where grp: "fmlookup (me_Groups m) g = Some grp" by auto
  let ?acc = "foldl (grant_member m h p b) acc (gr_Members grp)"
  from Cons obtain acc' where acc': "grant_groups m h p b ?acc gs = Inr acc'"
    "\<forall>q. fmlookup acc' q = (if in_groups m q gs \<and> q \<noteq> h \<and> fmlookup (me_Nodes m) q \<noteq> None
        then Some (grant p b (go_index no_access ?acc q)) else fmlookup ?acc q)"
    by auto
  have "go_index no_access ?acc q = (if q \<in> set (gr_Members grp) \<and> q \<noteq> h \<and> fmlookup (me_Nodes m) q \<noteq> None
      then grant p b (go_index no_access acc q) else go_index no_access acc q)" for q
    by (auto simp: go_index_def foldl_grant_member)
  with acc' show ?case
    by (auto simp: grp foldl_grant_member in_groups_def group_members_def)
qed (simp add: in_groups_def)

lemma apply_policies_Inr:
  assumes "groups_exist m ps" "\<And>gs. is_member ngs gs = in_groups m h gs"
  shows "\<exists>acc'. apply_policies m h ngs acc ps = Inr acc' \<and> (\<forall>q. fmlookup acc' q =
     (if fmlookup acc q \<noteq> None \<or> q \<noteq> h \<and> fmlookup (me_Nodes m) q \<noteq> None \<and> list_ex (\<lambda>p. opens m p h q) ps
      then Some (if q \<noteq> h \<and> fmlookup (me_Nodes m) q \<noteq> None then opened m h ps (go_index no_access acc q) q
                 else go_index no_access acc q)
      else None))"
  using assms(1)
proof (induction ps arbitrary: acc)
  case Nil
  show ?case by (auto simp: opened_def go_index_def split: option.splits)
next
  case (Cons p ps)
  let ?out = "in_groups m h (ap_FromGroups p)" and ?in = "in_groups m h (ap_ToGroups p)"
  let ?gs = "(if ?out then ap_ToGroups p else []) @ (if ?in then ap_FromGroups p else [])"
  have other: "in_groups m q ?gs \<longleftrightarrow> opens m p h q" for q
    by (auto simp: in_groups_def opens_def)
  have exist: "list_all (\<lambda>g. fmlookup (me_Groups m) g \<noteq> None) ?gs" "groups_exist m ps"
    using Cons.prems by (auto simp: groups_exist_def)
  obtain acc1 where acc1: "grant_groups m h p ?out acc ?gs = Inr acc1"
    "\<And>q. fmlookup acc1 q = (if opens m p h q \<and> q \<noteq> h \<and> fmlookup (me_Nodes m) q \<noteq> None
        then Some (grant p ?out (go_index no_access acc q)) else fmlookup acc q)"
    using grant_groups_Inr [OF exist(1), of h p ?out acc] unfolding other by blast
  obtain acc' where acc': "apply_policies m h ngs acc1 ps = Inr acc'"
    "\<And>q. fmlookup acc' q = (if fmlookup acc1 q \<noteq> None \<or> q \<noteq> h \<and> fmlookup (me_Nodes m) q \<noteq> None \<and> list_ex (\<lambda>p. opens m p h q) ps
      then Some (if q \<noteq> h \<and> fmlookup (me_Nodes m) q \<noteq> None then opened m h ps (go_index no_access acc1 q) q
                 else go_index no_access acc1 q) else None)"
    using Cons.IH [OF exist(2), of acc1] by blast
  have step: "apply_policies m h ngs acc (p # ps) = Inr acc'"
  proof (cases "\<not> ?out \<and> \<not> ?in")
    case True
    then have "acc1 = acc" using acc1(1) by simp
    with True acc'(1) show ?thesis by (simp add: assms(2))
  next
    case False
    then show ?thesis using acc1(1) acc'(1) by (auto simp: assms(2) Let_def)
  qed
  have ix: "go_index no_access acc1 q = (if opens m p h q \<and> q \<noteq> h \<and> fmlookup (me_Nodes m) q \<noteq> None
      then grant p ?out (go_index no_access acc q) else go_index no_access acc q)" for q
    by (auto simp: go_index_def acc1(2))
  have "fmlookup acc' q = (if fmlookup acc q \<noteq> None \<or> q \<noteq> h \<and> fmlookup (me_Nodes m) q \<noteq> None \<and> list_ex (\<lambda>p. opens m p h q) (p # ps)
      then Some (if q \<noteq> h \<and> fmlookup (me_Nodes m) q \<noteq> None then opened m h (p # ps) (go_index no_access acc q) q
                 else go_index no_access acc q)
      else None)" for q
    unfolding acc'(2) ix acc1(2) by (auto simp: opened_def grant_def)
  with step show ?case by blast
qed

lemma check_policies_exist: "check_policies m ps = None \<Longrightarrow> groups_exist m ps"
  by (induction ps)
    (auto simp: check_policy_def groups_exist_def list_all_iff find_None_iff split: option.splits if_splits)

lemma node_groups_member:
  assumes "range_order (me_Groups m) gks"
  shows "is_member (filter (\<lambda>g. h \<in> set (group_members m g)) gks) gs = in_groups m h gs"
proof -
  have "g \<in> set gks" if "h \<in> set (group_members m g)" for g
    using that range_order_member [OF assms, of g] by (auto simp: group_members_def split: option.splits)
  then show ?thesis by (auto simp: is_member_def in_groups_def list_ex_iff)
qed

lemma not_in_groups:
  assumes "range_order (me_Groups m) gks" "filter (\<lambda>g. h \<in> set (group_members m g)) gks = []"
  shows "\<not> in_groups m h gs"
  using node_groups_member [OF assms(1), of h gs] assms(2) by (simp add: is_member_def list_ex_iff)

lemma allowed_peers_spec:
  assumes "ValidatePolicies Unheld m = Inr None" "range_order (me_Groups m) gks"
  shows "\<exists>acc. GetAllowedPeers Unheld gks m h = Inr acc \<and> (\<forall>q. fmlookup acc q =
     (if q \<noteq> h \<and> fmlookup (me_Nodes m) q \<noteq> None \<and> list_ex (\<lambda>p. opens m p h q) (me_AccessPolicies m)
      then Some (opened m h (me_AccessPolicies m) no_access q) else None))"
proof -
  let ?ngs = "filter (\<lambda>g. h \<in> set (group_members m g)) gks" and ?ps = "me_AccessPolicies m"
  have exist: "groups_exist m ?ps"
    using assms(1) check_policies_exist [of m ?ps]
    by (auto simp: ValidatePolicies_def groups_exist_def split: if_splits option.splits)
  show ?thesis
  proof (cases "?ngs = []")
    case True
    then have "\<not> opens m p h q" for p q
      using not_in_groups [OF assms(2)] by (auto simp: opens_def)
    with True show ?thesis by (simp add: GetAllowedPeers_def GetNodeGroups_def list_ex_iff)
  next
    case False
    obtain acc where "apply_policies m h ?ngs fmempty ?ps = Inr acc"
      "\<And>q. fmlookup acc q = (if q \<noteq> h \<and> fmlookup (me_Nodes m) q \<noteq> None \<and> list_ex (\<lambda>p. opens m p h q) ?ps
        then Some (opened m h ?ps no_access q) else None)"
      using apply_policies_Inr [OF exist node_groups_member [OF assms(2)], of h fmempty]
      by (auto simp: go_index_def)
    with False show ?thesis
      by (intro exI [of _ acc]) (simp add: GetAllowedPeers_def GetNodeGroups_def)
  qed
qed

lemma allowed_peers_lookup:
  assumes "ValidatePolicies Unheld m = Inr None" "range_order (me_Groups m) gks"
    and "GetAllowedPeers Unheld gks m h = Inr acc"
  shows "fmlookup acc q \<noteq> None \<longleftrightarrow>
     q \<noteq> h \<and> fmlookup (me_Nodes m) q \<noteq> None \<and> list_ex (\<lambda>p. opens m p h q) (me_AccessPolicies m)"
  using allowed_peers_spec [OF assms(1,2), of h] assms(3) by auto

section \<open>Properties\<close>


text \<open>
  Access is symmetric, as a tunnel needs both ends: of two different nodes either both are
  allowed peers of each other or neither is, so no node is configured with a peer that does not
  know it.
\<close>

theorem allowed_peers_symmetric:
  assumes "ValidatePolicies Unheld m = Inr None"
    and "range_order (me_Groups m) gks" "range_order (me_Groups m) gks'"
    and "fmlookup (me_Nodes m) a \<noteq> None" "fmlookup (me_Nodes m) b \<noteq> None"
    and "GetAllowedPeers Unheld gks m a = Inr pa" "GetAllowedPeers Unheld gks' m b = Inr pb"
  shows "fmlookup pa b = None \<longleftrightarrow> fmlookup pb a = None"
proof -
  have sym: "opens m p a b \<longleftrightarrow> opens m p b a" for p by (auto simp: opens_def)
  have "fmlookup pa b \<noteq> None \<longleftrightarrow> b \<noteq> a \<and> list_ex (\<lambda>p. opens m p a b) (me_AccessPolicies m)"
    using allowed_peers_lookup [OF assms(1,2,6), of b] assms(5) by simp
  moreover have "fmlookup pb a \<noteq> None \<longleftrightarrow> a \<noteq> b \<and> list_ex (\<lambda>p. opens m p b a) (me_AccessPolicies m)"
    using allowed_peers_lookup [OF assms(1,3,7), of a] assms(4) by simp
  ultimately show ?thesis using sym by (auto simp: list_ex_iff)
qed

text \<open>A mesh of three nodes with one policy from the group f to the group t.\<close>

definition mesh_node :: "string \<Rightarrow> byte \<Rightarrow> string list \<Rightarrow> Node" where
  "mesh_node h i nets = \<lparr>nd_Hostname = h, nd_MeshIP = [10, 99, 0, i], nd_PublicKey = h @ ''-key'',
     nd_PrivateKey = h @ ''-priv'', nd_SSHHost = h @ ''.example'', nd_SSHPort = 22, nd_PublicEndpoint = [],
     nd_ListenPort = 51820, nd_BehindNAT = False, nd_RoutableNetworks = nets, nd_IsLocal = False,
     nd_ActualHostname = [], nd_FQDN = []\<rparr>"

definition sample_mesh :: Mesh where
  "sample_mesh = \<lparr>me_InterfaceName = ''wg0'', me_Network = ''10.99.0.0/16'', me_ListenPort = 51820,
     me_Nodes = fmupd ''a'' (mesh_node ''a'' 1 []) (fmupd ''b'' (mesh_node ''b'' 2 [''192.168.7.0/24''])
       (fmupd ''c'' (mesh_node ''c'' 3 []) fmempty)),
     me_LocalHostname = ''a'',
     me_Groups = fmupd ''f'' \<lparr>gr_Description = [], gr_Members = [''a'']\<rparr>
       (fmupd ''t'' \<lparr>gr_Description = [], gr_Members = [''b'']\<rparr> fmempty),
     me_AccessPolicies = [\<lparr>ap_Name = ''p'', ap_Description = [], ap_FromGroups = [''f''], ap_ToGroups = [''t''],
       ap_AllowMeshIPs = True, ap_AllowRoutableNetworks = True\<rparr>]\<rparr>"

lemma sample_mesh_valid: "ValidatePolicies Unheld sample_mesh = Inr None"
  by (simp add: ValidatePolicies_def sample_mesh_def check_policy_def policy_matches_def group_members_def)

lemma sample_mesh_order: "range_order (me_Groups sample_mesh) [''f'', ''t'']"
  by (auto simp: range_order_def sample_mesh_def)


theorem allowed_peers_symmetric_witness:
  "\<exists>pa pb. GetAllowedPeers Unheld [''f'', ''t''] sample_mesh ''a'' = Inr pa
     \<and> GetAllowedPeers Unheld [''f'', ''t''] sample_mesh ''b'' = Inr pb
     \<and> (fmlookup pa ''b'' = None \<longleftrightarrow> fmlookup pb ''a'' = None)"
proof -
  obtain pa pb where p: "GetAllowedPeers Unheld [''f'', ''t''] sample_mesh ''a'' = Inr pa"
      "GetAllowedPeers Unheld [''f'', ''t''] sample_mesh ''b'' = Inr pb"
    using allowed_peers_spec [OF sample_mesh_valid sample_mesh_order] by blast
  have "fmlookup pa ''b'' = None \<longleftrightarrow> fmlookup pb ''a'' = None"
    by (rule allowed_peers_symmetric [OF sample_mesh_valid sample_mesh_order sample_mesh_order _ _ p])
      (simp_all add: sample_mesh_def)
  with p show ?thesis by (intro exI conjI)
qed

end
