(* ===== verification/Deploy.thy ===== *)
theory Deploy
  imports MeshPolicy
begin

text \<open>
  Deployment of pkg/mesh/deploy.go with the helpers of pkg/ssh/wireguard.go. A remote host is a
  function from commands to their output, None when the command fails; \<open>hosts\<close> gives it for an
  SSH address, None when no connection can be made. The order of every range statement comes
  from \<open>ord\<close>, indexed by the statement and the set of keys.
\<close>

type_synonym remote = "ssh_cmd \<Rightarrow> string option"

definition cmd_fails :: "remote \<Rightarrow> ssh_cmd \<Rightarrow> bool" where
  "cmd_fails r c \<longleftrightarrow> r c = None"

section \<open>Remote helpers\<close>

definition EnsureWireGuardInstalled :: "remote \<Rightarrow> ssh_cmd list \<times> bool" where
  "EnsureWireGuardInstalled r =
     (let w = Run ''which wg'' in
      case r w of
        Some out \<Rightarrow> if contains out ''/wg'' then ([w], True) else
          (let (ran, ok) = run_cmds (cmd_fails r) [Run ''apt update -qq'',
             Run ''DEBIAN_FRONTEND=noninteractive apt install -y -qq wireguard wireguard-tools'',
             Run ''modprobe wireguard || true''] in (w # ran, ok))
      | None \<Rightarrow>
          (let (ran, ok) = run_cmds (cmd_fails r) [Run ''apt update -qq'',
             Run ''DEBIAN_FRONTEND=noninteractive apt install -y -qq wireguard wireguard-tools'',
             Run ''modprobe wireguard || true''] in (w # ran, ok)))"

definition trimmed_output :: "remote \<Rightarrow> string \<Rightarrow> string option" where
  "trimmed_output r cmd = (case r (Run cmd) of None \<Rightarrow> None
     | Some out \<Rightarrow> if trim_space out = [] then None else Some (trim_space out))"

definition DetectPublicIP :: "remote \<Rightarrow> string option" where
  "DetectPublicIP r = trimmed_output r ''curl -s -4 ifconfig.me || curl -s -4 icanhazip.com || true''"

definition GetHostname :: "remote \<Rightarrow> string option" where
  "GetHostname r = trimmed_output r ''hostname''"

definition GetFQDN :: "remote \<Rightarrow> string option" where
  "GetFQDN r = trimmed_output r ''hostname -f''"

definition sysctl_cmd :: string where
  "sysctl_cmd = ''sysctl -w net.ipv4.ip_forward=1 > /dev/null''"

definition UpdateRoutingTable :: "remote \<Rightarrow> string \<Rightarrow> string list \<Rightarrow> ssh_cmd list \<times> bool" where
  "UpdateRoutingTable r iface networks = run_cmds (cmd_fails r)
     (map (\<lambda>n. RunQuiet (ssh_add_cmd iface \<lparr>rt_Network = n, rt_Gateway = []\<rparr>)) networks @ [RunQuiet sysctl_cmd])"

definition via_cmd :: "string \<Rightarrow> Entry \<Rightarrow> string" where
  "via_cmd iface e =
     (let route = rt_Network e @ '' via '' @ rt_Gateway e @ '' dev '' @ iface
      in ''ip route add '' @ route @ '' || ip route replace '' @ route)"

definition UpdateRoutingTableWithGateways :: "remote \<Rightarrow> string \<Rightarrow> Entry list \<Rightarrow> ssh_cmd list \<times> bool" where
  "UpdateRoutingTableWithGateways r iface rts = run_cmds (cmd_fails r)
     (map (\<lambda>e. RunQuiet (via_cmd iface e)) rts @ [RunQuiet sysctl_cmd])"

section \<open>The configuration of a node\<close>

definition buildPeerConfig :: "Node \<Rightarrow> PeerAccess \<Rightarrow> WGPeer" where
  "buildPeerConfig peer access =
     \<lparr>wp_PublicKey = nd_PublicKey peer, wp_Endpoint = nd_PublicEndpoint peer,
      wp_AllowedIPs = (ip_string (nd_MeshIP peer) @ ''/32'')
        # (if AllowRoutableNetworks access then nd_RoutableNetworks peer else []),
      wp_PersistentKeepalive = 5\<rparr>"

definition buildPeerConfigFullAccess :: "Node \<Rightarrow> WGPeer" where
  "buildPeerConfigFullAccess peer =
     \<lparr>wp_PublicKey = nd_PublicKey peer, wp_Endpoint = nd_PublicEndpoint peer,
      wp_AllowedIPs = (ip_string (nd_MeshIP peer) @ ''/32'') # nd_RoutableNetworks peer,
      wp_PersistentKeepalive = 5\<rparr>"

text \<open>The node of an allowed peer; a missing one is a nil pointer.\<close>

fun for_peers :: "(string, Node) gomap \<Rightarrow> (string, PeerAccess) gomap \<Rightarrow> (Node \<Rightarrow> PeerAccess \<Rightarrow> 'a list) \<Rightarrow> string list \<Rightarrow> 'a list locked" where
  "for_peers nodes allowed f [] = Inr []"
| "for_peers nodes allowed f (k # ks) =
     (case fmlookup allowed k of
        None \<Rightarrow> for_peers nodes allowed f ks
      | Some access \<Rightarrow>
          (case fmlookup nodes k of
             None \<Rightarrow> Inl (GoPanic NilDereference)
           | Some peer \<Rightarrow> and_then (for_peers nodes allowed f ks) (\<lambda>rest. Inr (f peer access @ rest))))"

definition other_nodes :: "range_orders \<Rightarrow> nat \<Rightarrow> Mesh \<Rightarrow> Node \<Rightarrow> Node list" where
  "other_nodes ord i m node =
     range_values (me_Nodes m) (filter (\<lambda>k. k \<noteq> nd_Hostname node) (ord i (fmdom (me_Nodes m))))"

definition mesh_prefix_len :: "Mesh \<Rightarrow> nat" where
  "mesh_prefix_len m =
     (if me_Network m = [] then 16
      else case parse_cidr (me_Network m) of None \<Rightarrow> 16 | Some (_, n) \<Rightarrow> fst (mask_size (net_mask n)))"

definition generateConfigForNode :: "mu_held \<Rightarrow> range_orders \<Rightarrow> Mesh \<Rightarrow> Node \<Rightarrow> FullConfig locked" where
  "generateConfigForNode mu ord m node = with_rlock mu (\<lambda>mu.
     let iface = \<lparr>wi_PrivateKey = nd_PrivateKey node,
           wi_Address = ip_string (nd_MeshIP node) @ ''/'' @ itoa_nat (mesh_prefix_len m),
           wi_ListenPort = nd_ListenPort node\<rparr>
     in and_then (IsAccessControlEnabled mu m) (\<lambda>en.
       if en then
         and_then (GetAllowedPeers mu (ord 0 (fmdom (me_Groups m))) m (nd_Hostname node)) (\<lambda>allowed.
           and_then (for_peers (me_Nodes m) allowed (\<lambda>p a. [buildPeerConfig p a]) (ord 1 (fmdom allowed))) (\<lambda>ps.
             Inr \<lparr>fc_Interface = iface, fc_Peers = ps\<rparr>))
       else Inr \<lparr>fc_Interface = iface, fc_Peers = map buildPeerConfigFullAccess (other_nodes ord 2 m node)\<rparr>))"

definition peer_routes :: "Node \<Rightarrow> Entry list" where
  "peer_routes p = map (\<lambda>n. \<lparr>rt_Network = n, rt_Gateway = ip_string (nd_MeshIP p)\<rparr>) (nd_RoutableNetworks p)"

definition collectRoutesForNode :: "mu_held \<Rightarrow> range_orders \<Rightarrow> Mesh \<Rightarrow> Node \<Rightarrow> Entry list locked" where
  "collectRoutesForNode mu ord m node = with_rlock mu (\<lambda>_.
     Inr (concat (map peer_routes (other_nodes ord 3 m node))))"

definition collectAllRoutesForNode :: "mu_held \<Rightarrow> range_orders \<Rightarrow> Mesh \<Rightarrow> Node \<Rightarrow> Entry list locked" where
  "collectAllRoutesForNode mu ord m node = with_rlock mu (\<lambda>mu.
     let own = map (\<lambda>n. \<lparr>rt_Network = n, rt_Gateway = []\<rparr>) (nd_RoutableNetworks node)
     in and_then (IsAccessControlEnabled mu m) (\<lambda>en.
       if en then
         and_then (GetAllowedPeers mu (ord 4 (fmdom (me_Groups m))) m (nd_Hostname node)) (\<lambda>allowed.
           and_then (for_peers (me_Nodes m) allowed
               (\<lambda>p a. if AllowRoutableNetworks a then peer_routes p else []) (ord 5 (fmdom allowed)))
             (\<lambda>rs. Inr (own @ rs)))
       else Inr (own @ concat (map peer_routes (other_nodes ord 6 m node)))))"

section \<open>Deployment\<close>

datatype deploy_error = GroupsInvalid policy_error | PoliciesInvalid policy_error | ConnectFailed string
  | InstallFailed string | ApplyFailed string | UpdateFailed string | RouteSyncFailed string

definition detect_node :: "remote \<Rightarrow> Node \<Rightarrow> Node" where
  "detect_node r node =
     (let n1 = (case GetHostname r of Some h \<Rightarrow> node\<lparr>nd_ActualHostname := h\<rparr> | None \<Rightarrow> node);
          n2 = (case GetFQDN r of Some f \<Rightarrow> n1\<lparr>nd_FQDN := f\<rparr> | None \<Rightarrow> n1)
      in case DetectPublicIP r of
           None \<Rightarrow> n2\<lparr>nd_BehindNAT := True\<rparr>
         | Some ip \<Rightarrow>
             if ip \<noteq> [] \<and> ip \<noteq> nd_SSHHost node then n2\<lparr>nd_BehindNAT := True\<rparr>
             else n2\<lparr>nd_PublicEndpoint := nd_SSHHost node @ '':'' @ itoa (nd_ListenPort node)\<rparr>)"

fun detect_loop_nodes :: "string option \<Rightarrow> (string \<Rightarrow> int \<Rightarrow> remote option) \<Rightarrow> (string, Node) gomap \<Rightarrow> string list \<Rightarrow>
    deploy_error option \<times> (string, Node) gomap" where
  "detect_loop_nodes os hosts nodes [] = (None, nodes)"
| "detect_loop_nodes os hosts nodes (k # ks) =
     (case fmlookup nodes k of
        None \<Rightarrow> detect_loop_nodes os hosts nodes ks
      | Some node \<Rightarrow>
          if nd_IsLocal node then
            detect_loop_nodes os hosts
              (case (nd_ActualHostname node, os) of
                 ([], Some h) \<Rightarrow> fmupd k (node\<lparr>nd_ActualHostname := h\<rparr>) nodes
               | _ \<Rightarrow> nodes) ks
          else case hosts (nd_SSHHost node) (nd_SSHPort node) of
            None \<Rightarrow> (Some (ConnectFailed k), nodes)
          | Some r \<Rightarrow> detect_loop_nodes os hosts (fmupd k (detect_node r node) nodes) ks)"

definition detectEndpoints :: "mu_held \<Rightarrow> string option \<Rightarrow> (string \<Rightarrow> int \<Rightarrow> remote option) \<Rightarrow> range_orders \<Rightarrow> Mesh \<Rightarrow>
    (deploy_error option \<times> Mesh) locked" where
  "detectEndpoints mu os hosts ord m = with_lock mu (\<lambda>_.
     let (e, nodes) = detect_loop_nodes os hosts (me_Nodes m) (ord 7 (fmdom (me_Nodes m)))
     in Inr (e, m\<lparr>me_Nodes := nodes\<rparr>))"

definition syncRoutesForNode :: "remote \<Rightarrow> range_orders \<Rightarrow> Mesh \<Rightarrow> Entry list \<Rightarrow> ssh_cmd list \<times> bool" where
  "syncRoutesForNode r ord m desired =
     (let iface = me_InterfaceName m; show = Run (''ip route show dev '' @ iface) in
      case ssh_GetCurrentRoutes (r show) of
        None \<Rightarrow> (show # map (\<lambda>e. RunQuiet (ssh_add_cmd iface e)) desired, True)
      | Some current \<Rightarrow>
          (let (toAdd, toRemove) = CalculateDiff (ord 8 (fmdom (route_map desired))) (ord 9 (fmdom (route_map current))) current desired;
               (ran, ok) = ssh_ApplyRouteDiff (\<lambda>c. cmd_fails r (RunQuiet c)) iface toAdd toRemove
           in (show # map RunQuiet ran, ok)))"

text \<open>The body of the loop over the nodes, while the goroutine holds the lock for writing.\<close>

definition deploy_node :: "mu_held \<Rightarrow> (string \<Rightarrow> int \<Rightarrow> remote option) \<Rightarrow> range_orders \<Rightarrow> Mesh \<Rightarrow> string \<Rightarrow> Node \<Rightarrow>
    deploy_error option locked" where
  "deploy_node mu hosts ord m hostname node =
     (case hosts (nd_SSHHost node) (nd_SSHPort node) of
        None \<Rightarrow> Inr (Some (ConnectFailed hostname))
      | Some r \<Rightarrow>
          if \<not> snd (EnsureWireGuardInstalled r) then Inr (Some (InstallFailed hostname))
          else
            and_then (generateConfigForNode mu ord m node) (\<lambda>config.
            and_then (collectAllRoutesForNode mu ord m node) (\<lambda>desiredRoutes.
              let iface = me_InterfaceName m in
              case GetCurrentConfig (r (Run (''wg show '' @ iface @ '' dump 2>/dev/null || true''))) of
                None \<Rightarrow>
                  if snd (ApplyPersistentConfig (cmd_fails r) iface config desiredRoutes) then Inr None
                  else Inr (Some (ApplyFailed hostname))
              | Some cur \<Rightarrow>
                  (let diff = wg_CalculateDiff (ord 10 (fmdom (wc_Peers cur))) cur (FullConfigToConfig config) in
                   if HasChanges diff \<and> \<not> snd (UpdatePersistentConfig (cmd_fails r)
                        (ord 11 (fmdom (cd_AddedPeers diff))) (ord 12 (fmdom (cd_ModifiedPeers diff))) iface config desiredRoutes diff)
                   then Inr (Some (UpdateFailed hostname))
                   else if \<not> snd (syncRoutesForNode r ord m desiredRoutes) then Inr (Some (RouteSyncFailed hostname))
                   else Inr None))))"

fun deploy_loop :: "mu_held \<Rightarrow> (string \<Rightarrow> int \<Rightarrow> remote option) \<Rightarrow> range_orders \<Rightarrow> Mesh \<Rightarrow> string list \<Rightarrow> deploy_error option locked" where
  "deploy_loop mu hosts ord m [] = Inr None"
| "deploy_loop mu hosts ord m (k # ks) =
     (case fmlookup (me_Nodes m) k of
        None \<Rightarrow> deploy_loop mu hosts ord m ks
      | Some node \<Rightarrow> and_then (deploy_node mu hosts ord m k node) (\<lambda>e.
          case e of Some err \<Rightarrow> Inr (Some err) | None \<Rightarrow> deploy_loop mu hosts ord m ks))"

definition validate_access :: "range_orders \<Rightarrow> Mesh \<Rightarrow> deploy_error option locked" where
  "validate_access ord m =
     and_then (IsAccessControlEnabled Unheld m) (\<lambda>en.
       if \<not> en then Inr None
       else and_then (ValidateGroups Unheld (ord 13 (fmdom (me_Groups m))) m) (\<lambda>ge.
         case ge of
           Some e \<Rightarrow> Inr (Some (GroupsInvalid e))
         | None \<Rightarrow> and_then (ValidatePolicies Unheld m) (\<lambda>pe. Inr (map_option PoliciesInvalid pe))))"

definition Deploy :: "string option \<Rightarrow> (string \<Rightarrow> int \<Rightarrow> remote option) \<Rightarrow> range_orders \<Rightarrow> Mesh \<Rightarrow>
    (deploy_error option \<times> Mesh) locked" where
  "Deploy os hosts ord m =
     and_then (validate_access ord m) (\<lambda>ve.
       case ve of
         Some e \<Rightarrow> Inr (Some e, m)
       | None \<Rightarrow> and_then (detectEndpoints Unheld os hosts ord m) (\<lambda>(de, m').
           case de of
             Some e \<Rightarrow> Inr (Some e, m')
           | None \<Rightarrow> with_lock Unheld (\<lambda>mu.
               and_then (deploy_loop mu hosts ord m' (ord 14 (fmdom (me_Nodes m')))) (\<lambda>e. Inr (e, m')))))"

section \<open>Lemmas\<close>

definition same_address :: "(string, Node) gomap \<Rightarrow> (string, Node) gomap \<Rightarrow> bool" where
  "same_address ns ns' \<longleftrightarrow> (\<forall>k. map_option (\<lambda>n. (nd_SSHHost n, nd_SSHPort n)) (fmlookup ns k)
     = map_option (\<lambda>n. (nd_SSHHost n, nd_SSHPort n)) (fmlookup ns' k))"

lemma detect_node_address [simp]:
  "nd_SSHHost (detect_node r n) = nd_SSHHost n" "nd_SSHPort (detect_node r n) = nd_SSHPort n"
  by (simp_all add: detect_node_def Let_def split: option.splits)

lemma same_address_upd:
  assumes "fmlookup ns k = Some n" "nd_SSHHost n' = nd_SSHHost n" "nd_SSHPort n' = nd_SSHPort n"
    and "same_address (fmupd k n' ns) ns'"
  shows "same_address ns ns'"
  unfolding same_address_def
proof
  fix j
  show "map_option (\<lambda>n. (nd_SSHHost n, nd_SSHPort n)) (fmlookup ns j)
     = map_option (\<lambda>n. (nd_SSHHost n, nd_SSHPort n)) (fmlookup ns' j)"
    using assms(4) [unfolded same_address_def, rule_format, of j] assms(1-3) by (cases "j = k") auto
qed

lemma detect_loop_address:
  "detect_loop_nodes os hosts ns ks = (e, ns') \<Longrightarrow> same_address ns ns'"
proof (induction os hosts ns ks rule: detect_loop_nodes.induct)
  case (1 os hosts ns)
  then show ?case by (simp add: same_address_def)
next
  case (2 os hosts ns k ks)
  show ?case
  proof (cases "fmlookup ns k")
    case None
    with 2 show ?thesis by simp
  next
    case (Some n)
    show ?thesis
    proof (cases "nd_IsLocal n")
      case True
      let ?ns = "case (nd_ActualHostname n, os) of ([], Some h) \<Rightarrow> fmupd k (n\<lparr>nd_ActualHostname := h\<rparr>) ns | _ \<Rightarrow> ns"
      have "same_address ?ns ns'" using "2.IH"(2) [OF Some True] "2.prems" Some True by simp
      then show ?thesis
        using same_address_upd [OF Some, of "n\<lparr>nd_ActualHostname := the os\<rparr>" ns']
        by (auto split: list.splits option.splits)
    next
      case False
      show ?thesis
      proof (cases "hosts (nd_SSHHost n) (nd_SSHPort n)")
        case None
        with "2.prems" Some False show ?thesis by (simp add: same_address_def)
      next
        case (Some r)
        then have "same_address (fmupd k (detect_node r n) ns) ns'"
          using "2.IH"(3) [OF \<open>fmlookup ns k = Some n\<close> False Some] "2.prems" \<open>fmlookup ns k = Some n\<close> False by simp
        then show ?thesis by (rule same_address_upd [OF \<open>fmlookup ns k = Some n\<close>, rotated 2]) simp_all
      qed
    qed
  qed
qed

definition all_reachable :: "(string \<Rightarrow> int \<Rightarrow> remote option) \<Rightarrow> (string, Node) gomap \<Rightarrow> bool" where
  "all_reachable hosts ns \<longleftrightarrow> fmpred (\<lambda>k n. case hosts (nd_SSHHost n) (nd_SSHPort n) of
     None \<Rightarrow> False | Some r \<Rightarrow> snd (EnsureWireGuardInstalled r)) ns"

lemma same_address_reachable:
  assumes "same_address ns ns'" "all_reachable hosts ns" "fmlookup ns' k = Some n"
  shows "\<exists>r. hosts (nd_SSHHost n) (nd_SSHPort n) = Some r \<and> snd (EnsureWireGuardInstalled r)"
proof -
  obtain n0 where "fmlookup ns k = Some n0" "nd_SSHHost n0 = nd_SSHHost n" "nd_SSHPort n0 = nd_SSHPort n"
    using assms(1,3) unfolding same_address_def by (metis (mono_tags, lifting) Pair_inject map_option_eq_Some)
  with fmpredD [OF assms(2) [unfolded all_reachable_def]] show ?thesis
    by (fastforce split: option.splits)
qed

lemma detect_loop_reachable:
  "all_reachable hosts ns \<Longrightarrow> fst (detect_loop_nodes os hosts ns ks) = None"
proof (induction os hosts ns ks rule: detect_loop_nodes.induct)
  case (2 os hosts ns k ks)
  have keep: "all_reachable hosts (fmupd k n' ns)"
    if "fmlookup ns k = Some n" "nd_SSHHost n' = nd_SSHHost n" "nd_SSHPort n' = nd_SSHPort n" for n n'
    using that "2.prems" unfolding all_reachable_def by (auto intro!: fmpredI split: if_splits)
  show ?case
  proof (cases "fmlookup ns k")
    case (Some n)
    then obtain r where r: "hosts (nd_SSHHost n) (nd_SSHPort n) = Some r"
      using fmpredD [OF "2.prems" [unfolded all_reachable_def] Some] by (auto split: option.splits)
    show ?thesis
    proof (cases "nd_IsLocal n")
      case True
      have "all_reachable hosts (case (nd_ActualHostname n, os) of
          ([], Some h) \<Rightarrow> fmupd k (n\<lparr>nd_ActualHostname := h\<rparr>) ns | _ \<Rightarrow> ns)"
        using keep [OF Some] "2.prems" by (auto split: list.splits option.splits)
      with "2.IH"(2) [OF Some True] Some True show ?thesis by simp
    next
      case False
      with "2.IH"(3) [OF Some False r] keep [OF Some] Some r show ?thesis by simp
    qed
  qed (use 2 in simp)
qed simp

lemma deploy_node_writing:
  "deploy_node Writing hosts ord m k n \<noteq> Inr None"
  by (simp add: deploy_node_def generateConfigForNode_def split: option.splits)

lemma deploy_loop_writing:
  assumes "k \<in> set ks" "fmlookup (me_Nodes m) k \<noteq> None"
  shows "deploy_loop Writing hosts ord m ks \<noteq> Inr None"
  using assms
proof (induction ks)
  case (Cons j ks)
  show ?case
  proof (cases "fmlookup (me_Nodes m) j")
    case None
    with Cons show ?thesis by auto
  next
    case (Some n)
    with deploy_node_writing [of hosts ord m j n] show ?thesis
      by (cases "deploy_node Writing hosts ord m j n") (auto split: option.splits)
  qed
qed simp

lemma for_peers_Inr:
  assumes "fmpred (\<lambda>k a. fmlookup nodes k \<noteq> None) allowed"
  shows "\<exists>xs. for_peers nodes allowed f ks = Inr xs \<and>
     set xs = (\<Union>k \<in> set ks. case (fmlookup allowed k, fmlookup nodes k) of (Some a, Some n) \<Rightarrow> set (f n a) | _ \<Rightarrow> {})"
proof (induction ks)
  case (Cons k ks)
  then obtain xs where "for_peers nodes allowed f ks = Inr xs" by blast
  with Cons show ?case using fmpredD [OF assms, of k]
    by (cases "fmlookup allowed k"; cases "fmlookup nodes k") auto
qed simp

lemma reading_nested:
  "GetAllowedPeers Reading gks m h = GetAllowedPeers Unheld gks m h"
  "IsAccessControlEnabled Reading m = IsAccessControlEnabled Unheld m"
  by (simp_all add: GetAllowedPeers_def IsAccessControlEnabled_def HasGroups_def HasPolicies_def)

section \<open>Properties\<close>


lemma sample_mesh_enabled: "IsAccessControlEnabled Unheld sample_mesh = Inr True"
  by (simp add: IsAccessControlEnabled_def HasGroups_def HasPolicies_def sample_mesh_def)


text \<open>
  C8. Deployment never completes: it takes the lock of the mesh for writing and then generates
  the configuration of the first node, which takes the same lock for reading. For a mesh with at
  least one node it never returns successfully, and when the policies are valid and every node is
  reachable with WireGuard installed, it blocks for ever.
\<close>

theorem deploy_blocks:
  assumes "valid_orders ord" "fmlookup (me_Nodes m) k \<noteq> None"
  shows "(\<forall>m'. Deploy os hosts ord m \<noteq> Inr (None, m'))
    \<and> (validate_access ord m = Inr None \<and> all_reachable hosts (me_Nodes m) \<longrightarrow> Deploy os hosts ord m = Inl Deadlock)"
proof (cases "detect_loop_nodes os hosts (me_Nodes m) (ord 7 (fmdom (me_Nodes m)))")
  case (Pair e ns)
  let ?m = "m\<lparr>me_Nodes := ns\<rparr>"
  have same: "same_address (me_Nodes m) ns" by (rule detect_loop_address [OF Pair])
  then have ns_k: "fmlookup ns k \<noteq> None"
    using assms(2) unfolding same_address_def by (cases "fmlookup ns k") (auto dest!: spec [of _ k])
  then have in_order: "k \<in> set (ord 14 (fmdom ns))"
    using range_order_member [OF valid_orders_range [OF assms(1), of ns 14], of k] by simp
  have detect: "detectEndpoints Unheld os hosts ord m = Inr (e, ?m)"
    by (simp add: detectEndpoints_def Pair)
  have "deploy_loop Writing hosts ord ?m (ord 14 (fmdom ns)) \<noteq> Inr None"
    using deploy_loop_writing [OF in_order, of ?m] ns_k by simp
  then have never: "\<forall>m'. Deploy os hosts ord m \<noteq> Inr (None, m')"
    by (auto simp: Deploy_def detect and_then_Inr split: option.splits)
  have "Deploy os hosts ord m = Inl Deadlock" if "validate_access ord m = Inr None" "all_reachable hosts (me_Nodes m)"
  proof -
    have "e = None" using detect_loop_reachable [OF that(2), of os "ord 7 (fmdom (me_Nodes m))"] Pair by simp
    moreover obtain j js where js: "ord 14 (fmdom ns) = j # js" using in_order by (cases "ord 14 (fmdom ns)") auto
    moreover obtain n where "fmlookup ns j = Some n"
      using range_order_member [OF valid_orders_range [OF assms(1), of ns 14], of j] js by auto
    moreover from same_address_reachable [OF same that(2) this]
    have "deploy_node Writing hosts ord ?m j n = Inl Deadlock"
      by (auto simp: deploy_node_def generateConfigForNode_def)
    ultimately show ?thesis by (simp add: Deploy_def that(1) detect)
  qed
  with never show ?thesis by blast
qed

lemma sample_check_groups: "check_groups (me_Groups sample_mesh) ks = None"
  by (induction ks) (auto simp: sample_mesh_def)

theorem deploy_blocks_witness:
  "Deploy None (\<lambda>_ _. Some (\<lambda>_. Some ''/usr/bin/wg'')) lex_orders sample_mesh = Inl Deadlock"
proof -
  have "validate_access lex_orders sample_mesh = Inr None"
    by (simp add: validate_access_def sample_mesh_enabled ValidateGroups_def sample_check_groups sample_mesh_valid)
  moreover have "all_reachable (\<lambda>_ _. Some (\<lambda>_. Some ''/usr/bin/wg'')) (me_Nodes sample_mesh)"
    by (simp add: all_reachable_def EnsureWireGuardInstalled_def fmpred_iff)
  moreover have "fmlookup (me_Nodes sample_mesh) ''a'' \<noteq> None" by (simp add: sample_mesh_def)
  ultimately show ?thesis
    using deploy_blocks [OF lex_orders_valid, of sample_mesh "''a''" None "\<lambda>_ _. Some (\<lambda>_. Some ''/usr/bin/wg'')"] by simp
qed

end
