(* ===== verification/AesGcm.thy ===== *)
theory AesGcm
  imports Sha256
begin

text \<open>
  AES with a 256-bit key and the Galois counter mode, as the Go packages crypto/aes and
  crypto/cipher compute them: a 96-bit nonce, no additional data, a tag of 16 bytes at the end of
  the ciphertext. The S-box is computed from the inverse in the field of 256 elements.
\<close>

section \<open>The block cipher\<close>

definition xtime :: "byte \<Rightarrow> byte" where
  "xtime b = push_bit 1 b XOR (if bit b 7 then 0x1b else 0)"

definition gf_mul :: "byte \<Rightarrow> byte \<Rightarrow> byte" where
  "gf_mul a b = foldl (\<lambda>z i. xtime z XOR (if bit b i then a else 0)) 0 (rev [0..<8])"

definition gf_inv :: "byte \<Rightarrow> byte" where
  "gf_inv b = (let b2 = gf_mul b b; b4 = gf_mul b2 b2; b8 = gf_mul b4 b4; b16 = gf_mul b8 b8;
     b32 = gf_mul b16 b16; b64 = gf_mul b32 b32; b128 = gf_mul b64 b64
   in gf_mul b2 (gf_mul b4 (gf_mul b8 (gf_mul b16 (gf_mul b32 (gf_mul b64 b128))))))"

definition rotl8 :: "nat \<Rightarrow> byte \<Rightarrow> byte" where
  "rotl8 n b = push_bit n b OR drop_bit (8 - n) b"

definition sbox :: "byte \<Rightarrow> byte" where
  "sbox b = (let i = gf_inv b in i XOR rotl8 1 i XOR rotl8 2 i XOR rotl8 3 i XOR rotl8 4 i XOR 0x63)"

definition xor_bytes :: "byte list \<Rightarrow> byte list \<Rightarrow> byte list" where
  "xor_bytes xs ys = map (\<lambda>(x, y). x XOR y) (zip xs ys)"

definition shift_rows :: "byte list \<Rightarrow> byte list" where
  "shift_rows s = map (\<lambda>k. s ! (k mod 4 + 4 * ((k div 4 + k mod 4) mod 4))) [0..<16]"

definition mix_column :: "byte list \<Rightarrow> byte list" where
  "mix_column c = map (\<lambda>i. xtime (c ! i) XOR (xtime (c ! ((i + 1) mod 4)) XOR c ! ((i + 1) mod 4))
      XOR c ! ((i + 2) mod 4) XOR c ! ((i + 3) mod 4)) [0..<4]"

definition mix_columns :: "byte list \<Rightarrow> byte list" where
  "mix_columns s = concat (map (\<lambda>j. mix_column (take 4 (drop (4 * j) s))) [0..<4])"

text \<open>The next word of the key schedule, from the words so far.\<close>

definition next_key_word :: "byte list list \<Rightarrow> byte list list" where
  "next_key_word ws =
     (let i = length ws; t = ws ! (i - 1);
          u = (if i mod 8 = 0 then xor_bytes (map sbox (tl t @ [hd t])) [(xtime ^^ (i div 8 - 1)) 1, 0, 0, 0]
               else if i mod 8 = 4 then map sbox t else t)
      in ws @ [xor_bytes (ws ! (i - 8)) u])"

definition round_keys :: "byte list \<Rightarrow> byte list list" where
  "round_keys key =
     (let ws = (next_key_word ^^ 52) (map (\<lambda>i. take 4 (drop (4 * i) key)) [0..<8])
      in map (\<lambda>r. concat (take 4 (drop (4 * r) ws))) [0..<15])"

definition aes_block :: "byte list \<Rightarrow> byte list \<Rightarrow> byte list" where
  "aes_block key blk =
     (let ks = round_keys key;
          s = foldl (\<lambda>s k. xor_bytes (mix_columns (shift_rows (map sbox s))) k) (xor_bytes blk (ks ! 0)) (take 13 (drop 1 ks))
      in xor_bytes (shift_rows (map sbox s)) (ks ! 14))"

section \<open>Galois counter mode\<close>

definition be_bytes128 :: "128 word \<Rightarrow> byte list" where
  "be_bytes128 w = map (\<lambda>i. ucast (drop_bit (8 * i) w)) (rev [0..<16])"

definition be_word128 :: "byte list \<Rightarrow> 128 word" where
  "be_word128 bs = foldl (\<lambda>w b. push_bit 8 w OR ucast b) 0 bs"

definition ghash_mul :: "128 word \<Rightarrow> 128 word \<Rightarrow> 128 word" where
  "ghash_mul x y = fst (foldl
     (\<lambda>(z, v) i. (if bit x (127 - i) then z XOR v else z,
                  drop_bit 1 v XOR (if bit v 0 then push_bit 120 0xe1 else 0)))
     (0, y) [0..<128])"

definition pad16 :: "byte list \<Rightarrow> byte list" where
  "pad16 bs = bs @ replicate ((16 - length bs mod 16) mod 16) 0"

definition blocks16 :: "byte list \<Rightarrow> byte list list" where
  "blocks16 bs = map (\<lambda>i. take 16 (drop (16 * i) bs)) [0..<length bs div 16]"

definition ghash :: "byte list \<Rightarrow> byte list \<Rightarrow> byte list" where
  "ghash h ct =
     be_bytes128 (foldl (\<lambda>y blk. ghash_mul (y XOR be_word128 blk) (be_word128 h)) 0
       (blocks16 (pad16 ct @ be_bytes64 0 @ be_bytes64 (word_of_nat (8 * length ct)))))"

definition keystream :: "byte list \<Rightarrow> byte list \<Rightarrow> nat \<Rightarrow> byte list" where
  "keystream key nonce n =
     take n (concat (map (\<lambda>i. aes_block key (nonce @ be_bytes32 (word_of_nat (i + 2)))) [0..<(n + 15) div 16]))"

definition ctr_xor :: "byte list \<Rightarrow> byte list \<Rightarrow> byte list \<Rightarrow> byte list" where
  "ctr_xor key nonce bs = xor_bytes bs (keystream key nonce (length bs))"

definition gcm_tag :: "byte list \<Rightarrow> byte list \<Rightarrow> byte list \<Rightarrow> byte list" where
  "gcm_tag key nonce ct =
     xor_bytes (ghash (aes_block key (replicate 16 0)) ct) (aes_block key (nonce @ be_bytes32 1))"

definition gcm_seal :: "byte list \<Rightarrow> byte list \<Rightarrow> byte list \<Rightarrow> byte list" where
  "gcm_seal key nonce pt = (let ct = ctr_xor key nonce pt in ct @ gcm_tag key nonce ct)"

definition gcm_open :: "byte list \<Rightarrow> byte list \<Rightarrow> byte list \<Rightarrow> byte list option" where
  "gcm_open key nonce sealed =
     (if length sealed < 16 then None
      else let ct = take (length sealed - 16) sealed; tag = drop (length sealed - 16) sealed in
           if tag = gcm_tag key nonce ct then Some (ctr_xor key nonce ct) else None)"

section \<open>Lemmas\<close>

lemma xor_bytes_length [simp]: "length (xor_bytes xs ys) = min (length xs) (length ys)"
  by (simp add: xor_bytes_def)

lemma xor_bytes_twice: "length xs \<le> length ys \<Longrightarrow> xor_bytes (xor_bytes xs ys) ys = xs"
proof (induction xs arbitrary: ys)
  case (Cons x xs)
  then obtain y zs where "ys = y # zs" by (cases ys) auto
  with Cons show ?case by (simp add: xor_bytes_def xor.assoc)
qed (simp add: xor_bytes_def)

lemma shift_rows_length [simp]: "length (shift_rows s) = 16"
  by (simp add: shift_rows_def)

definition key_words :: "nat \<Rightarrow> byte list list \<Rightarrow> bool" where
  "key_words n ws \<longleftrightarrow> length ws = n \<and> list_all (\<lambda>w. length w = 4) ws"

lemma next_key_word_inv:
  assumes "key_words n ws" "8 \<le> n"
  shows "key_words (Suc n) (next_key_word ws)"
proof -
  let ?t = "ws ! (n - 1)"
  have four: "length (ws ! i) = 4" if "i < n" for i
    using assms(1) that by (auto simp: key_words_def list_all_length)
  define u where "u = (if n mod 8 = 0 then xor_bytes (map sbox (tl ?t @ [hd ?t])) [(xtime ^^ (n div 8 - 1)) 1, 0, 0, 0]
     else if n mod 8 = 4 then map sbox ?t else ?t)"
  have "length u = 4" using four [of "n - 1"] assms(2) by (simp add: u_def)
  moreover have "next_key_word ws = ws @ [xor_bytes (ws ! (n - 8)) u]"
    using assms(1) by (simp add: next_key_word_def key_words_def u_def Let_def)
  ultimately show ?thesis using assms four [of "n - 8"] by (simp add: key_words_def)
qed

lemma key_schedule_inv: "key_words 8 ws \<Longrightarrow> key_words (8 + n) ((next_key_word ^^ n) ws)"
proof (induction n)
  case (Suc n)
  then show ?case using next_key_word_inv [of "8 + n" "(next_key_word ^^ n) ws"] by simp
qed simp

lemma concat_length_const: "list_all (\<lambda>w. length w = k) ws \<Longrightarrow> length (concat ws) = k * length ws"
  by (induction ws) auto

lemma round_keys_length:
  assumes "length key = 32" "r < 15"
  shows "length (round_keys key ! r) = 16"
proof -
  have "key_words 8 (map (\<lambda>i. take 4 (drop (4 * i) key)) [0..<8])"
    using assms(1) by (auto simp: key_words_def list_all_iff)
  from key_schedule_inv [OF this, of 52] obtain ws where
    ws: "ws = (next_key_word ^^ 52) (map (\<lambda>i. take 4 (drop (4 * i) key)) [0..<8])" "key_words 60 ws" by simp
  have "list_all (\<lambda>w. length w = 4) (take 4 (drop (4 * r) ws))"
    using ws(2) by (auto simp: key_words_def list_all_iff dest!: in_set_takeD in_set_dropD)
  moreover have "length (take 4 (drop (4 * r) ws)) = 4" using ws(2) assms(2) by (simp add: key_words_def)
  ultimately have "length (concat (take 4 (drop (4 * r) ws))) = 16"
    using concat_length_const [of 4 "take 4 (drop (4 * r) ws)"] by linarith
  then show ?thesis using assms(2) by (simp add: round_keys_def Let_def flip: ws(1))
qed

lemma aes_block_length: "length key = 32 \<Longrightarrow> length (aes_block key blk) = 16"
  by (simp add: aes_block_def Let_def round_keys_length)

lemma keystream_length: "length key = 32 \<Longrightarrow> length (keystream key nonce n) = n"
  by (simp add: keystream_def length_concat comp_def aes_block_length sum_list_triv)

lemma ghash_length [simp]: "length (ghash h ct) = 16"
  by (simp add: ghash_def be_bytes128_def)

lemma gcm_roundtrip:
  assumes "length key = 32"
  shows "gcm_open key nonce (gcm_seal key nonce pt) = Some pt"
proof -
  have "length (gcm_tag key nonce ct) = 16" for ct
    by (simp add: gcm_tag_def aes_block_length [OF assms])
  then show ?thesis
    by (simp add: gcm_open_def gcm_seal_def Let_def ctr_xor_def keystream_length [OF assms] xor_bytes_twice)
qed

lemma gcm_seal_length: "length key = 32 \<Longrightarrow> length (gcm_seal key nonce pt) = length pt + 16"
  by (simp add: gcm_seal_def Let_def gcm_tag_def ctr_xor_def aes_block_length keystream_length)

end
