(* ===== verification/Json.thy ===== *)
theory Json
  imports GoNet
begin

text \<open>
  The part of the Go package encoding/json that wgmesh uses: the text of a value as Marshal
  writes it, the values Unmarshal reads, and the assignment of a value to a variable of a basic
  type. Numbers keep their literal. Keys are compared without regard to ASCII case, as the
  package does; the two non-ASCII letters it also folds to ASCII ones are not considered, nor is
  its limit on the depth of nesting.
\<close>

section \<open>UTF-8\<close>

abbreviation ord_c :: "char \<Rightarrow> nat" where "ord_c \<equiv> of_char"

definition cont :: "nat \<Rightarrow> nat \<Rightarrow> char \<Rightarrow> bool" where
  "cont lo hi c \<longleftrightarrow> lo \<le> ord_c c \<and> ord_c c \<le> hi"

text \<open>The length of the valid encoding at the head of a string, 0 when there is none.\<close>

definition rune_len :: "string \<Rightarrow> nat" where
  "rune_len s = (case s of [] \<Rightarrow> 0 | c # r \<Rightarrow>
     let b = ord_c c in
     if b < 128 then 1
     else if b < 194 then 0
     else if b < 224 then (case r of d # _ \<Rightarrow> if cont 128 191 d then 2 else 0 | _ \<Rightarrow> 0)
     else if b < 240 then
       (case r of d # e # _ \<Rightarrow>
          if cont (if b = 224 then 160 else 128) (if b = 237 then 159 else 191) d \<and> cont 128 191 e then 3 else 0
        | _ \<Rightarrow> 0)
     else if b < 245 then
       (case r of d # e # f # _ \<Rightarrow>
          if cont (if b = 240 then 144 else 128) (if b = 244 then 143 else 191) d \<and> cont 128 191 e \<and> cont 128 191 f
          then 4 else 0
        | _ \<Rightarrow> 0)
     else 0)"

function utf8_valid :: "string \<Rightarrow> bool" where
  "utf8_valid [] = True"
| "utf8_valid (c # s) = (rune_len (c # s) \<noteq> 0 \<and> utf8_valid (drop (rune_len (c # s) - 1) s))"
  by pat_completeness auto
termination by (relation "measure length") auto

definition utf8_enc :: "nat \<Rightarrow> string" where
  "utf8_enc n =
     (if n < 128 then [char_of n]
      else if n < 2048 then [char_of (192 + n div 64), char_of (128 + n mod 64)]
      else if n < 65536 then [char_of (224 + n div 4096), char_of (128 + n div 64 mod 64), char_of (128 + n mod 64)]
      else [char_of (240 + n div 262144), char_of (128 + n div 4096 mod 64),
            char_of (128 + n div 64 mod 64), char_of (128 + n mod 64)])"

definition replacement :: string where
  "replacement = utf8_enc 65533"

section \<open>Values\<close>

datatype json = JNull | JBool bool | JNum string | JStr string | JArr "json list" | JObj "(string \<times> json) list"

definition hex4 :: "nat \<Rightarrow> string" where
  "hex4 n = map hex_digit [n div 4096 mod 16, n div 256 mod 16, n div 16 mod 16, n mod 16]"

definition esc_ascii :: "char \<Rightarrow> string" where
  "esc_ascii c =
     (if c = CHR 0x22 \<or> c = CHR 0x5C then [CHR 0x5C, c]
      else if c = CHR 0x08 then [CHR 0x5C, CHR ''b'']
      else if c = CHR 0x0C then [CHR 0x5C, CHR ''f'']
      else if c = CHR 0x0A then [CHR 0x5C, CHR ''n'']
      else if c = CHR 0x0D then [CHR 0x5C, CHR ''r'']
      else if c = CHR 0x09 then [CHR 0x5C, CHR ''t'']
      else if ord_c c < 32 \<or> c \<in> {CHR ''<'', CHR ''>'', CHR ''&''} then [CHR 0x5C, CHR ''u''] @ hex4 (ord_c c)
      else [c])"

text \<open>The body of a quoted string; bytes that are not UTF-8 become the replacement character.\<close>

function json_esc :: "string \<Rightarrow> string" where
  "json_esc [] = []"
| "json_esc (c # s) =
     (if ord_c c < 128 then esc_ascii c @ json_esc s
      else let n = rune_len (c # s); r = take n (c # s) in
        if n = 0 then [CHR 0x5C] @ ''ufffd'' @ json_esc s
        else (if r = utf8_enc 8232 then [CHR 0x5C] @ ''u2028'' else if r = utf8_enc 8233 then [CHR 0x5C] @ ''u2029'' else r)
             @ json_esc (drop (n - 1) s))"
  by pat_completeness auto
termination by (relation "measure length") auto

definition json_quote :: "string \<Rightarrow> string" where
  "json_quote s = [CHR 0x22] @ json_esc s @ [CHR 0x22]"

fun json_text :: "json \<Rightarrow> string" where
  "json_text JNull = ''null''"
| "json_text (JBool b) = (if b then ''true'' else ''false'')"
| "json_text (JNum l) = l"
| "json_text (JStr s) = json_quote s"
| "json_text (JArr vs) = ''['' @ join_with '','' (map json_text vs) @ '']''"
| "json_text (JObj kvs) = ''{'' @ join_with '','' (map (\<lambda>(k, v). json_quote k @ '':'' @ json_text v) kvs) @ ''}''"

section \<open>Reading\<close>

definition skip_ws :: "string \<Rightarrow> string" where
  "skip_ws s = dropWhile (\<lambda>c. c \<in> {CHR '' '', CHR 0x09, CHR 0x0A, CHR 0x0D}) s"

definition unhex4 :: "string \<Rightarrow> nat option" where
  "unhex4 s = (if length s < 4 \<or> \<not> list_all is_hex (take 4 s) then None else Some (hex_value (take 4 s)))"

definition unescape :: "char \<Rightarrow> char option" where
  "unescape e =
     (if e = CHR 0x22 \<or> e = CHR 0x5C \<or> e = CHR ''/'' then Some e
      else if e = CHR ''b'' then Some (CHR 0x08) else if e = CHR ''f'' then Some (CHR 0x0C)
      else if e = CHR ''n'' then Some (CHR 0x0A) else if e = CHR ''r'' then Some (CHR 0x0D)
      else if e = CHR ''t'' then Some (CHR 0x09) else None)"

definition prepend :: "string \<Rightarrow> (string \<times> string) option \<Rightarrow> (string \<times> string) option" where
  "prepend p r = map_option (\<lambda>(a, b). (p @ a, b)) r"

text \<open>The escape of a code unit, with the rest of the input; surrogates come in pairs.\<close>

definition unicode_escape :: "string \<Rightarrow> (string \<times> string) option" where
  "unicode_escape r =
     (case unhex4 r of
        None \<Rightarrow> None
      | Some n \<Rightarrow>
          if 55296 \<le> n \<and> n < 56320 then
            (case drop 4 r of
               a # b # q \<Rightarrow>
                 (case unhex4 q of
                    Some m \<Rightarrow>
                      if a = CHR 0x5C \<and> b = CHR ''u'' \<and> 56320 \<le> m \<and> m < 57344
                      then Some (utf8_enc (65536 + (n - 55296) * 1024 + (m - 56320)), drop 4 q)
                      else Some (replacement, drop 4 r)
                  | None \<Rightarrow> Some (replacement, drop 4 r))
             | _ \<Rightarrow> Some (replacement, drop 4 r))
          else if 56320 \<le> n \<and> n < 57344 then Some (replacement, drop 4 r)
          else Some (utf8_enc n, drop 4 r))"

lemma unicode_escape_length: "unicode_escape r = Some (p, q) \<Longrightarrow> length q < length r"
  by (auto simp: unicode_escape_def unhex4_def dest!: arg_cong [of "drop 4 r" _ length]
      split: option.splits if_splits list.splits)

function json_str :: "string \<Rightarrow> (string \<times> string) option" where
  "json_str [] = None"
| "json_str (c # s) =
     (if c = CHR 0x22 then Some ([], s)
      else if c = CHR 0x5C then
        (case s of
           [] \<Rightarrow> None
         | e # r \<Rightarrow>
             if e = CHR ''u'' then
               (case unicode_escape r of None \<Rightarrow> None | Some (p, q) \<Rightarrow> prepend p (json_str q))
             else (case unescape e of None \<Rightarrow> None | Some d \<Rightarrow> prepend [d] (json_str r)))
      else if ord_c c < 32 then None
      else if ord_c c < 128 then prepend [c] (json_str s)
      else let n = rune_len (c # s) in
        if n = 0 then prepend replacement (json_str s)
        else prepend (take n (c # s)) (json_str (drop (n - 1) s)))"
  by pat_completeness auto
termination
  by (relation "measure length") (auto dest!: unicode_escape_length)

definition digits1 :: "string \<Rightarrow> (string \<times> string) option" where
  "digits1 s = (case takeWhile is_digit s of [] \<Rightarrow> None | d # ds \<Rightarrow> Some (d # ds, dropWhile is_digit s))"

definition json_frac :: "string \<Rightarrow> (string \<times> string) option" where
  "json_frac s = (case s of c # r \<Rightarrow> if c = CHR ''.'' then prepend [c] (digits1 r) else Some ([], s) | [] \<Rightarrow> Some ([], []))"

definition json_exp :: "string \<Rightarrow> (string \<times> string) option" where
  "json_exp s = (case s of
       c # r \<Rightarrow>
         if c = CHR ''e'' \<or> c = CHR ''E'' then
           (case r of
              g # q \<Rightarrow> if g = CHR ''+'' \<or> g = CHR ''-'' then prepend [c, g] (digits1 q) else prepend [c] (digits1 r)
            | [] \<Rightarrow> None)
         else Some ([], s)
     | [] \<Rightarrow> Some ([], []))"

definition json_int :: "string \<Rightarrow> (string \<times> string) option" where
  "json_int s = (case s of
       [] \<Rightarrow> None
     | c # r \<Rightarrow> if c = CHR ''0'' then Some ([c], r) else digits1 s)"

definition json_num :: "string \<Rightarrow> (string \<times> string) option" where
  "json_num s =
     (let (sign, t) = (case s of c # r \<Rightarrow> if c = CHR ''-'' then ([c], r) else ([], s) | [] \<Rightarrow> ([], [])) in
      case json_int t of None \<Rightarrow> None
      | Some (i, t1) \<Rightarrow> (case json_frac t1 of None \<Rightarrow> None
        | Some (f, t2) \<Rightarrow> prepend (sign @ i @ f) (json_exp t2)))"

text \<open>
  Values, the elements of an array after its bracket, and the members of an object after its
  brace. The first argument is fuel; twice the length of the input and one is enough, as every
  second call consumes a character.
\<close>

fun jval :: "nat \<Rightarrow> string \<Rightarrow> (json \<times> string) option"
and jarr :: "nat \<Rightarrow> string \<Rightarrow> (json list \<times> string) option"
and jobj :: "nat \<Rightarrow> string \<Rightarrow> ((string \<times> json) list \<times> string) option" where
  "jval 0 s = None"
| "jval (Suc n) s =
     (case s of
        [] \<Rightarrow> None
      | c # r \<Rightarrow>
          if c = CHR 0x22 then map_option (\<lambda>(a, q). (JStr a, q)) (json_str r)
          else if c = CHR ''['' then
            (case skip_ws r of
               [] \<Rightarrow> None
             | d # q \<Rightarrow> if d = CHR '']'' then Some (JArr [], q)
                         else map_option (\<lambda>(vs, q). (JArr vs, q)) (jarr n (d # q)))
          else if c = CHR ''{'' then
            (case skip_ws r of
               [] \<Rightarrow> None
             | d # q \<Rightarrow> if d = CHR ''}'' then Some (JObj [], q)
                         else map_option (\<lambda>(kvs, q). (JObj kvs, q)) (jobj n (d # q)))
          else if prefix ''null'' s then Some (JNull, drop 4 s)
          else if prefix ''true'' s then Some (JBool True, drop 4 s)
          else if prefix ''false'' s then Some (JBool False, drop 5 s)
          else map_option (\<lambda>(l, q). (JNum l, q)) (json_num s))"
| "jarr 0 s = None"
| "jarr (Suc n) s =
     (case jval n s of
        None \<Rightarrow> None
      | Some (v, r) \<Rightarrow>
          (case skip_ws r of
             [] \<Rightarrow> None
           | d # q \<Rightarrow>
               if d = CHR '','' then map_option (\<lambda>(vs, q'). (v # vs, q')) (jarr n (skip_ws q))
               else if d = CHR '']'' then Some ([v], q) else None))"
| "jobj 0 s = None"
| "jobj (Suc n) s =
     (case s of
        [] \<Rightarrow> None
      | c # r \<Rightarrow>
          if c \<noteq> CHR 0x22 then None
          else (case json_str r of
             None \<Rightarrow> None
           | Some (k, r1) \<Rightarrow>
               (case skip_ws r1 of
                  [] \<Rightarrow> None
                | d # r2 \<Rightarrow>
                    if d \<noteq> CHR '':'' then None
                    else (case jval n (skip_ws r2) of
                       None \<Rightarrow> None
                     | Some (v, r3) \<Rightarrow>
                         (case skip_ws r3 of
                            [] \<Rightarrow> None
                          | e # r4 \<Rightarrow>
                              if e = CHR '','' then map_option (\<lambda>(kvs, q). ((k, v) # kvs, q)) (jobj n (skip_ws r4))
                              else if e = CHR ''}'' then Some ([(k, v)], r4) else None)))))"

definition json_parse :: "string \<Rightarrow> json option" where
  "json_parse s =
     (case jval (Suc (2 * length s)) (skip_ws s) of
        Some (v, r) \<Rightarrow> if skip_ws r = [] then Some v else None
      | None \<Rightarrow> None)"

section \<open>Assigning to variables\<close>

text \<open>
  A null leaves the variable as it is, a value of another type is an error. An int64 takes a
  literal without fraction and exponent that fits.
\<close>

definition fold_ascii :: "string \<Rightarrow> string" where
  "fold_ascii s = map (\<lambda>c. if 65 \<le> ord_c c \<and> ord_c c \<le> 90 then char_of (ord_c c + 32) else c) s"

definition key_is :: "string \<Rightarrow> string \<Rightarrow> bool" where
  "key_is k name \<longleftrightarrow> fold_ascii k = fold_ascii name"

fun set_string :: "json \<Rightarrow> string \<Rightarrow> string option" where
  "set_string (JStr s) x = Some s"
| "set_string JNull x = Some x"
| "set_string _ x = None"

fun set_bool :: "json \<Rightarrow> bool \<Rightarrow> bool option" where
  "set_bool (JBool b) x = Some b"
| "set_bool JNull x = Some x"
| "set_bool _ x = None"

fun set_int :: "json \<Rightarrow> int \<Rightarrow> int option" where
  "set_int (JNum l) x = atoi l"
| "set_int JNull x = Some x"
| "set_int _ x = None"

fun set_strings :: "json \<Rightarrow> string list \<Rightarrow> string list option" where
  "set_strings (JArr vs) x = those (map (\<lambda>v. set_string v []) vs)"
| "set_strings JNull x = Some []"
| "set_strings _ x = None"

text \<open>Decoding an object into a struct: every member in turn updates the struct or fails.\<close>

fun set_members :: "('s \<Rightarrow> string \<Rightarrow> json \<Rightarrow> 's option) \<Rightarrow> 's \<Rightarrow> (string \<times> json) list \<Rightarrow> 's option" where
  "set_members f x [] = Some x"
| "set_members f x ((k, v) # kvs) = (case f x k v of None \<Rightarrow> None | Some y \<Rightarrow> set_members f y kvs)"

fun set_struct :: "('s \<Rightarrow> string \<Rightarrow> json \<Rightarrow> 's option) \<Rightarrow> json \<Rightarrow> 's \<Rightarrow> 's option" where
  "set_struct f (JObj kvs) x = set_members f x kvs"
| "set_struct f JNull x = Some x"
| "set_struct f _ x = None"

section \<open>Lemmas\<close>

lemma hex_digit_props: "d < 16 \<Longrightarrow> is_hex (hex_digit d) \<and> hex_val (hex_digit d) = d"
  by (auto simp: hex_digit_def hex_val_def is_hex_def is_digit_def of_char_of)

lemma unhex4_hex4:
  assumes "n < 256"
  shows "unhex4 (hex4 n @ r) = Some n"
proof -
  have "hex4 n = map hex_digit [0, 0, n div 16, n mod 16]"
    using assms by (simp add: hex4_def)
  moreover have "n div 16 < 16" "n mod 16 < 16" using assms by auto
  ultimately show ?thesis
    using hex_digit_props [of 0] by (simp add: unhex4_def hex_value_def hex_digit_props)
qed

lemma hex4_length [simp]: "length (hex4 n) = 4"
  by (simp add: hex4_def)

lemma unicode_escape_ascii:
  "n < 128 \<Longrightarrow> unicode_escape (hex4 n @ r) = Some ([char_of n], r)"
  by (simp add: unicode_escape_def unhex4_hex4 utf8_enc_def)

lemma json_str_ascii:
  assumes "ord_c c < 128"
  shows "json_str (esc_ascii c @ t) = prepend [c] (json_str t)"
proof (cases "ord_c c < 32 \<or> c \<in> {CHR ''<'', CHR ''>'', CHR ''&'', CHR 0x22, CHR 0x5C}")
  case True
  then show ?thesis
    using unicode_escape_ascii [OF assms, of t] by (auto simp: esc_ascii_def unescape_def)
next
  case False
  then have plain: "\<not> ord_c c < 32" "c \<notin> {CHR ''<'', CHR ''>'', CHR ''&'', CHR 0x22, CHR 0x5C}" by simp_all
  have "c \<noteq> d" if "ord_c d < 32" for d using that plain(1) by blast
  from this [of "CHR 0x08"] this [of "CHR 0x0C"] this [of "CHR 0x0A"] this [of "CHR 0x0D"] this [of "CHR 0x09"]
  have "esc_ascii c = [c]" using plain by (simp add: esc_ascii_def)
  with plain assms show ?thesis by simp
qed

lemma rune_len_cases:
  assumes "rune_len (c # r) \<noteq> 0"
  obtains (one) "ord_c c < 128"
  | (two) d q where "r = d # q" "194 \<le> ord_c c" "ord_c c < 224" "cont 128 191 d"
  | (three) d e q where "r = d # e # q" "224 \<le> ord_c c" "ord_c c < 240"
      "cont (if ord_c c = 224 then 160 else 128) (if ord_c c = 237 then 159 else 191) d" "cont 128 191 e"
  | (four) d e f q where "r = d # e # f # q" "240 \<le> ord_c c" "ord_c c < 245"
      "cont (if ord_c c = 240 then 144 else 128) (if ord_c c = 244 then 143 else 191) d" "cont 128 191 e" "cont 128 191 f"
proof -
  consider "ord_c c < 128" | "194 \<le> ord_c c" "ord_c c < 224" | "224 \<le> ord_c c" "ord_c c < 240"
    | "240 \<le> ord_c c" "ord_c c < 245"
    using assms unfolding rune_len_def Let_def by (simp split: if_splits)
  then show thesis
  proof cases
    case 1
    then show thesis by (rule one)
  next
    case 2
    with assms show thesis
      by (cases r) (auto simp: rune_len_def Let_def split: if_splits intro: two)
  next
    case 3
    with assms show thesis
      by (cases r; cases "tl r") (auto simp: rune_len_def Let_def split: if_splits intro: three)
  next
    case 4
    with assms show thesis
      by (cases r; cases "tl r"; cases "tl (tl r)") (auto simp: rune_len_def Let_def split: if_splits intro: four)
  qed
qed

lemma rune_len_take:
  assumes "rune_len (c # r) \<noteq> 0"
  shows "rune_len (take (rune_len (c # r)) (c # r) @ t) = rune_len (c # r)
    \<and> length (take (rune_len (c # r)) (c # r)) = rune_len (c # r)"
  using assms
proof (cases rule: rune_len_cases)
  case one
  then show ?thesis by (simp add: rune_len_def)
next
  case (two d q)
  then have "rune_len (c # d # q) = 2" for q by (simp add: rune_len_def)
  with two show ?thesis by simp
next
  case (three d e q)
  then have "rune_len (c # d # e # q) = 3" for q by (simp add: rune_len_def)
  with three show ?thesis by simp
next
  case (four d e f q)
  then have "rune_len (c # d # e # f # q) = 4" for q by (simp add: rune_len_def)
  with four show ?thesis by simp
qed

lemma json_str_rune:
  assumes "rune_len (c # s) \<noteq> 0" "\<not> ord_c c < 128"
  shows "json_str (take (rune_len (c # s)) (c # s) @ t) = prepend (take (rune_len (c # s)) (c # s)) (json_str t)"
proof -
  obtain n where n: "rune_len (c # s) = Suc n" using assms(1) by (cases "rune_len (c # s)") auto
  have len: "length (take n s) = n" and "rune_len (c # take n s @ t) = Suc n"
    using rune_len_take [OF assms(1), of t] n by simp_all
  moreover have "c \<noteq> CHR 0x22" "c \<noteq> CHR 0x5C" using assms(2) by auto
  ultimately show ?thesis
    using assms(2) len by (simp add: n Let_def)
qed

lemma json_str_esc: "utf8_valid s \<Longrightarrow> json_str (json_esc s @ CHR 0x22 # r) = Some (s, r)"
proof (induction s rule: utf8_valid.induct)
  case (2 c s)
  show ?case
  proof (cases "ord_c c < 128")
    case True
    then have "rune_len (c # s) = 1" by (simp add: rune_len_def)
    with 2 True show ?thesis by (simp add: json_str_ascii prepend_def)
  next
    case False
    let ?n = "rune_len (c # s)"
    let ?r = "take ?n (c # s)"
    have n: "?n \<noteq> 0" using "2.prems" by simp
    have IH: "json_str (json_esc (drop (?n - 1) s) @ CHR 0x22 # r) = Some (drop (?n - 1) s, r)"
      using 2 by simp
    have whole: "?r @ drop (?n - 1) s = c # s" using n by (cases ?n) simp_all
    have sep: "json_str ([CHR 0x5C] @ ''u2028'' @ t) = prepend (utf8_enc 8232) (json_str t)"
      "json_str ([CHR 0x5C] @ ''u2029'' @ t) = prepend (utf8_enc 8233) (json_str t)" for t
      by (simp_all add: unicode_escape_def unhex4_def is_hex_def is_digit_def hex_value_def hex_val_def)
    have "json_str (json_esc (c # s) @ CHR 0x22 # r) = prepend ?r (json_str (json_esc (drop (?n - 1) s) @ CHR 0x22 # r))"
    proof (cases "?r = utf8_enc 8232 \<or> ?r = utf8_enc 8233")
      case True
      with False n sep show ?thesis by (auto simp: Let_def)
    next
      case nosep: False
      with False n have "json_esc (c # s) = ?r @ json_esc (drop (?n - 1) s)" by (simp add: Let_def)
      then show ?thesis using json_str_rune [OF n False] by (metis append.assoc)
    qed
    then show ?thesis by (simp only: IH prepend_def option.map prod.case whole)
  qed
qed simp

lemma digits_takeWhile:
  assumes "list_all is_digit ds" "r = [] \<or> \<not> is_digit (hd r)"
  shows "takeWhile is_digit (ds @ r) = ds" "dropWhile is_digit (ds @ r) = r"
  using assms by (induction ds) (cases r; simp)+

definition delim :: "string \<Rightarrow> bool" where
  "delim r \<longleftrightarrow> r = [] \<or> hd r \<in> {CHR '','', CHR '']'', CHR ''}''}"

lemma delim_not_digit: "delim r \<Longrightarrow> r = [] \<or> \<not> is_digit (hd r)"
  by (auto simp: delim_def is_digit_def)

lemma delim_frac_exp: "delim r \<Longrightarrow> json_frac r = Some ([], r) \<and> json_exp r = Some ([], r)"
  by (cases r) (auto simp: delim_def json_frac_def json_exp_def)

lemma itoa_nat_hd_nonzero:
  assumes "n \<noteq> 0"
  shows "hd (itoa_nat n) \<noteq> CHR ''0''"
proof (cases "n < 10")
  case True
  then have "itoa_nat n = [digit_char n]" by (subst itoa_nat.simps) simp
  moreover have "digit_val (digit_char n) = n" by (rule digit_char_props(2) [OF True])
  ultimately show ?thesis using assms by (auto simp: digit_val_def)
qed (simp add: itoa_nat_hd)

lemma json_int_itoa:
  assumes "delim r"
  shows "json_int (itoa_nat n @ r) = Some (itoa_nat n, r)"
proof (cases "n = 0")
  case True
  moreover have "itoa_nat 0 = ''0''" by code_simp
  ultimately show ?thesis by (simp add: json_int_def)
next
  case False
  obtain d ds where dd: "itoa_nat n = d # ds" using itoa_nat_nonempty [of n] by (cases "itoa_nat n") auto
  have "d \<noteq> CHR ''0''" using itoa_nat_hd_nonzero [OF False] dd by simp
  then show ?thesis
    using digits_takeWhile [OF itoa_nat_digits delim_not_digit [OF assms], of n] dd
    by (simp add: json_int_def digits1_def)
qed

lemma itoa_nat_Cons:
  obtains d ds where "itoa_nat n = d # ds" "is_digit d" "d \<noteq> CHR ''-''" "d \<noteq> CHR ''+''"
proof -
  obtain d ds where dd: "itoa_nat n = d # ds" using itoa_nat_nonempty [of n] by (cases "itoa_nat n") auto
  moreover from dd have "is_digit d" using itoa_nat_digits [of n] by simp
  moreover from this have "d \<noteq> CHR ''-''" "d \<noteq> CHR ''+''" by (auto simp: is_digit_def)
  ultimately show thesis by (rule that)
qed

lemma itoa_Cons:
  obtains c cs where "itoa i = c # cs" "c = CHR ''-'' \<or> is_digit c"
proof (cases "i < 0")
  case True
  then show thesis using that [of "CHR ''-''"] by (simp add: itoa_def)
next
  case False
  obtain d ds where "itoa_nat (nat i) = d # ds" "is_digit d" by (rule itoa_nat_Cons)
  with False show thesis using that [of d ds] by (simp add: itoa_def)
qed

lemma json_num_itoa:
  assumes "delim r"
  shows "json_num (itoa i @ r) = Some (itoa i, r)"
proof -
  have "json_num (itoa_nat n @ r) = Some (itoa_nat n, r)" for n
  proof -
    obtain d ds where "itoa_nat n = d # ds" "d \<noteq> CHR ''-''" by (rule itoa_nat_Cons)
    then show ?thesis
      using json_int_itoa [OF assms, of n] delim_frac_exp [OF assms] by (simp add: json_num_def prepend_def)
  qed
  then show ?thesis
    using json_int_itoa [OF assms] delim_frac_exp [OF assms]
    by (auto simp: itoa_def json_num_def prepend_def)
qed

lemma atoi_itoa:
  assumes "- 9223372036854775808 \<le> i" "i \<le> 9223372036854775807"
  shows "atoi (itoa i) = Some i"
proof (cases "i < 0")
  case True
  then show ?thesis
    using assms itoa_nat_digits [of "nat (- i)"] by (simp add: itoa_def atoi_def Let_def)
next
  case False
  obtain d ds where dd: "itoa_nat (nat i) = d # ds" "d \<noteq> CHR ''-''" "d \<noteq> CHR ''+''" by (rule itoa_nat_Cons)
  moreover have "dec_value (d # ds) = nat i" "list_all is_digit (d # ds)"
    using dec_value_itoa [of "nat i"] itoa_nat_digits [of "nat i"] dd(1) by simp_all
  ultimately show ?thesis
    using False assms by (simp add: itoa_def atoi_def Let_def)
qed

section \<open>The round trip\<close>

text \<open>Values whose strings are UTF-8 and whose numbers are 64-bit integers.\<close>

definition int_literal :: "string \<Rightarrow> bool" where
  "int_literal l \<longleftrightarrow> (case atoi l of None \<Rightarrow> False | Some i \<Rightarrow> l = itoa i)"

fun json_wf :: "json \<Rightarrow> bool" where
  "json_wf (JNum l) = int_literal l"
| "json_wf (JStr s) = utf8_valid s"
| "json_wf (JArr vs) = list_all json_wf vs"
| "json_wf (JObj kvs) = list_all (\<lambda>(k, v). utf8_valid k \<and> json_wf v) kvs"
| "json_wf _ = True"

fun jneed :: "json \<Rightarrow> nat" where
  "jneed (JArr vs) = 2 + sum_list (map (\<lambda>v. Suc (jneed v)) vs)"
| "jneed (JObj kvs) = 2 + sum_list (map (\<lambda>(k, v). Suc (jneed v)) kvs)"
| "jneed _ = 1"

lemma skip_ws_Cons: "c \<notin> {CHR '' '', CHR 0x09, CHR 0x0A, CHR 0x0D} \<Longrightarrow> skip_ws (c # s) = c # s"
  by (simp add: skip_ws_def)

text \<open>The first character of a text is not white space and not a closing bracket.\<close>

lemma json_text_Cons:
  assumes "json_wf v"
  obtains c s where "json_text v = c # s" "c \<notin> {CHR '' '', CHR 0x09, CHR 0x0A, CHR 0x0D}" "c \<noteq> CHR '']''" "c \<noteq> CHR ''}''"
proof (cases v)
  case (JNum l)
  then obtain i where l: "l = itoa i" using assms by (auto simp: int_literal_def split: option.splits)
  obtain c cs where c: "itoa i = c # cs" "c = CHR ''-'' \<or> is_digit c" by (rule itoa_Cons)
  show thesis
    by (rule that [of c cs]) (use c JNum l in \<open>auto simp: is_digit_def\<close>)
next
  case (JBool b)
  then show thesis using that by (cases b) auto
qed (use that in \<open>auto simp: json_quote_def split: if_splits\<close>)

lemma skip_ws_text:
  assumes "json_wf v"
  shows "skip_ws (json_text v @ r) = json_text v @ r" "skip_ws (json_text v) = json_text v"
proof -
  obtain c s where "json_text v = c # s" "c \<notin> {CHR '' '', CHR 0x09, CHR 0x0A, CHR 0x0D}"
    using json_text_Cons [OF assms] by metis
  then show "skip_ws (json_text v @ r) = json_text v @ r" "skip_ws (json_text v) = json_text v"
    by (simp_all add: skip_ws_Cons)
qed

definition jval_reads :: "json \<Rightarrow> bool" where
  "jval_reads v \<longleftrightarrow> (\<forall>n r. jneed v \<le> n \<longrightarrow> delim r \<longrightarrow> jval n (json_text v @ r) = Some (v, r))"

lemma jarr_text:
  assumes "list_all json_wf vs" "list_all jval_reads vs" "vs \<noteq> []" "Suc (sum_list (map (\<lambda>v. Suc (jneed v)) vs)) \<le> n"
  shows "jarr n (join_with '','' (map json_text vs) @ CHR '']'' # r) = Some (vs, r)"
  using assms
proof (induction vs arbitrary: n)
  case (Cons v vs)
  obtain m where m: "n = Suc m" using Cons.prems(4) by (cases n) auto
  have v: "jval m (json_text v @ t) = Some (v, t)" if "delim t" for t
    using Cons.prems(2,4) that m by (auto simp: jval_reads_def)
  show ?case
  proof (cases vs)
    case Nil
    then show ?thesis using v [of "CHR '']'' # r"] by (simp add: m delim_def skip_ws_Cons)
  next
    case (Cons w ws)
    have "jarr m (join_with '','' (map json_text vs) @ CHR '']'' # r) = Some (vs, r)"
      using Cons.IH Cons.prems m \<open>vs = w # ws\<close> by simp
    moreover have "skip_ws (join_with '','' (map json_text vs) @ CHR '']'' # r) = join_with '','' (map json_text vs) @ CHR '']'' # r"
    proof -
      have "\<exists>t. join_with '','' (map json_text vs) = json_text w @ t" by (cases ws) (simp_all add: \<open>vs = w # ws\<close>)
      then show ?thesis using skip_ws_text [of w] Cons.prems(1) \<open>vs = w # ws\<close> by auto
    qed
    ultimately show ?thesis
      using v [of "CHR '','' # join_with '','' (map json_text vs) @ CHR '']'' # r"] Cons
      by (simp add: m delim_def skip_ws_Cons)
  qed
qed simp

abbreviation member_text :: "string \<times> json \<Rightarrow> string" where
  "member_text kv \<equiv> (case kv of (k, v) \<Rightarrow> json_quote k @ '':'' @ json_text v)"

lemma jobj_text:
  assumes "list_all (\<lambda>(k, v). utf8_valid k \<and> json_wf v) kvs" "list_all (\<lambda>(k, v). jval_reads v) kvs" "kvs \<noteq> []"
    and "Suc (sum_list (map (\<lambda>(k, v). Suc (jneed v)) kvs)) \<le> n"
  shows "jobj n (join_with '','' (map member_text kvs) @ CHR ''}'' # r) = Some (kvs, r)"
  using assms
proof (induction kvs arbitrary: n)
  case (Cons kv kvs)
  obtain k v where kv: "kv = (k, v)" by (cases kv)
  obtain m where m: "n = Suc m" using Cons.prems(4) by (cases n) auto
  have wf: "utf8_valid k" "json_wf v" using Cons.prems(1) kv by auto
  have v: "jval m (json_text v @ t) = Some (v, t)" if "delim t" for t
    using Cons.prems(2,4) that m kv by (auto simp: jval_reads_def)
  have head: "jobj n (member_text kv @ t) =
      (case skip_ws t of [] \<Rightarrow> None
       | e # r4 \<Rightarrow> if e = CHR '','' then map_option (\<lambda>(kvs, q). ((k, v) # kvs, q)) (jobj m (skip_ws r4))
                   else if e = CHR ''}'' then Some ([(k, v)], r4) else None)" if "delim t" for t
    using json_str_esc [OF wf(1), of "CHR '':'' # json_text v @ t"] v [OF that] skip_ws_text [OF wf(2)]
    by (simp add: m kv json_quote_def skip_ws_Cons)
  show ?case
  proof (cases kvs)
    case Nil
    then show ?thesis using head [of "CHR ''}'' # r"] by (simp add: kv delim_def skip_ws_Cons)
  next
    case (Cons w ws)
    have "jobj m (join_with '','' (map member_text kvs) @ CHR ''}'' # r) = Some (kvs, r)"
      using Cons.IH Cons.prems m \<open>kvs = w # ws\<close> by (simp add: kv)
    moreover have "skip_ws (join_with '','' (map member_text kvs) @ CHR ''}'' # r) = join_with '','' (map member_text kvs) @ CHR ''}'' # r"
    proof -
      have "\<exists>t. join_with '','' (map member_text kvs) = CHR 0x22 # t"
        by (cases w; cases ws) (simp_all add: \<open>kvs = w # ws\<close> json_quote_def)
      then show ?thesis by (auto simp: skip_ws_Cons)
    qed
    ultimately show ?thesis
      using head [of "CHR '','' # join_with '','' (map member_text kvs) @ CHR ''}'' # r"] Cons
      by (simp add: delim_def skip_ws_Cons kv)
  qed
qed simp

lemma jval_text: "json_wf v \<Longrightarrow> jval_reads v"
proof (induction v rule: json_text.induct)
  case (3 l)
  then obtain i where l: "l = itoa i" by (auto simp: int_literal_def split: option.splits)
  obtain c cs where c: "itoa i = c # cs" "c = CHR ''-'' \<or> is_digit c" by (rule itoa_Cons)
  have first: "c \<noteq> CHR 0x22" "c \<noteq> CHR ''[''" "c \<noteq> CHR ''{''" "c \<noteq> CHR ''n''" "c \<noteq> CHR ''t''" "c \<noteq> CHR ''f''"
    using c(2) by (auto simp: is_digit_def)
  have "jval n (l @ r) = Some (JNum l, r)" if "1 \<le> n" "delim r" for n r
    using that json_num_itoa [OF that(2), of i] c first by (cases n) (auto simp: l)
  then show ?case by (simp add: jval_reads_def)
next
  case (4 s)
  have "jval n (json_quote s @ r) = Some (JStr s, r)" if "1 \<le> n" for n r
    using that json_str_esc [of s r] 4 by (cases n) (auto simp: json_quote_def)
  then show ?case by (simp add: jval_reads_def)
next
  case (5 vs)
  have reads: "list_all jval_reads vs" using 5 by (auto simp: list_all_iff)
  have "jval n (json_text (JArr vs) @ r) = Some (JArr vs, r)" if need: "jneed (JArr vs) \<le> n" for n r
  proof -
    obtain m where m: "n = Suc m" using need by (cases n) auto
    show ?thesis
    proof (cases vs)
      case Nil
      then show ?thesis by (simp add: m skip_ws_Cons)
    next
      case (Cons w ws)
      have "\<exists>t. join_with '','' (map json_text vs) = json_text w @ t" by (cases ws) (simp_all add: Cons)
      moreover obtain c s where "json_text w = c # s" "c \<notin> {CHR '' '', CHR 0x09, CHR 0x0A, CHR 0x0D}" "c \<noteq> CHR '']''"
      proof (rule json_text_Cons [of w])
        show "json_wf w" using 5(2) Cons by simp
      qed
      ultimately obtain t where t: "join_with '','' (map json_text vs) = c # t" "c \<noteq> CHR '']''"
          "c \<notin> {CHR '' '', CHR 0x09, CHR 0x0A, CHR 0x0D}" by auto
      have "jarr m (join_with '','' (map json_text vs) @ CHR '']'' # r) = Some (vs, r)"
        using need 5(2) reads Cons m by (intro jarr_text) simp_all
      then show ?thesis using t by (simp add: m skip_ws_Cons)
    qed
  qed
  then show ?case by (simp add: jval_reads_def)
next
  case (6 kvs)
  have reads: "list_all (\<lambda>(k, v). jval_reads v) kvs" using 6 by (auto simp: list_all_iff)
  have "jval n (json_text (JObj kvs) @ r) = Some (JObj kvs, r)" if need: "jneed (JObj kvs) \<le> n" for n r
  proof -
    obtain m where m: "n = Suc m" using need by (cases n) auto
    show ?thesis
    proof (cases kvs)
      case Nil
      then show ?thesis by (simp add: m skip_ws_Cons)
    next
      case (Cons w ws)
      obtain t where t: "join_with '','' (map member_text kvs) = CHR 0x22 # t"
        by (cases w; cases ws) (simp_all add: Cons json_quote_def)
      have "jobj m (join_with '','' (map member_text kvs) @ CHR ''}'' # r) = Some (kvs, r)"
        using need 6(2) reads Cons m by (intro jobj_text) simp_all
      then show ?thesis using t by (simp add: m skip_ws_Cons)
    qed
  qed
  then show ?case by (simp add: jval_reads_def)
qed (auto simp: jval_reads_def Suc_le_eq gr0_conv_Suc)

lemma join_with_length:
  "ws \<noteq> [] \<Longrightarrow> length (join_with [c] ws) = sum_list (map length ws) + length ws - 1"
  by (induction "[c]" ws rule: join_with.induct) auto

lemma sum_list_Suc: "(\<Sum>x\<leftarrow>xs. Suc (f x)) = (\<Sum>x\<leftarrow>xs. f x) + length xs"
  by (induction xs) auto

lemma jneed_length: "json_wf v \<Longrightarrow> jneed v \<le> 2 * length (json_text v)"
proof (induction v rule: json_text.induct)
  case (3 l)
  then obtain i where l: "l = itoa i" by (auto simp: int_literal_def split: option.splits)
  obtain c cs where "itoa i = c # cs" by (rule itoa_Cons)
  with l show ?case by simp
next
  case (5 vs)
  have "(\<Sum>v\<leftarrow>vs. jneed v) \<le> (\<Sum>v\<leftarrow>vs. 2 * length (json_text v))"
    using 5 by (intro sum_list_mono) (auto simp: list_all_iff)
  then show ?case
    by (cases "vs = []") (simp_all add: join_with_length sum_list_Suc sum_list_const_mult comp_def)
next
  case (6 kvs)
  have "(\<Sum>kv\<leftarrow>kvs. jneed (snd kv)) \<le> (\<Sum>kv\<leftarrow>kvs. 2 * length (member_text kv))"
  proof (rule sum_list_mono)
    fix kv assume kv: "kv \<in> set kvs"
    obtain k v where "kv = (k, v)" by (cases kv)
    with kv 6 have "jneed v \<le> 2 * length (json_text v)" by (auto simp: list_all_iff)
    with \<open>kv = (k, v)\<close> show "jneed (snd kv) \<le> 2 * length (member_text kv)" by simp
  qed
  then have sum: "(\<Sum>kv\<leftarrow>kvs. jneed (snd kv)) \<le> 2 * (\<Sum>kv\<leftarrow>kvs. length (member_text kv))"
    by (simp only: sum_list_const_mult)
  have need: "jneed (JObj kvs) = 2 + (\<Sum>kv\<leftarrow>kvs. jneed (snd kv)) + length kvs"
    using sum_list_Suc [of "\<lambda>kv. jneed (snd kv)" kvs] by (simp add: case_prod_unfold)
  show ?case
  proof (cases "kvs = []")
    case False
    then have "length (json_text (JObj kvs)) = (\<Sum>kv\<leftarrow>kvs. length (member_text kv)) + length kvs + 1"
      using join_with_length [of "map member_text kvs" "CHR '',''"] by (simp add: comp_def)
    with sum need show ?thesis by linarith
  qed simp
qed (auto simp: json_quote_def)

lemma json_parse_text:
  assumes "json_wf v"
  shows "json_parse (json_text v) = Some v"
proof -
  have "jval (Suc (2 * length (json_text v))) (json_text v @ []) = Some (v, [])"
    using jval_text [OF assms] jneed_length [OF assms] unfolding jval_reads_def by (simp add: delim_def del: jval.simps)
  moreover have "skip_ws [] = []" by (simp add: skip_ws_def)
  ultimately show ?thesis
    by (simp add: json_parse_def skip_ws_text [OF assms] del: jval.simps)
qed

end
