(* ===== verification/Envelope.thy ===== *)
theory Envelope
  imports AesGcm Json Base64 Derive RateLimit
begin

text \<open>
  The messages of the discovery protocol (pkg/crypto/envelope.go): announcements and their
  validation, the JSON they travel as, and the encrypted envelope with its replay protection.
  The encryption of the state file (pkg/crypto/encrypt.go) and the announcements of a secret
  rotation (pkg/crypto/rotation.go) are at the end. Random bytes and the clock are arguments.
\<close>

section \<open>Messages\<close>

definition NonceSize :: nat where "NonceSize = 12"
definition MaxMessageAge :: duration where "MaxMessageAge = 10 * Minute"
definition ProtocolVersion :: string where "ProtocolVersion = ''wgmesh-v1''"
definition MessageTypeHello :: string where "MessageTypeHello = ''HELLO''"
definition MessageTypeReply :: string where "MessageTypeReply = ''REPLY''"
definition MessageTypeAnnounce :: string where "MessageTypeAnnounce = ''ANNOUNCE''"
definition MessageTypeGoodbye :: string where "MessageTypeGoodbye = ''GOODBYE''"
definition MessageTypeRendezvousOffer :: string where "MessageTypeRendezvousOffer = ''RENDEZVOUS_OFFER''"
definition MessageTypeRendezvousStart :: string where "MessageTypeRendezvousStart = ''RENDEZVOUS_START''"
definition MaxHostnameLength :: nat where "MaxHostnameLength = 253"
definition MaxRoutableNetworks :: nat where "MaxRoutableNetworks = 100"
definition MaxKnownPeers :: nat where "MaxKnownPeers = 1000"

record KnownPeer =
  kp_WGPubKey :: string
  kp_Hostname :: string
  kp_MeshIP :: string
  kp_MeshIPv6 :: string
  kp_WGEndpoint :: string
  kp_Introducer :: bool
  kp_NATType :: string

record PeerAnnouncement =
  pa_Protocol :: string
  pa_WGPubKey :: string
  pa_Hostname :: string
  pa_MeshIP :: string
  pa_MeshIPv6 :: string
  pa_WGEndpoint :: string
  pa_Introducer :: bool
  pa_RoutableNetworks :: "string list"
  pa_Timestamp :: int
  pa_KnownPeers :: "KnownPeer list"
  pa_ObservedEndpoint :: string
  pa_NATType :: string

record Envelope =
  en_MessageType :: string
  en_Nonce :: "byte list"
  en_Ciphertext :: "byte list"

datatype field_error = EmptyValue | BadBase64 | BadKeyLength nat | BadIP | BadHostPort | BadPort
  | PortRange int | HostnameTooLong nat | BadHostnameChar nat

datatype announce_error = PubKeyError field_error | MeshIPError field_error | EndpointError field_error
  | HostnameError field_error | TooManyNetworks nat | BadCIDR nat | TooManyPeers nat | PeerError nat announce_error

definition validateWGPubKey :: "string \<Rightarrow> field_error option" where
  "validateWGPubKey key =
     (if key = [] then Some EmptyValue
      else case b64_decode key of
        None \<Rightarrow> Some BadBase64
      | Some d \<Rightarrow> if length d \<noteq> 32 then Some (BadKeyLength (length d)) else None)"

definition validateMeshIP :: "string \<Rightarrow> field_error option" where
  "validateMeshIP ip =
     (if ip = [] then Some EmptyValue else case parse_ip ip of None \<Rightarrow> Some BadIP | Some _ \<Rightarrow> None)"

definition validateEndpoint :: "string \<Rightarrow> field_error option" where
  "validateEndpoint endpoint =
     (case split_host_port endpoint of
        None \<Rightarrow> Some BadHostPort
      | Some (_, portStr) \<Rightarrow>
          (case atoi portStr of
             None \<Rightarrow> Some BadPort
           | Some port \<Rightarrow> if port < 1 \<or> port > 65535 then Some (PortRange port) else None))"

definition validateHostname :: "string \<Rightarrow> field_error option" where
  "validateHostname h =
     (if length h > MaxHostnameLength then Some (HostnameTooLong (length h))
      else case find (\<lambda>i. ord_c (h ! i) < 32 \<or> ord_c (h ! i) > 126) [0..<length h] of
        Some i \<Rightarrow> Some (BadHostnameChar i) | None \<Rightarrow> None)"

definition first_error :: "'e option list \<Rightarrow> 'e option" where
  "first_error es = (case List.map_filter id es of [] \<Rightarrow> None | e # _ \<Rightarrow> Some e)"

definition KnownPeer_Validate :: "KnownPeer \<Rightarrow> announce_error option" where
  "KnownPeer_Validate kp = first_error
     [map_option PubKeyError (validateWGPubKey (kp_WGPubKey kp)),
      map_option MeshIPError (validateMeshIP (kp_MeshIP kp)),
      if kp_WGEndpoint kp \<noteq> [] then map_option EndpointError (validateEndpoint (kp_WGEndpoint kp)) else None,
      if kp_Hostname kp \<noteq> [] then map_option HostnameError (validateHostname (kp_Hostname kp)) else None]"

definition PeerAnnouncement_Validate :: "PeerAnnouncement \<Rightarrow> announce_error option" where
  "PeerAnnouncement_Validate pa = first_error
     ([map_option PubKeyError (validateWGPubKey (pa_WGPubKey pa)),
       map_option MeshIPError (validateMeshIP (pa_MeshIP pa)),
       if pa_WGEndpoint pa \<noteq> [] then map_option EndpointError (validateEndpoint (pa_WGEndpoint pa)) else None,
       if pa_Hostname pa \<noteq> [] then map_option HostnameError (validateHostname (pa_Hostname pa)) else None,
       if length (pa_RoutableNetworks pa) > MaxRoutableNetworks
       then Some (TooManyNetworks (length (pa_RoutableNetworks pa))) else None]
      @ map (\<lambda>(i, c). if parse_cidr c = None then Some (BadCIDR i) else None) (enumerate 0 (pa_RoutableNetworks pa))
      @ [if length (pa_KnownPeers pa) > MaxKnownPeers then Some (TooManyPeers (length (pa_KnownPeers pa))) else None]
      @ map (\<lambda>(i, kp). map_option (PeerError i) (KnownPeer_Validate kp)) (enumerate 0 (pa_KnownPeers pa)))"

definition CreateAnnouncement :: "gotime \<Rightarrow> string \<Rightarrow> string \<Rightarrow> string \<Rightarrow> bool \<Rightarrow> string list \<Rightarrow> KnownPeer list \<Rightarrow>
    string \<Rightarrow> string \<Rightarrow> string \<Rightarrow> PeerAnnouncement" where
  "CreateAnnouncement now wgPubKey meshIP wgEndpoint introducer routableNetworks knownPeers hostname meshIPv6 natType =
     \<lparr>pa_Protocol = ProtocolVersion, pa_WGPubKey = wgPubKey, pa_Hostname = hostname, pa_MeshIP = meshIP,
      pa_MeshIPv6 = meshIPv6, pa_WGEndpoint = wgEndpoint, pa_Introducer = introducer,
      pa_RoutableNetworks = routableNetworks, pa_Timestamp = unix_of now, pa_KnownPeers = knownPeers,
      pa_ObservedEndpoint = [], pa_NATType = natType\<rparr>"

section \<open>JSON of the messages\<close>

definition opt_str :: "string \<Rightarrow> string \<Rightarrow> (string \<times> json) list" where
  "opt_str name s = (if s = [] then [] else [(name, JStr s)])"

definition opt_bool :: "string \<Rightarrow> bool \<Rightarrow> (string \<times> json) list" where
  "opt_bool name b = (if b then [(name, JBool True)] else [])"

definition opt_arr :: "string \<Rightarrow> json list \<Rightarrow> (string \<times> json) list" where
  "opt_arr name vs = (if vs = [] then [] else [(name, JArr vs)])"

definition KnownPeer_json :: "KnownPeer \<Rightarrow> json" where
  "KnownPeer_json kp = JObj
     ([(''wg_pubkey'', JStr (kp_WGPubKey kp))] @ opt_str ''hostname'' (kp_Hostname kp)
      @ [(''mesh_ip'', JStr (kp_MeshIP kp))] @ opt_str ''mesh_ipv6'' (kp_MeshIPv6 kp)
      @ [(''wg_endpoint'', JStr (kp_WGEndpoint kp))] @ opt_bool ''introducer'' (kp_Introducer kp)
      @ opt_str ''nat_type'' (kp_NATType kp))"

definition PeerAnnouncement_json :: "PeerAnnouncement \<Rightarrow> json" where
  "PeerAnnouncement_json pa = JObj
     ([(''protocol'', JStr (pa_Protocol pa)), (''wg_pubkey'', JStr (pa_WGPubKey pa))]
      @ opt_str ''hostname'' (pa_Hostname pa) @ [(''mesh_ip'', JStr (pa_MeshIP pa))]
      @ opt_str ''mesh_ipv6'' (pa_MeshIPv6 pa) @ [(''wg_endpoint'', JStr (pa_WGEndpoint pa))]
      @ opt_bool ''introducer'' (pa_Introducer pa)
      @ opt_arr ''routable_networks'' (map JStr (pa_RoutableNetworks pa))
      @ [(''timestamp'', JNum (itoa (pa_Timestamp pa)))]
      @ opt_arr ''known_peers'' (map KnownPeer_json (pa_KnownPeers pa))
      @ opt_str ''observed_endpoint'' (pa_ObservedEndpoint pa) @ opt_str ''nat_type'' (pa_NATType pa))"

definition zero_known_peer :: KnownPeer where
  "zero_known_peer = \<lparr>kp_WGPubKey = [], kp_Hostname = [], kp_MeshIP = [], kp_MeshIPv6 = [], kp_WGEndpoint = [],
     kp_Introducer = False, kp_NATType = []\<rparr>"

definition zero_announcement :: PeerAnnouncement where
  "zero_announcement = \<lparr>pa_Protocol = [], pa_WGPubKey = [], pa_Hostname = [], pa_MeshIP = [], pa_MeshIPv6 = [],
     pa_WGEndpoint = [], pa_Introducer = False, pa_RoutableNetworks = [], pa_Timestamp = 0, pa_KnownPeers = [],
     pa_ObservedEndpoint = [], pa_NATType = []\<rparr>"

definition KnownPeer_member :: "KnownPeer \<Rightarrow> string \<Rightarrow> json \<Rightarrow> KnownPeer option" where
  "KnownPeer_member kp k v =
     (if key_is k ''wg_pubkey'' then map_option (\<lambda>x. kp\<lparr>kp_WGPubKey := x\<rparr>) (set_string v (kp_WGPubKey kp))
      else if key_is k ''hostname'' then map_option (\<lambda>x. kp\<lparr>kp_Hostname := x\<rparr>) (set_string v (kp_Hostname kp))
      else if key_is k ''mesh_ip'' then map_option (\<lambda>x. kp\<lparr>kp_MeshIP := x\<rparr>) (set_string v (kp_MeshIP kp))
      else if key_is k ''mesh_ipv6'' then map_option (\<lambda>x. kp\<lparr>kp_MeshIPv6 := x\<rparr>) (set_string v (kp_MeshIPv6 kp))
      else if key_is k ''wg_endpoint'' then map_option (\<lambda>x. kp\<lparr>kp_WGEndpoint := x\<rparr>) (set_string v (kp_WGEndpoint kp))
      else if key_is k ''introducer'' then map_option (\<lambda>x. kp\<lparr>kp_Introducer := x\<rparr>) (set_bool v (kp_Introducer kp))
      else if key_is k ''nat_type'' then map_option (\<lambda>x. kp\<lparr>kp_NATType := x\<rparr>) (set_string v (kp_NATType kp))
      else Some kp)"

fun set_known_peers :: "json \<Rightarrow> KnownPeer list \<Rightarrow> KnownPeer list option" where
  "set_known_peers (JArr vs) x = those (map (\<lambda>v. set_struct KnownPeer_member v zero_known_peer) vs)"
| "set_known_peers JNull x = Some []"
| "set_known_peers _ x = None"

definition PeerAnnouncement_member :: "PeerAnnouncement \<Rightarrow> string \<Rightarrow> json \<Rightarrow> PeerAnnouncement option" where
  "PeerAnnouncement_member pa k v =
     (if key_is k ''protocol'' then map_option (\<lambda>x. pa\<lparr>pa_Protocol := x\<rparr>) (set_string v (pa_Protocol pa))
      else if key_is k ''wg_pubkey'' then map_option (\<lambda>x. pa\<lparr>pa_WGPubKey := x\<rparr>) (set_string v (pa_WGPubKey pa))
      else if key_is k ''hostname'' then map_option (\<lambda>x. pa\<lparr>pa_Hostname := x\<rparr>) (set_string v (pa_Hostname pa))
      else if key_is k ''mesh_ip'' then map_option (\<lambda>x. pa\<lparr>pa_MeshIP := x\<rparr>) (set_string v (pa_MeshIP pa))
      else if key_is k ''mesh_ipv6'' then map_option (\<lambda>x. pa\<lparr>pa_MeshIPv6 := x\<rparr>) (set_string v (pa_MeshIPv6 pa))
      else if key_is k ''wg_endpoint'' then map_option (\<lambda>x. pa\<lparr>pa_WGEndpoint := x\<rparr>) (set_string v (pa_WGEndpoint pa))
      else if key_is k ''introducer'' then map_option (\<lambda>x. pa\<lparr>pa_Introducer := x\<rparr>) (set_bool v (pa_Introducer pa))
      else if key_is k ''routable_networks'' then
        map_option (\<lambda>x. pa\<lparr>pa_RoutableNetworks := x\<rparr>) (set_strings v (pa_RoutableNetworks pa))
      else if key_is k ''timestamp'' then map_option (\<lambda>x. pa\<lparr>pa_Timestamp := x\<rparr>) (set_int v (pa_Timestamp pa))
      else if key_is k ''known_peers'' then
        map_option (\<lambda>x. pa\<lparr>pa_KnownPeers := x\<rparr>) (set_known_peers v (pa_KnownPeers pa))
      else if key_is k ''observed_endpoint'' then
        map_option (\<lambda>x. pa\<lparr>pa_ObservedEndpoint := x\<rparr>) (set_string v (pa_ObservedEndpoint pa))
      else if key_is k ''nat_type'' then map_option (\<lambda>x. pa\<lparr>pa_NATType := x\<rparr>) (set_string v (pa_NATType pa))
      else Some pa)"

section \<open>The envelope\<close>

text \<open>A byte slice is a base64 string in JSON.\<close>

fun set_bytes :: "json \<Rightarrow> byte list \<Rightarrow> byte list option" where
  "set_bytes (JStr s) x = b64_decode s"
| "set_bytes JNull x = Some []"
| "set_bytes _ x = None"

definition Envelope_member :: "Envelope \<Rightarrow> string \<Rightarrow> json \<Rightarrow> Envelope option" where
  "Envelope_member e k v =
     (if key_is k ''type'' then map_option (\<lambda>x. e\<lparr>en_MessageType := x\<rparr>) (set_string v (en_MessageType e))
      else if key_is k ''nonce'' then map_option (\<lambda>x. e\<lparr>en_Nonce := x\<rparr>) (set_bytes v (en_Nonce e))
      else if key_is k ''ciphertext'' then map_option (\<lambda>x. e\<lparr>en_Ciphertext := x\<rparr>) (set_bytes v (en_Ciphertext e))
      else Some e)"

definition Envelope_json :: "Envelope \<Rightarrow> json" where
  "Envelope_json e = JObj
     [(''type'', JStr (en_MessageType e)), (''nonce'', JStr (b64_encode True b64_std (en_Nonce e))),
      (''ciphertext'', JStr (b64_encode True b64_std (en_Ciphertext e)))]"

definition text_of :: "byte list \<Rightarrow> string" where
  "text_of bs = map (\<lambda>b. char_of (unat b)) bs"

definition SealEnvelope :: "byte list option \<Rightarrow> string \<Rightarrow> json \<Rightarrow> byte list \<Rightarrow> byte list option" where
  "SealEnvelope rnd messageType payload gossipKey =
     map_option (\<lambda>nonce. bytes_of (json_text (Envelope_json
       \<lparr>en_MessageType = messageType, en_Nonce = nonce,
        en_Ciphertext = gcm_seal gossipKey nonce (bytes_of (json_text payload))\<rparr>))) rnd"

datatype open_error = BadEnvelope | BadNonceSize nat | DecryptionFailed | BadMetadata | BadProtocol string
  | TooOld | InFuture | BadAnnouncement | InvalidAnnouncement announce_error

definition meta_member :: "string \<times> int \<Rightarrow> string \<Rightarrow> json \<Rightarrow> (string \<times> int) option" where
  "meta_member x k v =
     (if key_is k ''protocol'' then map_option (\<lambda>p. (p, snd x)) (set_string v (fst x))
      else if key_is k ''timestamp'' then map_option (\<lambda>t. (fst x, t)) (set_int v (snd x))
      else Some x)"

definition unmarshal :: "('s \<Rightarrow> string \<Rightarrow> json \<Rightarrow> 's option) \<Rightarrow> 's \<Rightarrow> byte list \<Rightarrow> 's option" where
  "unmarshal f zero data = (case json_parse (text_of data) of None \<Rightarrow> None | Some v \<Rightarrow> set_struct f v zero)"

definition OpenEnvelopeRaw :: "gotime \<Rightarrow> byte list \<Rightarrow> byte list \<Rightarrow> open_error + (Envelope \<times> byte list)" where
  "OpenEnvelopeRaw now data gossipKey =
     (case unmarshal Envelope_member \<lparr>en_MessageType = [], en_Nonce = [], en_Ciphertext = []\<rparr> data of
        None \<Rightarrow> Inl BadEnvelope
      | Some env \<Rightarrow>
          if length (en_Nonce env) \<noteq> NonceSize then Inl (BadNonceSize (length (en_Nonce env)))
          else case gcm_open gossipKey (en_Nonce env) (en_Ciphertext env) of
            None \<Rightarrow> Inl DecryptionFailed
          | Some plaintext \<Rightarrow>
              (case unmarshal meta_member ([], 0) plaintext of
                 None \<Rightarrow> Inl BadMetadata
               | Some (protocol, timestamp) \<Rightarrow>
                   if protocol \<noteq> ProtocolVersion then Inl (BadProtocol protocol)
                   else if time_sub now (time_unix timestamp) > MaxMessageAge then Inl TooOld
                   else if time_unix timestamp > now + MaxMessageAge then Inl InFuture
                   else Inr (env, plaintext)))"

definition OpenEnvelope :: "gotime \<Rightarrow> byte list \<Rightarrow> byte list \<Rightarrow> open_error + (Envelope \<times> PeerAnnouncement)" where
  "OpenEnvelope now data gossipKey =
     and_then (OpenEnvelopeRaw now data gossipKey) (\<lambda>(env, plaintext).
       case unmarshal PeerAnnouncement_member zero_announcement plaintext of
         None \<Rightarrow> Inl BadAnnouncement
       | Some ann \<Rightarrow>
           (case PeerAnnouncement_Validate ann of
              Some e \<Rightarrow> Inl (InvalidAnnouncement e)
            | None \<Rightarrow> Inr (env, ann)))"

section \<open>Encryption of the state file\<close>

type_synonym pbkdf2 = "string \<Rightarrow> byte list \<Rightarrow> nat \<Rightarrow> nat \<Rightarrow> byte list"

definition saltSize :: nat where "saltSize = 32"
definition iterations :: nat where "iterations = 100000"
definition keySize :: nat where "keySize = 32"

text \<open>The random salt and nonce are None when the source of randomness fails.\<close>

definition Encrypt :: "pbkdf2 \<Rightarrow> byte list option \<Rightarrow> byte list option \<Rightarrow> byte list \<Rightarrow> string \<Rightarrow> string option" where
  "Encrypt kdf rsalt rnonce plaintext password =
     (case rsalt of None \<Rightarrow> None
      | Some salt \<Rightarrow>
          (let key = kdf password salt iterations keySize in
           if length key \<noteq> 32 then None
           else case rnonce of None \<Rightarrow> None
             | Some nonce \<Rightarrow> Some (b64_encode True b64_std (salt @ nonce @ gcm_seal key nonce plaintext))))"

datatype decrypt_error = NotBase64 | TooShort | NoCipher | CiphertextTooShort | WrongPassword

definition Decrypt :: "pbkdf2 \<Rightarrow> string \<Rightarrow> string \<Rightarrow> decrypt_error + byte list" where
  "Decrypt kdf encoded password =
     (case b64_decode encoded of
        None \<Rightarrow> Inl NotBase64
      | Some encrypted \<Rightarrow>
          if length encrypted < saltSize then Inl TooShort
          else (let salt = take saltSize encrypted; ct = drop saltSize encrypted;
                    key = kdf password salt iterations keySize
                in if length key \<noteq> 32 then Inl NoCipher
                   else if length ct < NonceSize then Inl CiphertextTooShort
                   else case gcm_open key (take NonceSize ct) (drop NonceSize ct) of
                     None \<Rightarrow> Inl WrongPassword
                   | Some p \<Rightarrow> Inr p))"

section \<open>Secret rotation\<close>

record RotationAnnouncement =
  ra_NewSecretHash :: "byte list"
  ra_GracePeriod :: int
  ra_Timestamp :: int
  ra_Signature :: "byte list"

definition hex_bytes :: "byte list \<Rightarrow> string" where
  "hex_bytes bs = concat (map (\<lambda>b. [hex_digit (unat b div 16), hex_digit (unat b mod 16)]) bs)"

definition signRotation :: "byte list \<Rightarrow> RotationAnnouncement \<Rightarrow> byte list" where
  "signRotation membershipKey a = hmac_sha256 membershipKey
     (bytes_of (hex_bytes (ra_NewSecretHash a) @ ''|'' @ itoa (ra_GracePeriod a) @ ''|'' @ itoa (ra_Timestamp a)))"

text \<open>\<open>rnd\<close> is the rounding of the floating point conversion of the grace period.\<close>

definition GenerateRotationAnnouncement :: "(rat \<Rightarrow> rat) \<Rightarrow> gotime \<Rightarrow> byte list \<Rightarrow> string \<Rightarrow> duration \<Rightarrow> RotationAnnouncement" where
  "GenerateRotationAnnouncement rnd now oldMembershipKey newSecret gracePeriod =
     (let a = \<lparr>ra_NewSecretHash = sha256 (bytes_of newSecret), ra_GracePeriod = trunc_rat (seconds rnd gracePeriod),
               ra_Timestamp = unix_of now, ra_Signature = []\<rparr>
      in a\<lparr>ra_Signature := signRotation oldMembershipKey a\<rparr>)"

definition ValidateRotationAnnouncement :: "gotime \<Rightarrow> byte list \<Rightarrow> RotationAnnouncement \<Rightarrow> bool" where
  "ValidateRotationAnnouncement now oldMembershipKey a \<longleftrightarrow>
     \<not> time_sub now (time_unix (ra_Timestamp a)) > Hour
     \<and> \<not> time_unix (ra_Timestamp a) > now + Hour
     \<and> ra_Signature a = signRotation oldMembershipKey (a\<lparr>ra_Signature := []\<rparr>)"

definition VerifyNewSecret :: "string \<Rightarrow> RotationAnnouncement \<Rightarrow> bool" where
  "VerifyNewSecret newSecret a \<longleftrightarrow> sha256 (bytes_of newSecret) = ra_NewSecretHash a"

record RotationState =
  rs_OldSecret :: string
  rs_NewSecret :: string
  rs_GracePeriod :: duration
  rs_StartedAt :: gotime
  rs_Completed :: bool

definition IsInGracePeriod :: "gotime \<Rightarrow> RotationState \<Rightarrow> bool" where
  "IsInGracePeriod now rs \<longleftrightarrow> \<not> rs_Completed rs \<and> time_sub now (rs_StartedAt rs) < rs_GracePeriod rs"

definition ShouldComplete :: "gotime \<Rightarrow> RotationState \<Rightarrow> bool" where
  "ShouldComplete now rs \<longleftrightarrow> \<not> rs_Completed rs \<and> time_sub now (rs_StartedAt rs) \<ge> rs_GracePeriod rs"

section \<open>Lemmas\<close>

lemma text_of_bytes_of [simp]: "text_of (bytes_of s) = s"
  by (simp add: text_of_def bytes_of_def comp_def unat_of_char)

lemma set_members_append:
  "set_members f x (xs @ ys) = (case set_members f x xs of None \<Rightarrow> None | Some y \<Rightarrow> set_members f y ys)"
  by (induction f x xs rule: set_members.induct) (auto split: option.splits)

lemma key_folds [simp]:
  "fold_ascii ''protocol'' = ''protocol''" "fold_ascii ''wg_pubkey'' = ''wg_pubkey''"
  "fold_ascii ''hostname'' = ''hostname''" "fold_ascii ''mesh_ip'' = ''mesh_ip''"
  "fold_ascii ''mesh_ipv6'' = ''mesh_ipv6''" "fold_ascii ''wg_endpoint'' = ''wg_endpoint''"
  "fold_ascii ''introducer'' = ''introducer''" "fold_ascii ''routable_networks'' = ''routable_networks''"
  "fold_ascii ''timestamp'' = ''timestamp''" "fold_ascii ''known_peers'' = ''known_peers''"
  "fold_ascii ''observed_endpoint'' = ''observed_endpoint''" "fold_ascii ''nat_type'' = ''nat_type''"
  "fold_ascii ''type'' = ''type''" "fold_ascii ''nonce'' = ''nonce''" "fold_ascii ''ciphertext'' = ''ciphertext''"
  by (simp_all add: fold_ascii_def)

lemma those_map_Some: "(\<And>x. x \<in> set xs \<Longrightarrow> f (g x) = Some x) \<Longrightarrow> those (map f (map g xs)) = Some xs"
  by (induction xs) auto

lemma KnownPeer_roundtrip: "set_struct KnownPeer_member (KnownPeer_json kp) zero_known_peer = Some kp"
  by (simp add: KnownPeer_json_def set_members_append zero_known_peer_def KnownPeer_member_def key_is_def
      opt_str_def opt_bool_def)

lemma PeerAnnouncement_roundtrip:
  assumes "- 9223372036854775808 \<le> pa_Timestamp pa" "pa_Timestamp pa \<le> 9223372036854775807"
  shows "set_struct PeerAnnouncement_member (PeerAnnouncement_json pa) zero_announcement = Some pa"
proof -
  have nets: "those (map (\<lambda>v. set_string v []) (map JStr ws)) = Some ws" for ws
    by (rule those_map_Some) simp
  have peers: "those (map (\<lambda>v. set_struct KnownPeer_member v zero_known_peer) (map KnownPeer_json ks)) = Some ks" for ks
    by (rule those_map_Some) (rule KnownPeer_roundtrip)
  show ?thesis
    using nets [of "pa_RoutableNetworks pa"] peers [of "pa_KnownPeers pa"]
    by (simp add: PeerAnnouncement_json_def set_members_append zero_announcement_def PeerAnnouncement_member_def key_is_def
        opt_str_def opt_bool_def opt_arr_def atoi_itoa [OF assms] del: map_map)
qed

definition KnownPeer_utf8 :: "KnownPeer \<Rightarrow> bool" where
  "KnownPeer_utf8 kp \<longleftrightarrow> list_all utf8_valid
     [kp_WGPubKey kp, kp_Hostname kp, kp_MeshIP kp, kp_MeshIPv6 kp, kp_WGEndpoint kp, kp_NATType kp]"

definition announcement_utf8 :: "PeerAnnouncement \<Rightarrow> bool" where
  "announcement_utf8 pa \<longleftrightarrow> list_all utf8_valid
     ([pa_Protocol pa, pa_WGPubKey pa, pa_Hostname pa, pa_MeshIP pa, pa_MeshIPv6 pa, pa_WGEndpoint pa,
       pa_ObservedEndpoint pa, pa_NATType pa] @ pa_RoutableNetworks pa) \<and> list_all KnownPeer_utf8 (pa_KnownPeers pa)"

lemma ascii_utf8: "list_all (\<lambda>c. ord_c c < 128) s \<Longrightarrow> utf8_valid s"
proof (induction s)
  case (Cons c s)
  moreover from this have "rune_len (c # s) = 1" by (simp add: rune_len_def)
  ultimately show ?case by simp
qed simp

lemma b64_utf8 [simp]: "utf8_valid (b64_encode True b64_std bs)"
proof (rule ascii_utf8)
  have "list_all (\<lambda>c. ord_c c < 128) b64_std" by (simp add: b64_std_def)
  then show "list_all (\<lambda>c. ord_c c < 128) (b64_encode True b64_std bs)"
    using b64_encode_chars [OF b64_std_distinct(2), of True bs] by (auto simp: list_all_iff)
qed

lemma literal_utf8: "list_all (\<lambda>k. utf8_valid k)
   [''protocol'', ''wg_pubkey'', ''hostname'', ''mesh_ip'', ''mesh_ipv6'', ''wg_endpoint'', ''introducer'',
    ''routable_networks'', ''timestamp'', ''known_peers'', ''observed_endpoint'', ''nat_type'', ''type'', ''nonce'', ''ciphertext'']"
  unfolding list_all_iff by (intro ballI ascii_utf8) auto

lemma KnownPeer_json_wf: "KnownPeer_utf8 kp \<Longrightarrow> json_wf (KnownPeer_json kp)"
  using literal_utf8
  by (simp add: KnownPeer_utf8_def KnownPeer_json_def opt_str_def opt_bool_def)

lemma PeerAnnouncement_json_wf:
  assumes "announcement_utf8 pa" "- 9223372036854775808 \<le> pa_Timestamp pa" "pa_Timestamp pa \<le> 9223372036854775807"
  shows "json_wf (PeerAnnouncement_json pa)"
proof -
  have "list_all json_wf (map KnownPeer_json (pa_KnownPeers pa))" "list_all json_wf (map JStr (pa_RoutableNetworks pa))"
    using assms(1) KnownPeer_json_wf by (auto simp: announcement_utf8_def list_all_iff)
  moreover have "int_literal (itoa (pa_Timestamp pa))" by (simp add: int_literal_def atoi_itoa [OF assms(2,3)])
  ultimately show ?thesis
    using assms(1) literal_utf8
    by (simp add: announcement_utf8_def PeerAnnouncement_json_def opt_str_def opt_bool_def opt_arr_def)
qed

lemma unmarshal_text: "json_wf v \<Longrightarrow> unmarshal f z (bytes_of (json_text v)) = set_struct f v z"
  by (simp add: unmarshal_def json_parse_text)

lemma Envelope_roundtrip:
  "utf8_valid mt \<Longrightarrow> unmarshal Envelope_member z (bytes_of (json_text (Envelope_json
     \<lparr>en_MessageType = mt, en_Nonce = nonce, en_Ciphertext = ct\<rparr>)))
   = Some \<lparr>en_MessageType = mt, en_Nonce = nonce, en_Ciphertext = ct\<rparr>"
  using literal_utf8
  by (subst unmarshal_text) (cases z; simp add: Envelope_json_def Envelope_member_def key_is_def)+

lemma meta_announcement:
  "PeerAnnouncement_member a k v = Some b \<Longrightarrow>
   meta_member (pa_Protocol a, pa_Timestamp a) k v = Some (pa_Protocol b, pa_Timestamp b)"
  by (auto simp: PeerAnnouncement_member_def meta_member_def key_is_def split: if_splits)

lemma meta_members:
  "set_members PeerAnnouncement_member a kvs = Some b \<Longrightarrow>
   set_members meta_member (pa_Protocol a, pa_Timestamp a) kvs = Some (pa_Protocol b, pa_Timestamp b)"
proof (induction kvs arbitrary: a)
  case (Cons kv kvs)
  obtain k v where "kv = (k, v)" by (cases kv)
  with Cons show ?case by (auto dest!: meta_announcement split: option.splits)
qed simp

lemma meta_of_announcement:
  "set_struct PeerAnnouncement_member v zero_announcement = Some a \<Longrightarrow>
   set_struct meta_member v ([], 0) = Some (pa_Protocol a, pa_Timestamp a)"
  using meta_members [of zero_announcement _ a] by (cases v) (auto simp: zero_announcement_def)

lemma first_error_None: "first_error es = None \<longleftrightarrow> list_all (\<lambda>e. e = None) es"
  by (induction es) (auto simp: first_error_def List.map_filter_def split: list.splits)

lemma fresh_iff:
  "\<not> time_sub now t > MaxMessageAge \<longleftrightarrow> now - t \<le> MaxMessageAge"
  by (auto simp: time_sub_def max_duration_def min_duration_def MaxMessageAge_def Minute_def)

definition valid_known_peer :: "KnownPeer \<Rightarrow> bool" where
  "valid_known_peer kp \<longleftrightarrow> (\<exists>d. b64_decode (kp_WGPubKey kp) = Some d \<and> length d = 32) \<and> parse_ip (kp_MeshIP kp) \<noteq> None
     \<and> (kp_WGEndpoint kp \<noteq> [] \<longrightarrow> validateEndpoint (kp_WGEndpoint kp) = None)"

lemma validateWGPubKey_None: "validateWGPubKey k = None \<Longrightarrow> \<exists>d. b64_decode k = Some d \<and> length d = 32"
  by (auto simp: validateWGPubKey_def split: if_splits option.splits)

lemma validateMeshIP_None: "validateMeshIP k = None \<Longrightarrow> parse_ip k \<noteq> None"
  by (auto simp: validateMeshIP_def split: if_splits option.splits)

lemma KnownPeer_valid: "KnownPeer_Validate kp = None \<Longrightarrow> valid_known_peer kp"
  unfolding KnownPeer_Validate_def first_error_None valid_known_peer_def
  by (auto dest: validateWGPubKey_None validateMeshIP_None)

lemma list_all_enumerate: "list_all (\<lambda>e. e = None) (map (\<lambda>(i, x). f i x) (enumerate n xs)) \<Longrightarrow> x \<in> set xs \<Longrightarrow> \<exists>i. f i x = None"
  by (induction xs arbitrary: n) auto

lemma sealed_opens:
  assumes "length key = 32" "length nonce = 12" "utf8_valid mt" "json_wf v"
    and "set_struct meta_member v ([], 0) = Some (ProtocolVersion, ts)"
    and "now - time_unix ts \<le> MaxMessageAge" "time_unix ts - now \<le> MaxMessageAge"
  shows "\<exists>data env. SealEnvelope (Some nonce) mt v key = Some data
    \<and> OpenEnvelopeRaw now data key = Inr (env, bytes_of (json_text v)) \<and> en_MessageType env = mt"
proof -
  let ?pt = "bytes_of (json_text v)"
  let ?env = "\<lparr>en_MessageType = mt, en_Nonce = nonce, en_Ciphertext = gcm_seal key nonce ?pt\<rparr>"
  have "unmarshal meta_member ([], 0) ?pt = Some (ProtocolVersion, ts)"
    by (simp add: unmarshal_text [OF assms(4)] assms(5))
  then have "OpenEnvelopeRaw now (bytes_of (json_text (Envelope_json ?env))) key = Inr (?env, ?pt)"
    using assms(2,6,7) fresh_iff [of now "time_unix ts"]
    by (simp add: OpenEnvelopeRaw_def Envelope_roundtrip [OF assms(3)] NonceSize_def gcm_roundtrip [OF assms(1)])
  then show ?thesis by (simp add: SealEnvelope_def)
qed

lemma sealed_announcement:
  assumes "length key = 32" "length nonce = 12" "utf8_valid mt"
    and "announcement_utf8 pa" "pa_Protocol pa = ProtocolVersion"
    and "- 9223372036854775808 \<le> pa_Timestamp pa" "pa_Timestamp pa \<le> 9223372036854775807"
    and "now - time_unix (pa_Timestamp pa) \<le> MaxMessageAge" "time_unix (pa_Timestamp pa) - now \<le> MaxMessageAge"
  shows "\<exists>data env pt. SealEnvelope (Some nonce) mt (PeerAnnouncement_json pa) key = Some data
    \<and> OpenEnvelopeRaw now data key = Inr (env, pt) \<and> en_MessageType env = mt
    \<and> unmarshal PeerAnnouncement_member zero_announcement pt = Some pa"
proof -
  note wf = PeerAnnouncement_json_wf [OF assms(4,6,7)]
  note rt = PeerAnnouncement_roundtrip [OF assms(6,7)]
  have "set_struct meta_member (PeerAnnouncement_json pa) ([], 0) = Some (ProtocolVersion, pa_Timestamp pa)"
    using meta_of_announcement [OF rt] by (simp add: assms(5))
  from sealed_opens [OF assms(1-3) wf this assms(8,9)] show ?thesis
    using unmarshal_text [OF wf, of PeerAnnouncement_member zero_announcement] rt by auto
qed

lemma seal_open:
  assumes "length key = 32" "length nonce = 12" "utf8_valid mt"
    and "announcement_utf8 pa" "PeerAnnouncement_Validate pa = None" "pa_Protocol pa = ProtocolVersion"
    and "- 9223372036854775808 \<le> pa_Timestamp pa" "pa_Timestamp pa \<le> 9223372036854775807"
    and "now - time_unix (pa_Timestamp pa) \<le> MaxMessageAge" "time_unix (pa_Timestamp pa) - now \<le> MaxMessageAge"
  shows "\<exists>data env. SealEnvelope (Some nonce) mt (PeerAnnouncement_json pa) key = Some data
    \<and> OpenEnvelope now data key = Inr (env, pa) \<and> en_MessageType env = mt"
  using sealed_announcement [OF assms(1-4,6-10)] assms(5) by (auto simp: OpenEnvelope_def)

section \<open>Properties\<close>

text \<open>
  C24. Sealing and opening are inverse: an announcement that is valid, in UTF-8, of the current
  protocol and with a timestamp less than ten minutes from the receiver's clock either way is
  opened by every holder of the key as exactly the announcement that was sealed, for every nonce
  and every message type, through both layers of JSON, base64 and AES-GCM.
\<close>

theorem envelope_roundtrip:
  assumes "length key = 32" "length nonce = 12" "utf8_valid mt"
    and "announcement_utf8 pa" "PeerAnnouncement_Validate pa = None" "pa_Protocol pa = ProtocolVersion"
    and "- 9223372036854775808 \<le> pa_Timestamp pa" "pa_Timestamp pa \<le> 9223372036854775807"
    and "now - time_unix (pa_Timestamp pa) \<le> MaxMessageAge" "time_unix (pa_Timestamp pa) - now \<le> MaxMessageAge"
  shows "\<exists>data env. SealEnvelope (Some nonce) mt (PeerAnnouncement_json pa) key = Some data
    \<and> OpenEnvelope now data key = Inr (env, pa) \<and> en_MessageType env = mt"
  by (rule seal_open [OF assms])

definition sample_announcement :: PeerAnnouncement where
  "sample_announcement = zero_announcement\<lparr>pa_Protocol := ProtocolVersion,
     pa_WGPubKey := b64_encode True b64_std (replicate 32 7), pa_MeshIP := ''10.1.2.3'', pa_Timestamp := 1000\<rparr>"

lemma sample_announcement_valid: "PeerAnnouncement_Validate sample_announcement = None"
proof -
  have "b64_decode [] = Some []" by code_simp
  then have "b64_encode True b64_std (replicate 32 7) \<noteq> []"
    using b64_decode_encode [of "replicate 32 7"] by (intro notI) (simp only: option.inject, simp)
  then have "validateWGPubKey (pa_WGPubKey sample_announcement) = None"
    by (simp add: validateWGPubKey_def sample_announcement_def)
  moreover have "validateMeshIP ''10.1.2.3'' = None" by code_simp
  then have "validateMeshIP (pa_MeshIP sample_announcement) = None"
    by (simp add: sample_announcement_def)
  ultimately show ?thesis
    by (simp add: PeerAnnouncement_Validate_def first_error_None)
      (simp add: sample_announcement_def zero_announcement_def MaxRoutableNetworks_def MaxKnownPeers_def)
qed

lemma sample_announcement_utf8: "announcement_utf8 sample_announcement"
  by (simp add: announcement_utf8_def sample_announcement_def zero_announcement_def ProtocolVersion_def rune_len_def)

lemma sample_announcement_fields:
  "pa_Protocol sample_announcement = ProtocolVersion" "pa_Timestamp sample_announcement = 1000"
  by (simp_all add: sample_announcement_def)

theorem envelope_roundtrip_witness:
  "\<exists>data env. SealEnvelope (Some (replicate 12 1)) ''HELLO'' (PeerAnnouncement_json sample_announcement) (replicate 32 9) = Some data
    \<and> OpenEnvelope (1100 * Second) data (replicate 32 9) = Inr (env, sample_announcement) \<and> en_MessageType env = ''HELLO''"
  by (rule envelope_roundtrip [OF _ _ _ sample_announcement_utf8 sample_announcement_valid])
    (simp_all add: sample_announcement_fields rune_len_def time_unix_def Second_def MaxMessageAge_def Minute_def)

text \<open>
  C25. Nothing unchecked comes out of an envelope: whatever bytes arrive, an announcement that
  OpenEnvelope returns was authenticated under the key, is of the protocol and at most ten minutes
  old or ahead, has a public key of 32 bytes, an IP address as mesh address, an endpoint with a
  port in range if any, at most 100 networks that are CIDR prefixes and at most 1000 known peers
  that satisfy the same.
\<close>

theorem open_envelope_sound:
  assumes "OpenEnvelope now data key = Inr (env, pa)"
  shows "gcm_open key (en_Nonce env) (en_Ciphertext env) \<noteq> None \<and> length (en_Nonce env) = 12
    \<and> pa_Protocol pa = ProtocolVersion
    \<and> now - time_unix (pa_Timestamp pa) \<le> MaxMessageAge \<and> time_unix (pa_Timestamp pa) - now \<le> MaxMessageAge
    \<and> (\<exists>d. b64_decode (pa_WGPubKey pa) = Some d \<and> length d = 32) \<and> parse_ip (pa_MeshIP pa) \<noteq> None
    \<and> (pa_WGEndpoint pa \<noteq> [] \<longrightarrow> validateEndpoint (pa_WGEndpoint pa) = None)
    \<and> length (pa_RoutableNetworks pa) \<le> 100 \<and> (\<forall>c \<in> set (pa_RoutableNetworks pa). parse_cidr c \<noteq> None)
    \<and> length (pa_KnownPeers pa) \<le> 1000 \<and> (\<forall>kp \<in> set (pa_KnownPeers pa). valid_known_peer kp)"
proof -
  obtain pt where raw: "OpenEnvelopeRaw now data key = Inr (env, pt)"
    and ann: "unmarshal PeerAnnouncement_member zero_announcement pt = Some pa"
    and val: "PeerAnnouncement_Validate pa = None"
    using assms by (auto simp: OpenEnvelope_def and_then_Inr split: option.splits)
  obtain v where v: "json_parse (text_of pt) = Some v" "set_struct PeerAnnouncement_member v zero_announcement = Some pa"
    using ann by (auto simp: unmarshal_def split: option.splits)
  have meta: "unmarshal meta_member ([], 0) pt = Some (pa_Protocol pa, pa_Timestamp pa)"
    using meta_of_announcement [OF v(2)] v(1) by (simp add: unmarshal_def)
  have "gcm_open key (en_Nonce env) (en_Ciphertext env) = Some pt \<and> length (en_Nonce env) = 12
    \<and> pa_Protocol pa = ProtocolVersion \<and> \<not> time_sub now (time_unix (pa_Timestamp pa)) > MaxMessageAge
    \<and> \<not> time_unix (pa_Timestamp pa) > now + MaxMessageAge"
    using raw by (auto simp: OpenEnvelopeRaw_def meta NonceSize_def split: option.splits if_splits)
  moreover have "(\<exists>d. b64_decode (pa_WGPubKey pa) = Some d \<and> length d = 32) \<and> parse_ip (pa_MeshIP pa) \<noteq> None
    \<and> (pa_WGEndpoint pa \<noteq> [] \<longrightarrow> validateEndpoint (pa_WGEndpoint pa) = None)
    \<and> length (pa_RoutableNetworks pa) \<le> 100 \<and> length (pa_KnownPeers pa) \<le> 1000"
    using val unfolding PeerAnnouncement_Validate_def first_error_None
    by (auto dest: validateWGPubKey_None validateMeshIP_None simp: MaxRoutableNetworks_def MaxKnownPeers_def split: if_splits)
  moreover have "parse_cidr c \<noteq> None" if "c \<in> set (pa_RoutableNetworks pa)" for c
    using val list_all_enumerate [OF _ that, of "\<lambda>i c. if parse_cidr c = None then Some (BadCIDR i) else None" 0]
    unfolding PeerAnnouncement_Validate_def first_error_None by (auto split: if_splits)
  moreover have "valid_known_peer kp" if "kp \<in> set (pa_KnownPeers pa)" for kp
    using val list_all_enumerate [OF _ that, of "\<lambda>i kp. map_option (PeerError i) (KnownPeer_Validate kp)" 0] KnownPeer_valid [of kp]
    unfolding PeerAnnouncement_Validate_def first_error_None by auto
  ultimately show ?thesis using fresh_iff [of now "time_unix (pa_Timestamp pa)"] by auto
qed

theorem open_envelope_sound_witness:
  "\<exists>data env pa. OpenEnvelope (1100 * Second) data (replicate 32 9) = Inr (env, pa) \<and> parse_ip (pa_MeshIP pa) \<noteq> None
     \<and> gcm_open (replicate 32 9) (en_Nonce env) (en_Ciphertext env) \<noteq> None"
proof -
  obtain data env where o: "OpenEnvelope (1100 * Second) data (replicate 32 9) = Inr (env, sample_announcement)"
    using seal_open [of "replicate 32 9" "replicate 12 1" "''HELLO''" sample_announcement "1100 * Second",
        OF _ _ _ sample_announcement_utf8 sample_announcement_valid]
    by (auto simp: sample_announcement_fields rune_len_def time_unix_def Second_def MaxMessageAge_def Minute_def)
  from open_envelope_sound [OF o] o show ?thesis by blast
qed

text \<open>
  The encrypted state file can be read back with its password: decryption of what Encrypt
  returns gives the plaintext, for every salt of 32 and nonce of 12 random bytes and every key
  derivation function that returns keys of the length it is asked for.
\<close>

theorem encrypt_roundtrip:
  assumes "\<And>p s it n. length (kdf p s it n) = n" "length salt = 32" "length nonce = 12"
  shows "\<exists>enc. Encrypt kdf (Some salt) (Some nonce) plaintext password = Some enc
    \<and> Decrypt kdf enc password = Inr plaintext"
proof -
  let ?key = "kdf password salt iterations keySize"
  have key: "length ?key = 32" by (simp add: assms(1) keySize_def)
  show ?thesis
    using key assms(2,3) by (simp add: Encrypt_def Decrypt_def Let_def saltSize_def NonceSize_def gcm_roundtrip [OF key])
qed

theorem encrypt_roundtrip_witness:
  "\<exists>enc. Encrypt (\<lambda>p s it n. replicate n 5) (Some (replicate 32 1)) (Some (replicate 12 2)) [1, 2, 3] ''pw'' = Some enc
    \<and> Decrypt (\<lambda>p s it n. replicate n 5) enc ''pw'' = Inr [1, 2, 3]"
  by (rule encrypt_roundtrip) simp_all

text \<open>
  A rotation announcement is accepted by every node with the old membership key for an hour
  either way and tells the new secret: what GenerateRotationAnnouncement makes validates while
  the clocks are less than an hour apart and verifies the new secret; and whatever validates
  carries the MAC of its own hash, grace period and timestamp, and is at most an hour old or ahead.
\<close>

theorem rotation_announcement_valid:
  "(\<bar>now' - now\<bar> \<le> Hour - Second \<longrightarrow>
      ValidateRotationAnnouncement now' key (GenerateRotationAnnouncement rnd now key newSecret grace))
   \<and> VerifyNewSecret newSecret (GenerateRotationAnnouncement rnd now key newSecret grace)
   \<and> (ValidateRotationAnnouncement now' key a \<longrightarrow>
      ra_Signature a = hmac_sha256 key (bytes_of (hex_bytes (ra_NewSecretHash a) @ ''|'' @ itoa (ra_GracePeriod a)
        @ ''|'' @ itoa (ra_Timestamp a))) \<and> \<bar>now' - time_unix (ra_Timestamp a)\<bar> \<le> Hour)"
proof -
  have "time_unix (unix_of now) \<le> now" "now - time_unix (unix_of now) < Second"
    using pos_mod_bound [of Second now] pos_mod_sign [of Second now] minus_mult_div_eq_mod [of now Second]
    by (simp_all add: time_unix_def unix_of_def Second_def mult.commute)
  then have near: "now' - time_unix (unix_of now) \<le> Hour" "time_unix (unix_of now) \<le> now' + Hour"
    if "\<bar>now' - now\<bar> \<le> Hour - Second"
    using that by linarith+
  have fresh: "Hour < time_sub now' t \<longleftrightarrow> Hour < now' - t" for t
    by (auto simp: time_sub_def max_duration_def min_duration_def Hour_def)
  have "ValidateRotationAnnouncement now' key (GenerateRotationAnnouncement rnd now key newSecret grace)"
    if "\<bar>now' - now\<bar> \<le> Hour - Second"
    using near [OF that]
    by (simp add: ValidateRotationAnnouncement_def GenerateRotationAnnouncement_def signRotation_def Let_def fresh)
  moreover have "VerifyNewSecret newSecret (GenerateRotationAnnouncement rnd now key newSecret grace)"
    by (simp add: VerifyNewSecret_def GenerateRotationAnnouncement_def Let_def)
  moreover have "ra_Signature a = signRotation key a" "\<bar>now' - time_unix (ra_Timestamp a)\<bar> \<le> Hour"
    if "ValidateRotationAnnouncement now' key a"
    using that by (simp_all add: ValidateRotationAnnouncement_def signRotation_def fresh abs_le_iff)
  ultimately show ?thesis by (simp add: signRotation_def)
qed

theorem rotation_announcement_valid_witness:
  "ValidateRotationAnnouncement (2 * Hour) [1, 2] (GenerateRotationAnnouncement (\<lambda>x. x) (2 * Hour - Minute) [1, 2] ''new secret'' Hour)"
  using rotation_announcement_valid [of "2 * Hour" "2 * Hour - Minute" "[1, 2]" "\<lambda>x. x" "''new secret''" Hour]
  by (simp add: Hour_def Minute_def Second_def)

end
