(* ===== verification/PeerStore.thy ===== *)
theory PeerStore
  imports GoNet
begin

text \<open>
  The peer store of pkg/node/store.go and the shared types of pkg/node/types.go: the table of
  discovered peers with its merge rules, the clean-up of stale peers, and the change
  notifications that are sent without blocking to the channels of the subscribers.
  Channels live in a heap, because a channel that has been unsubscribed (and closed) may still
  be in the copy that a running notification works through.
\<close>

section \<open>Types and constants\<close>

record PeerInfo =
  WGPubKey :: string
  Hostname :: string
  MeshIP :: string
  MeshIPv6 :: string
  Endpoint :: string
  Introducer :: bool
  RoutableNetworks :: "string list"
  LastSeen :: gotime
  DiscoveredVia :: "string list"
  Latency :: "duration option"
  NATType :: string
  EndpointMethod :: string

record LocalNode =
  ln_WGPubKey :: string
  ln_WGPrivateKey :: string
  ln_MeshIP :: string
  ln_MeshIPv6 :: string
  ln_RoutableNetworks :: "string list"
  ln_Introducer :: bool
  ln_NATType :: string
  ln_Hostname :: string
  ln_wgEndpoint :: string

definition GetEndpoint :: "LocalNode \<Rightarrow> string" where
  "GetEndpoint n = ln_wgEndpoint n"

definition SetEndpoint :: "LocalNode \<Rightarrow> string \<Rightarrow> LocalNode" where
  "SetEndpoint n ep = n\<lparr>ln_wgEndpoint := ep\<rparr>"

definition PeerDeadTimeout :: duration where "PeerDeadTimeout = 5 * Minute"
definition PeerRemoveTimeout :: duration where "PeerRemoveTimeout = 10 * Minute"
definition PeerEventBufSize :: nat where "PeerEventBufSize = 16"
definition DefaultMaxPeers :: nat where "DefaultMaxPeers = 1000"
definition LANMethod :: string where "LANMethod = ''lan''"
definition RendezvousMethod :: string where "RendezvousMethod = ''dht-rendezvous''"

datatype PeerEventKind = PeerEventNew | PeerEventUpdated

record PeerEvent =
  PubKey :: string
  Kind :: PeerEventKind

record channel =
  ch_buf :: "PeerEvent list"
  ch_closed :: bool

record PeerStore =
  peers :: "(string, PeerInfo) gomap"
  subscribers :: "nat list"
  chans :: "(nat, channel) gomap"
  next_chan :: nat

definition NewPeerStore :: PeerStore where
  "NewPeerStore = \<lparr>peers = fmempty, subscribers = [], chans = fmempty, next_chan = 0\<rparr>"

section \<open>Endpoint ranking\<close>

definition isTransitiveMethod :: "string \<Rightarrow> bool" where
  "isTransitiveMethod m \<longleftrightarrow> contains m ''transitive''"

definition shouldRefreshLastSeen :: "string \<Rightarrow> bool" where
  "shouldRefreshLastSeen m =
     (if m = ''cache'' then False else if isTransitiveMethod m then False else True)"

definition endpointMethodRank :: "string \<Rightarrow> int" where
  "endpointMethodRank m =
     (if m = [] then 0
      else if m = LANMethod then 100
      else if contains m RendezvousMethod then 90
      else if m = ''dht'' then 70
      else if contains m ''dht-transitive'' then 40
      else if has_prefix m ''gossip'' then (if contains m ''transitive'' then 35 else 65)
      else if m = ''cache'' then 20
      else 30)"

definition isIPv6EndpointValue :: "string \<Rightarrow> bool" where
  "isIPv6EndpointValue ep =
     (case split_host_port ep of
        None \<Rightarrow> False
      | Some (h, _) \<Rightarrow> (case parse_ip h of None \<Rightarrow> False | Some ip \<Rightarrow> to4 ip = None))"

definition shouldUpdateEndpoint :: "PeerInfo \<Rightarrow> string \<Rightarrow> string \<Rightarrow> bool" where
  "shouldUpdateEndpoint existing newEndpoint discoveryMethod =
     (if Endpoint existing = [] then True
      else let newRank = endpointMethodRank discoveryMethod;
               oldRank = endpointMethodRank (EndpointMethod existing)
      in if newRank > oldRank then True
      else if newRank < oldRank then False
      else let newIsV6 = isIPv6EndpointValue newEndpoint;
               oldIsV6 = isIPv6EndpointValue (Endpoint existing)
      in if newIsV6 \<and> \<not> oldIsV6 then True
      else if oldIsV6 \<and> \<not> newIsV6 then False
      else if oldRank = endpointMethodRank LANMethod then discoveryMethod = LANMethod
      else True)"

section \<open>Channels\<close>

text \<open>
  A send in a select with a default case: it panics on a closed channel, stores the event when
  the buffer has room, and otherwise drops it.
\<close>

definition chan_try_send :: "(nat, channel) gomap \<Rightarrow> nat \<Rightarrow> PeerEvent \<Rightarrow> (nat, channel) gomap go" where
  "chan_try_send h c ev =
     (case fmlookup h c of
        None \<Rightarrow> Inr h
      | Some ch \<Rightarrow>
          if ch_closed ch then Inl SendOnClosed
          else if length (ch_buf ch) < PeerEventBufSize
          then Inr (fmupd c (ch\<lparr>ch_buf := ch_buf ch @ [ev]\<rparr>) h)
          else Inr h)"

fun send_all :: "(nat, channel) gomap \<Rightarrow> nat list \<Rightarrow> PeerEvent \<Rightarrow> (nat, channel) gomap go" where
  "send_all h [] ev = Inr h"
| "send_all h (c # cs) ev =
     (case chan_try_send h c ev of Inl p \<Rightarrow> Inl p | Inr h' \<Rightarrow> send_all h' cs ev)"

definition chan_close :: "(nat, channel) gomap \<Rightarrow> nat \<Rightarrow> (nat, channel) gomap go" where
  "chan_close h c =
     (case fmlookup h c of
        None \<Rightarrow> Inl NilDereference
      | Some ch \<Rightarrow> if ch_closed ch then Inl CloseOfClosed else Inr (fmupd c (ch\<lparr>ch_closed := True\<rparr>) h))"

text \<open>A receiver takes the oldest event of a channel.\<close>

definition chan_recv :: "PeerStore \<Rightarrow> nat \<Rightarrow> (PeerEvent \<times> PeerStore) option" where
  "chan_recv ps c =
     (case fmlookup (chans ps) c of
        None \<Rightarrow> None
      | Some ch \<Rightarrow> (case ch_buf ch of [] \<Rightarrow> None
          | ev # evs \<Rightarrow> Some (ev, ps\<lparr>chans := fmupd c (ch\<lparr>ch_buf := evs\<rparr>) (chans ps)\<rparr>)))"

definition PeerStore_Subscribe :: "PeerStore \<Rightarrow> nat \<times> PeerStore" where
  "PeerStore_Subscribe ps =
     (let c = next_chan ps in
      (c, ps\<lparr>subscribers := subscribers ps @ [c],
             chans := fmupd c \<lparr>ch_buf = [], ch_closed = False\<rparr> (chans ps),
             next_chan := Suc c\<rparr>))"

definition PeerStore_Unsubscribe :: "PeerStore \<Rightarrow> nat \<Rightarrow> PeerStore go" where
  "PeerStore_Unsubscribe ps c =
     (if c \<in> set (subscribers ps)
      then case chan_close (chans ps) c of
          Inl p \<Rightarrow> Inl p
        | Inr h \<Rightarrow> Inr (ps\<lparr>subscribers := remove1 c (subscribers ps), chans := h\<rparr>)
      else Inr ps)"

definition PeerStore_notify :: "PeerStore \<Rightarrow> string \<Rightarrow> PeerEventKind \<Rightarrow> PeerStore go" where
  "PeerStore_notify ps k kind =
     (case send_all (chans ps) (subscribers ps) \<lparr>PubKey = k, Kind = kind\<rparr> of
        Inl p \<Rightarrow> Inl p
      | Inr h \<Rightarrow> Inr (ps\<lparr>chans := h\<rparr>))"

section \<open>Operations on the table\<close>

text \<open>The merge of a report into an existing entry, in the order of the assignments.\<close>

definition merge_endpoint :: "PeerInfo \<Rightarrow> PeerInfo \<Rightarrow> string \<Rightarrow> PeerInfo" where
  "merge_endpoint ex info m =
     (if Endpoint info \<noteq> [] \<and> shouldUpdateEndpoint ex (Endpoint info) m
      then ex\<lparr>Endpoint := Endpoint info, EndpointMethod := m\<rparr> else ex)"

definition merge_fields :: "PeerInfo \<Rightarrow> PeerInfo \<Rightarrow> PeerInfo" where
  "merge_fields ex info =
     ex\<lparr>RoutableNetworks := (if RoutableNetworks info \<noteq> [] then RoutableNetworks info else RoutableNetworks ex),
        MeshIP := (if MeshIP info \<noteq> [] then MeshIP info else MeshIP ex),
        MeshIPv6 := (if MeshIPv6 info \<noteq> [] then MeshIPv6 info else MeshIPv6 ex),
        Hostname := (if Hostname info \<noteq> [] then Hostname info else Hostname ex),
        Introducer := Introducer info,
        NATType := (if NATType info \<noteq> [] then NATType info else NATType ex)\<rparr>"

definition merge_seen :: "gotime \<Rightarrow> PeerInfo \<Rightarrow> PeerInfo \<Rightarrow> string \<Rightarrow> PeerInfo" where
  "merge_seen now ex info m =
     ex\<lparr>LastSeen := (if shouldRefreshLastSeen m then now
          else if \<not> is_zero (LastSeen info) \<and> LastSeen info > LastSeen ex then LastSeen info
          else LastSeen ex),
        DiscoveredVia := (if m \<in> set (DiscoveredVia ex) then DiscoveredVia ex
          else DiscoveredVia ex @ [m])\<rparr>"

definition merge_peer :: "gotime \<Rightarrow> PeerInfo \<Rightarrow> PeerInfo \<Rightarrow> string \<Rightarrow> PeerInfo" where
  "merge_peer now ex info m = merge_seen now (merge_fields (merge_endpoint ex info m) info) info m"

definition new_peer :: "gotime \<Rightarrow> PeerInfo \<Rightarrow> string \<Rightarrow> PeerInfo" where
  "new_peer now info m =
     info\<lparr>LastSeen := (if is_zero (LastSeen info) then now else LastSeen info),
          DiscoveredVia := [m],
          EndpointMethod := (if Endpoint info \<noteq> [] then m else EndpointMethod info)\<rparr>"

text \<open>
  The critical section of Update: the new table and the event that is to be sent, if any.
\<close>

definition update_locked :: "gotime \<Rightarrow> PeerStore \<Rightarrow> PeerInfo \<Rightarrow> string \<Rightarrow> PeerStore \<times> PeerEvent option" where
  "update_locked now ps info m =
     (let k = WGPubKey info;
          ev = (\<lambda>kind. if k \<noteq> [] then Some \<lparr>PubKey = k, Kind = kind\<rparr> else None) in
      case fmlookup (peers ps) k of
        None \<Rightarrow>
          if go_len (peers ps) \<ge> DefaultMaxPeers then (ps, None)
          else (ps\<lparr>peers := fmupd k (new_peer now info m) (peers ps)\<rparr>, ev PeerEventNew)
      | Some ex \<Rightarrow> (ps\<lparr>peers := fmupd k (merge_peer now ex info m) (peers ps)\<rparr>, ev PeerEventUpdated))"

definition PeerStore_Update :: "gotime \<Rightarrow> PeerStore \<Rightarrow> PeerInfo \<Rightarrow> string \<Rightarrow> PeerStore go" where
  "PeerStore_Update now ps info m =
     (case update_locked now ps info m of
        (ps', None) \<Rightarrow> Inr ps'
      | (ps', Some ev) \<Rightarrow> PeerStore_notify ps' (PubKey ev) (Kind ev))"

definition PeerStore_Get :: "PeerStore \<Rightarrow> string \<Rightarrow> PeerInfo option" where
  "PeerStore_Get ps k = fmlookup (peers ps) k"

definition PeerStore_GetAll :: "string list \<Rightarrow> PeerStore \<Rightarrow> PeerInfo list" where
  "PeerStore_GetAll ks ps = range_values (peers ps) ks"

definition PeerStore_List :: "string list \<Rightarrow> PeerStore \<Rightarrow> PeerInfo list" where
  "PeerStore_List ks ps = PeerStore_GetAll ks ps"

definition PeerStore_GetActive :: "string list \<Rightarrow> gotime \<Rightarrow> PeerStore \<Rightarrow> PeerInfo list" where
  "PeerStore_GetActive ks now ps =
     filter (\<lambda>p. time_sub now (LastSeen p) < PeerDeadTimeout) (range_values (peers ps) ks)"

definition PeerStore_Remove :: "PeerStore \<Rightarrow> string \<Rightarrow> PeerStore" where
  "PeerStore_Remove ps k = ps\<lparr>peers := fmdrop k (peers ps)\<rparr>"

definition stale_peer :: "gotime \<Rightarrow> PeerInfo \<Rightarrow> bool" where
  "stale_peer now p \<longleftrightarrow> time_sub now (LastSeen p) > PeerRemoveTimeout"

fun cleanup_keys :: "gotime \<Rightarrow> string list \<Rightarrow> PeerStore \<Rightarrow> string list \<times> PeerStore" where
  "cleanup_keys now [] ps = ([], ps)"
| "cleanup_keys now (k # ks) ps =
     (case fmlookup (peers ps) k of
        Some p \<Rightarrow>
          if stale_peer now p
          then let (r, ps') = cleanup_keys now ks (PeerStore_Remove ps k) in (k # r, ps')
          else cleanup_keys now ks ps
      | None \<Rightarrow> cleanup_keys now ks ps)"

definition PeerStore_CleanupStale :: "string list \<Rightarrow> gotime \<Rightarrow> PeerStore \<Rightarrow> string list \<times> PeerStore" where
  "PeerStore_CleanupStale ks now ps = cleanup_keys now ks ps"

definition PeerStore_Count :: "PeerStore \<Rightarrow> nat" where
  "PeerStore_Count ps = go_len (peers ps)"

definition PeerStore_SetLatency :: "PeerStore \<Rightarrow> string \<Rightarrow> duration \<Rightarrow> PeerStore" where
  "PeerStore_SetLatency ps k rtt =
     (case fmlookup (peers ps) k of
        None \<Rightarrow> ps
      | Some p \<Rightarrow> ps\<lparr>peers := fmupd k (p\<lparr>Latency := Some rtt\<rparr>) (peers ps)\<rparr>)"

definition PeerStore_IsDead :: "gotime \<Rightarrow> PeerStore \<Rightarrow> string \<Rightarrow> bool" where
  "PeerStore_IsDead now ps k =
     (case fmlookup (peers ps) k of
        None \<Rightarrow> True
      | Some p \<Rightarrow> time_sub now (LastSeen p) > PeerDeadTimeout)"

definition shortKey :: "string \<Rightarrow> string" where
  "shortKey k = (if length k > 16 then take 16 k else k)"

definition PeerStore_SetEndpointMethod :: "PeerStore \<Rightarrow> string \<Rightarrow> string \<Rightarrow> PeerStore" where
  "PeerStore_SetEndpointMethod ps k m =
     (case fmlookup (peers ps) k of
        None \<Rightarrow> ps
      | Some p \<Rightarrow> ps\<lparr>peers := fmupd k (p\<lparr>EndpointMethod := m\<rparr>) (peers ps)\<rparr>)"

definition PeerStore_SetPeerDirectly :: "PeerStore \<Rightarrow> string \<Rightarrow> PeerInfo \<Rightarrow> PeerStore" where
  "PeerStore_SetPeerDirectly ps k p = ps\<lparr>peers := fmupd k p (peers ps)\<rparr>"

text \<open>A sequence of reports, each with its instant, peer and discovery method.\<close>

type_synonym report = "gotime \<times> PeerInfo \<times> string"

fun feed :: "(gotime \<Rightarrow> 's \<Rightarrow> PeerInfo \<Rightarrow> string \<Rightarrow> 's) \<Rightarrow> 's \<Rightarrow> report list \<Rightarrow> 's" where
  "feed upd s [] = s"
| "feed upd s ((t, i, m) # rs) = feed upd (upd t s i m) rs"

definition record_peer :: "gotime \<Rightarrow> PeerStore \<Rightarrow> PeerInfo \<Rightarrow> string \<Rightarrow> PeerStore" where
  "record_peer now ps info m = fst (update_locked now ps info m)"

section \<open>Interleaved use\<close>

text \<open>
  Goroutines that share the store. Every method is atomic but Update, which leaves its
  critical section before it notifies: an event first waits in \<open>ss_events\<close>, then its
  notification has copied the subscribers and works through the copy in \<open>ss_sends\<close>.
\<close>

record store_sys =
  ss_store :: PeerStore
  ss_events :: "PeerEvent list"
  ss_sends :: "(PeerEvent \<times> nat list) list"
  ss_panicked :: bool

definition store_init :: store_sys where
  "store_init = \<lparr>ss_store = NewPeerStore, ss_events = [], ss_sends = [], ss_panicked = False\<rparr>"

inductive store_step :: "store_sys \<Rightarrow> store_sys \<Rightarrow> bool" where
  update: "update_locked now (ss_store s) info m = (ps', ev) \<Longrightarrow>
     store_step s (s\<lparr>ss_store := ps',
       ss_events := (case ev of None \<Rightarrow> ss_events s | Some e \<Rightarrow> ss_events s @ [e])\<rparr>)"
| copy_subs: "ss_events s = es @ ev # fs \<Longrightarrow>
     store_step s (s\<lparr>ss_events := es @ fs, ss_sends := ss_sends s @ [(ev, subscribers (ss_store s))]\<rparr>)"
| send: "ss_sends s = xs @ (ev, c # cs) # ys \<Longrightarrow> chan_try_send (chans (ss_store s)) c ev = Inr h \<Longrightarrow>
     store_step s (s\<lparr>ss_store := (ss_store s)\<lparr>chans := h\<rparr>, ss_sends := xs @ (ev, cs) # ys\<rparr>)"
| send_panic: "ss_sends s = xs @ (ev, c # cs) # ys \<Longrightarrow> chan_try_send (chans (ss_store s)) c ev = Inl p \<Longrightarrow>
     store_step s (s\<lparr>ss_panicked := True\<rparr>)"
| sends_done: "ss_sends s = xs @ (ev, []) # ys \<Longrightarrow> store_step s (s\<lparr>ss_sends := xs @ ys\<rparr>)"
| subscribe: "store_step s (s\<lparr>ss_store := snd (PeerStore_Subscribe (ss_store s))\<rparr>)"
| unsubscribe: "PeerStore_Unsubscribe (ss_store s) c = Inr ps' \<Longrightarrow> store_step s (s\<lparr>ss_store := ps'\<rparr>)"
| unsubscribe_panic: "PeerStore_Unsubscribe (ss_store s) c = Inl p \<Longrightarrow>
     store_step s (s\<lparr>ss_panicked := True\<rparr>)"
| receive: "chan_recv (ss_store s) c = Some (ev, ps') \<Longrightarrow> store_step s (s\<lparr>ss_store := ps'\<rparr>)"
| remove: "store_step s (s\<lparr>ss_store := PeerStore_Remove (ss_store s) k\<rparr>)"
| cleanup: "range_order (peers (ss_store s)) ks \<Longrightarrow>
     store_step s (s\<lparr>ss_store := snd (PeerStore_CleanupStale ks now (ss_store s))\<rparr>)"
| latency: "store_step s (s\<lparr>ss_store := PeerStore_SetLatency (ss_store s) k rtt\<rparr>)"
| set_method: "store_step s (s\<lparr>ss_store := PeerStore_SetEndpointMethod (ss_store s) k m\<rparr>)"

inductive store_reach :: "store_sys \<Rightarrow> bool" where
  init: "store_reach store_init"
| step: "store_reach s \<Longrightarrow> store_step s t \<Longrightarrow> store_reach t"

section \<open>Invariant\<close>

definition peer_ok :: "string \<Rightarrow> PeerInfo \<Rightarrow> bool" where
  "peer_ok k p \<longleftrightarrow> WGPubKey p = k \<and> DiscoveredVia p \<noteq> [] \<and> distinct (DiscoveredVia p)"

definition chan_ok :: "nat \<Rightarrow> channel \<Rightarrow> bool" where
  "chan_ok n ch \<longleftrightarrow> length (ch_buf ch) \<le> PeerEventBufSize"

definition open_chan :: "(nat, channel) gomap \<Rightarrow> nat \<Rightarrow> bool" where
  "open_chan h c \<longleftrightarrow> (case fmlookup h c of None \<Rightarrow> False | Some ch \<Rightarrow> \<not> ch_closed ch)"

definition store_inv :: "PeerStore \<Rightarrow> bool" where
  "store_inv ps \<longleftrightarrow>
     fmpred peer_ok (peers ps) \<and> go_len (peers ps) \<le> DefaultMaxPeers
     \<and> fmpred (\<lambda>c ch. chan_ok c ch \<and> c < next_chan ps) (chans ps)
     \<and> distinct (subscribers ps) \<and> list_all (open_chan (chans ps)) (subscribers ps)"

text \<open>A peer and the states of a short run, used to evaluate the operations.\<close>

definition sample_peer :: "string \<Rightarrow> string \<Rightarrow> string \<Rightarrow> gotime \<Rightarrow> PeerInfo" where
  "sample_peer k ep m t = \<lparr>WGPubKey = k, Hostname = [], MeshIP = [], MeshIPv6 = [], Endpoint = ep,
     Introducer = False, RoutableNetworks = [], LastSeen = t, DiscoveredVia = [m], Latency = None,
     NATType = [], EndpointMethod = m\<rparr>"

definition sample_node :: "string \<Rightarrow> string \<Rightarrow> LocalNode" where
  "sample_node k ip = \<lparr>ln_WGPubKey = k, ln_WGPrivateKey = [], ln_MeshIP = ip, ln_MeshIPv6 = [],
     ln_RoutableNetworks = [], ln_Introducer = False, ln_NATType = [], ln_Hostname = [], ln_wgEndpoint = []\<rparr>"

definition sample_store :: PeerStore where
  "sample_store = NewPeerStore\<lparr>peers := fmupd ''k'' (sample_peer ''k'' ''192.168.1.5:51820'' ''lan'' 0) fmempty\<rparr>"

definition sub_store :: PeerStore where
  "sub_store = snd (PeerStore_Subscribe NewPeerStore)"

definition sample_event :: PeerEvent where
  "sample_event = \<lparr>PubKey = ''k'', Kind = PeerEventNew\<rparr>"

definition run_store :: PeerStore where
  "run_store = fst (update_locked 0 sub_store (sample_peer ''k'' [] [] 0) ''dht'')"

section \<open>Lemmas on merging\<close>

named_theorems merge_simps \<open>the fields of a merged entry\<close>

lemma merge_peer_fields [merge_simps, simp]:
  "WGPubKey (merge_peer now ex info m) = WGPubKey ex"
  "Latency (merge_peer now ex info m) = Latency ex"
  "Introducer (merge_peer now ex info m) = Introducer info"
  "DiscoveredVia (merge_peer now ex info m) =
     (if m \<in> set (DiscoveredVia ex) then DiscoveredVia ex else DiscoveredVia ex @ [m])"
  by (simp_all add: merge_peer_def merge_seen_def merge_fields_def merge_endpoint_def)

lemma merge_peer_endpoint [merge_simps]:
  "Endpoint (merge_peer now ex info m) =
     (if Endpoint info \<noteq> [] \<and> shouldUpdateEndpoint ex (Endpoint info) m then Endpoint info else Endpoint ex)"
  "EndpointMethod (merge_peer now ex info m) =
     (if Endpoint info \<noteq> [] \<and> shouldUpdateEndpoint ex (Endpoint info) m then m else EndpointMethod ex)"
  by (simp_all add: merge_peer_def merge_seen_def merge_fields_def merge_endpoint_def)

lemma merge_peer_seen [merge_simps]:
  "LastSeen (merge_peer now ex info m) =
     (if shouldRefreshLastSeen m then now
      else if \<not> is_zero (LastSeen info) \<and> LastSeen info > LastSeen ex then LastSeen info
      else LastSeen ex)"
  by (simp add: merge_peer_def merge_seen_def merge_fields_def merge_endpoint_def)

lemma merge_peer_ok: "peer_ok k ex \<Longrightarrow> peer_ok k (merge_peer now ex info m)"
  by (auto simp: peer_ok_def)

lemma new_peer_ok: "peer_ok (WGPubKey info) (new_peer now info m)"
  by (simp add: peer_ok_def new_peer_def)

text \<open>The rank of the method that supplied the endpoint of an entry never goes down.\<close>

lemma merge_peer_rank:
  assumes "Endpoint ex \<noteq> []"
  shows "endpointMethodRank (EndpointMethod ex)
         \<le> endpointMethodRank (EndpointMethod (merge_peer now ex info m))"
  using assms by (auto simp: merge_peer_endpoint shouldUpdateEndpoint_def Let_def)

lemma shouldUpdateEndpoint_lower:
  "Endpoint ex \<noteq> [] \<Longrightarrow> endpointMethodRank m < endpointMethodRank (EndpointMethod ex) \<Longrightarrow>
   \<not> shouldUpdateEndpoint ex ep m"
  by (simp add: shouldUpdateEndpoint_def)

section \<open>Lemmas on the table\<close>

lemma update_locked_frame [simp]:
  "subscribers (fst (update_locked now ps info m)) = subscribers ps"
  "chans (fst (update_locked now ps info m)) = chans ps"
  "next_chan (fst (update_locked now ps info m)) = next_chan ps"
  by (auto simp: update_locked_def Let_def split: option.splits)

lemma update_locked_lookup:
  "fmlookup (peers (fst (update_locked now ps info m))) k =
     (if k = WGPubKey info then
        (case fmlookup (peers ps) k of
           Some ex \<Rightarrow> Some (merge_peer now ex info m)
         | None \<Rightarrow> if go_len (peers ps) \<ge> DefaultMaxPeers then None else Some (new_peer now info m))
      else fmlookup (peers ps) k)"
  by (auto simp: update_locked_def Let_def split: option.splits)

lemma update_locked_len:
  "go_len (peers ps) \<le> DefaultMaxPeers \<Longrightarrow>
   go_len (peers (fst (update_locked now ps info m))) \<le> DefaultMaxPeers"
  by (auto simp: update_locked_def Let_def go_len_upd split: option.splits)

lemma update_locked_peers_ok:
  assumes "fmpred peer_ok (peers ps)"
  shows "fmpred peer_ok (peers (fst (update_locked now ps info m)))"
proof (rule fmpredI)
  fix k p
  assume "fmlookup (peers (fst (update_locked now ps info m))) k = Some p"
  then show "peer_ok k p"
    using assms new_peer_ok merge_peer_ok
    by (auto simp: update_locked_lookup split: if_splits option.splits)
qed

lemma update_locked_inv: "store_inv ps \<Longrightarrow> store_inv (fst (update_locked now ps info m))"
  by (auto simp: store_inv_def update_locked_peers_ok update_locked_len)

lemma remove_inv: "store_inv ps \<Longrightarrow> store_inv (PeerStore_Remove ps k)"
  using go_len_drop_le [of k "peers ps"]
  by (auto simp: store_inv_def PeerStore_Remove_def fmpred_drop)

lemma cleanup_keys_frame:
  "cleanup_keys now ks ps = (r, ps') \<Longrightarrow>
   subscribers ps' = subscribers ps \<and> chans ps' = chans ps \<and> next_chan ps' = next_chan ps"
  by (induction now ks ps arbitrary: r ps' rule: cleanup_keys.induct)
     (auto simp: PeerStore_Remove_def split: option.splits if_splits prod.splits)

lemma cleanup_keys_inv: "store_inv ps \<Longrightarrow> store_inv (snd (cleanup_keys now ks ps))"
proof (induction now ks ps rule: cleanup_keys.induct)
  case (2 now k ks ps)
  then show ?case
    using remove_inv by (auto simp: case_prod_beta split: option.splits)
qed simp

lemma cleanup_keys_lookup:
  "fmlookup (peers (snd (cleanup_keys now ks ps))) k =
     (case fmlookup (peers ps) k of
        Some p \<Rightarrow> if k \<in> set ks \<and> stale_peer now p then None else Some p
      | None \<Rightarrow> None)"
  by (induction now ks ps rule: cleanup_keys.induct)
     (auto simp: case_prod_beta PeerStore_Remove_def split: option.splits if_splits)

lemma cleanup_keys_removed:
  "distinct ks \<Longrightarrow> fst (cleanup_keys now ks ps) =
     filter (\<lambda>k. case fmlookup (peers ps) k of Some p \<Rightarrow> stale_peer now p | None \<Rightarrow> False) ks"
proof (induction now ks ps rule: cleanup_keys.induct)
  case (2 now k ks ps)
  have "filter (\<lambda>k'. case fmlookup (peers (PeerStore_Remove ps k)) k' of
            Some p \<Rightarrow> stale_peer now p | None \<Rightarrow> False) ks
        = filter (\<lambda>k'. case fmlookup (peers ps) k' of Some p \<Rightarrow> stale_peer now p | None \<Rightarrow> False) ks"
    using 2 by (intro filter_cong) (auto simp: PeerStore_Remove_def)
  then show ?case
    using 2 by (auto simp: case_prod_beta split: option.splits)
qed simp

lemma set_latency_inv: "store_inv ps \<Longrightarrow> store_inv (PeerStore_SetLatency ps k rtt)"
  by (auto simp: store_inv_def PeerStore_SetLatency_def go_len_upd peer_ok_def fmpred_iff
      split: option.splits)

lemma set_method_inv: "store_inv ps \<Longrightarrow> store_inv (PeerStore_SetEndpointMethod ps k m)"
  by (auto simp: store_inv_def PeerStore_SetEndpointMethod_def go_len_upd peer_ok_def fmpred_iff
      split: option.splits)

section \<open>Lemmas on channels\<close>

lemma chan_try_send_Inr:
  assumes "chan_try_send h c ev = Inr h'"
  shows "fmpred (\<lambda>c ch. chan_ok c ch \<and> c < n) h \<Longrightarrow> fmpred (\<lambda>c ch. chan_ok c ch \<and> c < n) h'"
    and "open_chan h' d = open_chan h d"
  using assms
  by (auto simp: chan_try_send_def chan_ok_def open_chan_def fmpred_iff split: option.splits if_splits)

lemma open_chan_try_send: "open_chan h c \<Longrightarrow> \<exists>h'. chan_try_send h c ev = Inr h'"
  by (auto simp: chan_try_send_def open_chan_def split: option.splits)

lemma send_all_ok:
  assumes "list_all (open_chan h) cs"
  shows "\<exists>h'. send_all h cs ev = Inr h'"
  using assms
proof (induction cs arbitrary: h)
  case (Cons c cs)
  then obtain h' where h': "chan_try_send h c ev = Inr h'"
    using open_chan_try_send by fastforce
  with Cons.prems have "list_all (open_chan h') cs"
    using chan_try_send_Inr(2) by (auto simp: list_all_iff)
  with Cons.IH h' show ?case by auto
qed simp

lemma subscribe_inv: "store_inv ps \<Longrightarrow> store_inv (snd (PeerStore_Subscribe ps))"
  unfolding store_inv_def PeerStore_Subscribe_def
  by (auto simp: Let_def fmpred_iff chan_ok_def open_chan_def list_all_iff PeerEventBufSize_def
      split: option.splits; fastforce)

lemma unsubscribe_inv:
  assumes "store_inv ps" "PeerStore_Unsubscribe ps c = Inr ps'"
  shows "store_inv ps'"
  using assms unfolding store_inv_def PeerStore_Unsubscribe_def
  by (auto simp: chan_close_def fmpred_iff chan_ok_def open_chan_def list_all_iff
      split: option.splits if_splits sum.splits dest: notin_set_remove1)

lemma unsubscribe_no_panic:
  assumes "store_inv ps"
  shows "PeerStore_Unsubscribe ps c \<noteq> Inl p"
  using assms unfolding store_inv_def PeerStore_Unsubscribe_def
  by (auto simp: chan_close_def open_chan_def list_all_iff split: option.splits if_splits)

lemma recv_inv:
  assumes "store_inv ps" "chan_recv ps c = Some (ev, ps')"
  shows "store_inv ps'"
  using assms unfolding store_inv_def chan_recv_def
  by (auto simp: fmpred_iff chan_ok_def open_chan_def list_all_iff split: option.splits list.splits if_splits)
     fastforce+

lemma send_inv:
  assumes "store_inv ps" "chan_try_send (chans ps) c ev = Inr h"
  shows "store_inv (ps\<lparr>chans := h\<rparr>)"
  using assms chan_try_send_Inr [OF assms(2)] by (auto simp: store_inv_def list_all_iff)

lemma send_all_inv:
  assumes "store_inv ps" "send_all (chans ps) cs ev = Inr h"
  shows "store_inv (ps\<lparr>chans := h\<rparr>)"
  using assms
proof (induction cs arbitrary: ps)
  case Nil
  then have "h = chans ps" by simp
  then show ?case using Nil(1) by simp
next
  case (Cons c cs)
  then obtain h1 where h1: "chan_try_send (chans ps) c ev = Inr h1" "send_all h1 cs ev = Inr h"
    by (auto split: sum.splits)
  then show ?case
    using Cons.IH [OF send_inv [OF Cons.prems(1) h1(1)]] by simp
qed

lemma store_inv_new: "store_inv NewPeerStore"
  by (simp add: store_inv_def NewPeerStore_def)

lemma store_step_inv: "store_step s t \<Longrightarrow> store_inv (ss_store s) \<Longrightarrow> store_inv (ss_store t)"
proof (induction rule: store_step.induct)
  case (update now s info m ps' ev)
  then show ?case using update_locked_inv [of "ss_store s" now info m] by simp
qed (auto simp: subscribe_inv remove_inv PeerStore_CleanupStale_def cleanup_keys_inv set_latency_inv
      set_method_inv intro: send_inv unsubscribe_inv recv_inv)

lemma store_reach_store_inv: "store_reach s \<Longrightarrow> store_inv (ss_store s)"
  by (induction rule: store_reach.induct)
     (auto simp: store_init_def store_inv_new intro: store_step_inv)

section \<open>The contract of the store towards the discovery layers\<close>

text \<open>
  Discovery layers, the cache and the membership exchange only report peers: whatever they
  learn from the network reaches the daemon through this operation. The contract says what a
  report can do to the table; the lemmas lift it to any sequence of reports.
\<close>

locale peer_sink =
  fixes upd :: "gotime \<Rightarrow> 's \<Rightarrow> PeerInfo \<Rightarrow> string \<Rightarrow> 's"
    and look :: "'s \<Rightarrow> string \<Rightarrow> PeerInfo option"
    and inv :: "'s \<Rightarrow> bool"
    and rank :: "string \<Rightarrow> int"
  assumes upd_inv: "inv s \<Longrightarrow> inv (upd t s i m)"
    and upd_other: "k \<noteq> WGPubKey i \<Longrightarrow> look (upd t s i m) k = look s k"
    and upd_known: "look s k = Some p \<Longrightarrow> \<exists>p'. look (upd t s i m) k = Some p'"
    and upd_endpoint: "look s k = Some p \<Longrightarrow> Endpoint p \<noteq> [] \<Longrightarrow> look (upd t s i m) k = Some p' \<Longrightarrow>
          Endpoint p' \<noteq> [] \<and> rank (EndpointMethod p) \<le> rank (EndpointMethod p')
          \<and> (rank m < rank (EndpointMethod p) \<longrightarrow>
               Endpoint p' = Endpoint p \<and> EndpointMethod p' = EndpointMethod p)"
    and upd_seen: "look s k = Some p \<Longrightarrow> look (upd t s i m) k = Some p' \<Longrightarrow>
          \<not> shouldRefreshLastSeen m \<Longrightarrow> is_zero (LastSeen i) \<Longrightarrow> LastSeen p' = LastSeen p"
begin

lemma feed_inv: "inv s \<Longrightarrow> inv (feed upd s rs)"
  by (induction rs arbitrary: s) (auto simp: upd_inv)

lemma feed_other: "list_all (\<lambda>(t, i, m). WGPubKey i \<noteq> k) rs \<Longrightarrow> look (feed upd s rs) k = look s k"
  by (induction rs arbitrary: s) (auto simp: upd_other)

lemma feed_known: "look s k = Some p \<Longrightarrow> \<exists>p'. look (feed upd s rs) k = Some p'"
proof (induction rs arbitrary: s p)
  case (Cons r rs)
  obtain t i m where "r = (t, i, m)" by (cases r)
  then show ?case using upd_known [OF Cons.prems, of t i m] Cons.IH by auto
qed simp

lemma feed_rank:
  "look s k = Some p \<Longrightarrow> Endpoint p \<noteq> [] \<Longrightarrow>
   \<exists>p'. look (feed upd s rs) k = Some p' \<and> Endpoint p' \<noteq> []
        \<and> rank (EndpointMethod p) \<le> rank (EndpointMethod p')"
proof (induction rs arbitrary: s p)
  case (Cons r rs)
  obtain t i m where r: "r = (t, i, m)" by (cases r)
  obtain q where q: "look (upd t s i m) k = Some q"
    using upd_known [OF Cons.prems(1)] by blast
  show ?case
    using Cons.IH [OF q] upd_endpoint [OF Cons.prems q] r by force
qed simp

lemma feed_lower_rank:
  "look s k = Some p \<Longrightarrow> Endpoint p \<noteq> [] \<Longrightarrow>
   list_all (\<lambda>(t, i, m). rank m < rank (EndpointMethod p)) rs \<Longrightarrow>
   \<exists>p'. look (feed upd s rs) k = Some p' \<and> Endpoint p' = Endpoint p
        \<and> EndpointMethod p' = EndpointMethod p"
proof (induction rs arbitrary: s p)
  case (Cons r rs)
  obtain t i m where r: "r = (t, i, m)" by (cases r)
  obtain q where q: "look (upd t s i m) k = Some q"
    using upd_known [OF Cons.prems(1)] by blast
  with upd_endpoint [OF Cons.prems(1,2) q] Cons.prems(3) r
  have "Endpoint q = Endpoint p" "EndpointMethod q = EndpointMethod p" by auto
  with Cons.IH [OF q] Cons.prems r show ?case by simp
qed simp

lemma feed_seen:
  "look s k = Some p \<Longrightarrow>
   list_all (\<lambda>(t, i, m). \<not> shouldRefreshLastSeen m \<and> is_zero (LastSeen i)) rs \<Longrightarrow>
   \<exists>p'. look (feed upd s rs) k = Some p' \<and> LastSeen p' = LastSeen p"
proof (induction rs arbitrary: s p)
  case (Cons r rs)
  obtain t i m where r: "r = (t, i, m)" by (cases r)
  obtain q where q: "look (upd t s i m) k = Some q"
    using upd_known [OF Cons.prems(1)] by blast
  with upd_seen [OF Cons.prems(1) q] Cons.prems(2) r have "LastSeen q = LastSeen p" by auto
  with Cons.IH [OF q] Cons.prems r show ?case by simp
qed simp

end

lemma record_peer_lookup:
  "fmlookup (peers (record_peer now ps info m)) k =
     (if k = WGPubKey info then
        (case fmlookup (peers ps) k of
           Some ex \<Rightarrow> Some (merge_peer now ex info m)
         | None \<Rightarrow> if go_len (peers ps) \<ge> DefaultMaxPeers then None else Some (new_peer now info m))
      else fmlookup (peers ps) k)"
  by (simp add: record_peer_def update_locked_lookup)

interpretation store_sink: peer_sink record_peer PeerStore_Get store_inv endpointMethodRank
proof
  fix s t m and i :: PeerInfo
  show "store_inv s \<Longrightarrow> store_inv (record_peer t s i m)"
    by (simp add: record_peer_def update_locked_inv)
next
  fix k t s m and i :: PeerInfo
  assume "k \<noteq> WGPubKey i"
  then show "PeerStore_Get (record_peer t s i m) k = PeerStore_Get s k"
    by (simp add: PeerStore_Get_def record_peer_lookup)
next
  fix s k p t m and i :: PeerInfo
  assume "PeerStore_Get s k = Some p"
  then show "\<exists>p'. PeerStore_Get (record_peer t s i m) k = Some p'"
    by (cases "k = WGPubKey i") (simp_all add: PeerStore_Get_def record_peer_lookup)
next
  fix s k p t m p' and i :: PeerInfo
  assume "PeerStore_Get s k = Some p" "Endpoint p \<noteq> []"
    "PeerStore_Get (record_peer t s i m) k = Some p'"
  then show "Endpoint p' \<noteq> [] \<and> endpointMethodRank (EndpointMethod p) \<le> endpointMethodRank (EndpointMethod p')
     \<and> (endpointMethodRank m < endpointMethodRank (EndpointMethod p) \<longrightarrow>
          Endpoint p' = Endpoint p \<and> EndpointMethod p' = EndpointMethod p)"
    using merge_peer_rank [of p t i m] shouldUpdateEndpoint_lower [of p m]
    by (auto simp: PeerStore_Get_def record_peer_lookup merge_peer_endpoint split: if_splits)
next
  fix s k p t m p' and i :: PeerInfo
  assume "PeerStore_Get s k = Some p" "PeerStore_Get (record_peer t s i m) k = Some p'"
    "\<not> shouldRefreshLastSeen m" "is_zero (LastSeen i)"
  then show "LastSeen p' = LastSeen p"
    by (auto simp: PeerStore_Get_def record_peer_lookup merge_peer_seen split: if_splits)
qed

lemma LAN_rank [simp]: "endpointMethodRank LANMethod = 100"
  by (simp add: endpointMethodRank_def LANMethod_def)

lemma endpointMethodRank_below_LAN: "m \<noteq> LANMethod \<Longrightarrow> endpointMethodRank m < 100"
  by (simp add: endpointMethodRank_def)

lemma send_all_effect:
  assumes "send_all h cs ev = Inr h'" "distinct cs" "fmlookup h c = Some ch"
  shows "fmlookup h' c = Some (if c \<in> set cs \<and> length (ch_buf ch) < PeerEventBufSize
           then ch\<lparr>ch_buf := ch_buf ch @ [ev]\<rparr> else ch)"
  using assms
proof (induction cs arbitrary: h ch)
  case (Cons d cs)
  then obtain h1 where h1: "chan_try_send h d ev = Inr h1" "send_all h1 cs ev = Inr h'"
    by (auto split: sum.splits)
  let ?ch1 = "if c = d \<and> length (ch_buf ch) < PeerEventBufSize then ch\<lparr>ch_buf := ch_buf ch @ [ev]\<rparr> else ch"
  have "fmlookup h1 c = Some ?ch1"
    using h1(1) Cons.prems(3) by (auto simp: chan_try_send_def split: option.splits if_splits)
  from Cons.IH [OF h1(2) _ this] Cons.prems show ?case by auto
qed simp

lemma update_locked_event:
  assumes "WGPubKey info \<noteq> []"
    and "fmlookup (peers ps) (WGPubKey info) \<noteq> None \<or> go_len (peers ps) < DefaultMaxPeers"
  shows "snd (update_locked now ps info m) =
     Some \<lparr>PubKey = WGPubKey info,
           Kind = if fmlookup (peers ps) (WGPubKey info) = None then PeerEventNew else PeerEventUpdated\<rparr>"
  using assms by (auto simp: update_locked_def Let_def split: option.splits)

section \<open>The layers that report peers\<close>

text \<open>
  A layer turns each message it accepts into reports and delivers them to the store. The contract
  names the reports; what a run of messages can do to the table then follows from the contract
  of the store.
\<close>

fun deliver_all :: "(gotime \<Rightarrow> PeerStore \<Rightarrow> 'm \<Rightarrow> PeerStore go) \<Rightarrow> PeerStore \<Rightarrow> (gotime \<times> 'm) list \<Rightarrow> PeerStore go" where
  "deliver_all deliver ps [] = Inr ps"
| "deliver_all deliver ps ((t, msg) # msgs) = and_then (deliver t ps msg) (\<lambda>ps'. deliver_all deliver ps' msgs)"

lemma record_peers_cong: "peers a = peers b \<Longrightarrow> peers (record_peer t a i m) = peers (record_peer t b i m)"
  by (rule fmap_ext) (simp add: record_peer_lookup)

lemma feed_peers_cong: "peers a = peers b \<Longrightarrow> peers (feed record_peer a rs) = peers (feed record_peer b rs)"
proof (induction rs arbitrary: a b)
  case (Cons r rs)
  obtain t i m where "r = (t, i, m)" by (cases r)
  with Cons.IH [OF record_peers_cong [OF Cons.prems]] show ?case by simp
qed simp

lemma feed_append: "feed upd s (xs @ ys) = feed upd (feed upd s xs) ys"
  by (induction upd s xs rule: feed.induct) auto

locale reporter =
  fixes deliver :: "gotime \<Rightarrow> PeerStore \<Rightarrow> 'm \<Rightarrow> PeerStore go"
    and reports :: "gotime \<Rightarrow> 'm \<Rightarrow> report list"
  assumes deliver_feed: "store_inv ps \<Longrightarrow> \<exists>ps'. deliver t ps msg = Inr ps' \<and> store_inv ps'
      \<and> peers ps' = peers (feed record_peer ps (reports t msg))"
begin

lemma deliver_all_feed:
  "store_inv ps \<Longrightarrow> \<exists>ps'. deliver_all deliver ps msgs = Inr ps' \<and> store_inv ps'
     \<and> peers ps' = peers (feed record_peer ps (concat (map (\<lambda>(t, msg). reports t msg) msgs)))"
proof (induction msgs arbitrary: ps)
  case (Cons tm msgs)
  obtain t msg where tm: "tm = (t, msg)" by (cases tm)
  from deliver_feed [OF Cons.prems] obtain p1 where p1: "deliver t ps msg = Inr p1" "store_inv p1"
    "peers p1 = peers (feed record_peer ps (reports t msg))" by blast
  from Cons.IH [OF p1(2)] obtain p2 where p2: "deliver_all deliver p1 msgs = Inr p2" "store_inv p2"
    "peers p2 = peers (feed record_peer p1 (concat (map (\<lambda>(t, msg). reports t msg) msgs)))" by blast
  with p1 tm show ?case
    using feed_peers_cong [OF p1(3), of "concat (map (\<lambda>(t, msg). reports t msg) msgs)"] by (simp add: feed_append)
qed simp

text \<open>Reports of a lower rank leave the endpoint of an entry alone.\<close>

lemma deliver_all_endpoint:
  assumes "store_inv ps" "PeerStore_Get ps k = Some p" "Endpoint p \<noteq> []"
    and "\<forall>t msg. list_all (\<lambda>(t, i, m). endpointMethodRank m < endpointMethodRank (EndpointMethod p)) (reports t msg)"
  shows "\<exists>ps' p'. deliver_all deliver ps msgs = Inr ps' \<and> PeerStore_Get ps' k = Some p' \<and> Endpoint p' = Endpoint p
    \<and> EndpointMethod p' = EndpointMethod p"
proof -
  let ?rs = "concat (map (\<lambda>(t, msg). reports t msg) msgs)"
  have "list_all (\<lambda>(t, i, m). endpointMethodRank m < endpointMethodRank (EndpointMethod p)) ?rs"
    using assms(4) by (fastforce simp: list_all_iff)
  from store_sink.feed_lower_rank [OF assms(2,3) this] deliver_all_feed [OF assms(1), of msgs]
  show ?thesis unfolding PeerStore_Get_def by fastforce
qed

text \<open>A peer that no report names is not touched.\<close>

lemma deliver_all_other:
  assumes "store_inv ps" "\<forall>t msg. list_all (\<lambda>(t, i, m). WGPubKey i \<noteq> k) (reports t msg)"
  shows "\<exists>ps'. deliver_all deliver ps msgs = Inr ps' \<and> PeerStore_Get ps' k = PeerStore_Get ps k"
proof -
  let ?rs = "concat (map (\<lambda>(t, msg). reports t msg) msgs)"
  have "list_all (\<lambda>(t, i, m). WGPubKey i \<noteq> k) ?rs"
    using assms(2) by (fastforce simp: list_all_iff)
  from store_sink.feed_other [OF this] deliver_all_feed [OF assms(1), of msgs]
  show ?thesis unfolding PeerStore_Get_def by fastforce
qed

end

interpretation update_reporter: reporter "\<lambda>t ps (i, m). PeerStore_Update t ps i m" "\<lambda>t (i, m). [(t, i, m)]"
proof
  fix ps t and msg :: "PeerInfo \<times> string"
  assume inv: "store_inv ps"
  obtain i m where msg: "msg = (i, m)" by (cases msg)
  obtain p1 ev where p1: "update_locked t ps i m = (p1, ev)" by (cases "update_locked t ps i m")
  have inv1: "store_inv p1" and peers1: "peers p1 = peers (record_peer t ps i m)"
    using update_locked_inv [OF inv, of t i m] p1 by (simp_all add: record_peer_def)
  have "\<exists>ps'. PeerStore_Update t ps i m = Inr ps' \<and> store_inv ps' \<and> peers ps' = peers p1"
  proof (cases ev)
    case (Some e)
    obtain h where h: "send_all (chans p1) (subscribers p1) \<lparr>PubKey = PubKey e, Kind = Kind e\<rparr> = Inr h"
      using inv1 send_all_ok [of "chans p1" "subscribers p1"] unfolding store_inv_def by metis
    then show ?thesis
      using send_all_inv [OF inv1 h] by (simp add: PeerStore_Update_def p1 Some PeerStore_notify_def)
  qed (simp add: PeerStore_Update_def p1 inv1)
  then show "\<exists>ps'. (case msg of (i, m) \<Rightarrow> PeerStore_Update t ps i m) = Inr ps' \<and> store_inv ps'
      \<and> peers ps' = peers (feed record_peer ps (case msg of (i, m) \<Rightarrow> [(t, i, m)]))"
    using peers1 msg by simp
qed

lemmas store_update = update_reporter.deliver_feed [where msg = "(i, m)" for i m, simplified]

section \<open>Properties\<close>

text \<open>
  C9. In every state that goroutines can reach by interleaving the methods of the store,
  each key maps to the entry of the peer with that public key, no discovery method is
  recorded twice, the table holds at most 1000 peers, no channel buffers more than 16 events,
  and every subscribed channel is open.
\<close>

theorem store_reach_inv:
  assumes "store_reach s"
  shows "store_inv (ss_store s)"
  using assms by (rule store_reach_store_inv)

theorem store_reach_inv_witness:
  "store_inv (ss_store (store_init\<lparr>ss_store := snd (PeerStore_Subscribe NewPeerStore)\<rparr>))"
proof (rule store_reach_inv)
  show "store_reach (store_init\<lparr>ss_store := snd (PeerStore_Subscribe NewPeerStore)\<rparr>)"
    using store_reach.step [OF store_reach.init store_step.subscribe]
    by (simp add: store_init_def)
qed

text \<open>
  C10. The endpoint that local discovery found for a peer survives every sequence of reports
  from other discovery layers: neither the endpoint nor its method changes.
\<close>

theorem lan_endpoint_sticky:
  assumes "PeerStore_Get ps k = Some p" "Endpoint p \<noteq> []" "EndpointMethod p = LANMethod"
    and "list_all (\<lambda>(t, i, m). m \<noteq> LANMethod) rs"
  shows "\<exists>p'. PeerStore_Get (feed record_peer ps rs) k = Some p'
           \<and> Endpoint p' = Endpoint p \<and> EndpointMethod p' = LANMethod"
proof -
  have "list_all (\<lambda>(t, i, m). endpointMethodRank m < endpointMethodRank (EndpointMethod p)) rs"
    using assms(3,4) endpointMethodRank_below_LAN by (auto simp: list_all_iff)
  with store_sink.feed_lower_rank [OF assms(1,2)] assms(3) show ?thesis by auto
qed

theorem lan_endpoint_sticky_witness:
  "\<exists>p'. PeerStore_Get (feed record_peer sample_store
       [(9, sample_peer ''k'' ''8.8.8.8:51820'' [] 0, ''dht-rendezvous'')]) ''k'' = Some p'
     \<and> Endpoint p' = ''192.168.1.5:51820'' \<and> EndpointMethod p' = LANMethod"
  using lan_endpoint_sticky [of sample_store "''k''" "sample_peer ''k'' ''192.168.1.5:51820'' ''lan'' 0"
      "[(9, sample_peer ''k'' ''8.8.8.8:51820'' [] 0, ''dht-rendezvous'')]"]
  by (simp add: PeerStore_Get_def sample_store_def sample_peer_def LANMethod_def)

text \<open>
  Over any sequence of reports the rank of the method that supplied a known endpoint never
  goes down, and the endpoint is never lost.
\<close>

theorem endpoint_rank_monotone:
  assumes "PeerStore_Get ps k = Some p" "Endpoint p \<noteq> []"
  shows "\<exists>p'. PeerStore_Get (feed record_peer ps rs) k = Some p' \<and> Endpoint p' \<noteq> []
           \<and> endpointMethodRank (EndpointMethod p) \<le> endpointMethodRank (EndpointMethod p')"
  using assms by (rule store_sink.feed_rank)

theorem endpoint_rank_monotone_witness:
  "\<exists>p'. PeerStore_Get (feed record_peer sample_store
        [(9, sample_peer ''k'' ''8.8.8.8:51820'' [] 0, ''cache'')]) ''k'' = Some p'
     \<and> Endpoint p' \<noteq> [] \<and> endpointMethodRank ''lan'' \<le> endpointMethodRank (EndpointMethod p')"
  using endpoint_rank_monotone [of sample_store "''k''" "sample_peer ''k'' ''192.168.1.5:51820'' ''lan'' 0"
      "[(9, sample_peer ''k'' ''8.8.8.8:51820'' [] 0, ''cache'')]"]
  by (simp add: PeerStore_Get_def sample_store_def sample_peer_def)



lemma cleanup_stale_parts:
  assumes "range_order (peers ps) ks"
  shows "\<forall>k. PeerStore_Get (snd (PeerStore_CleanupStale ks now ps)) k =
           (case PeerStore_Get ps k of None \<Rightarrow> None
            | Some p \<Rightarrow> if now - LastSeen p > 10 * Minute then None else Some p)"
    and "distinct (fst (PeerStore_CleanupStale ks now ps))"
    and "set (fst (PeerStore_CleanupStale ks now ps)) =
           {k. \<exists>p. PeerStore_Get ps k = Some p \<and> now - LastSeen p > 10 * Minute}"
    and "range_order (peers (snd (PeerStore_CleanupStale ks now ps))) ks' \<Longrightarrow>
         set (PeerStore_GetActive ks now ps) \<subseteq>
         set (PeerStore_GetAll ks' (snd (PeerStore_CleanupStale ks now ps)))"
proof -
  have stale: "stale_peer now p \<longleftrightarrow> now - LastSeen p > 10 * Minute" for p
    by (simp add: stale_peer_def PeerRemoveTimeout_def Minute_def time_sub_greater max_duration_def)
  have mem: "k \<in> set ks \<longleftrightarrow> fmlookup (peers ps) k \<noteq> None" for k
    using range_order_member [OF assms] .
  show look: "\<forall>k. PeerStore_Get (snd (PeerStore_CleanupStale ks now ps)) k =
           (case PeerStore_Get ps k of None \<Rightarrow> None
            | Some p \<Rightarrow> if now - LastSeen p > 10 * Minute then None else Some p)"
    using mem by (auto simp: PeerStore_Get_def PeerStore_CleanupStale_def cleanup_keys_lookup stale
        split: option.splits)
  have removed: "fst (PeerStore_CleanupStale ks now ps) =
      filter (\<lambda>k. case fmlookup (peers ps) k of Some p \<Rightarrow> stale_peer now p | None \<Rightarrow> False) ks"
    using range_order_distinct [OF assms] by (simp add: PeerStore_CleanupStale_def cleanup_keys_removed)
  show "distinct (fst (PeerStore_CleanupStale ks now ps))"
    using range_order_distinct [OF assms] removed by simp
  show "set (fst (PeerStore_CleanupStale ks now ps)) =
           {k. \<exists>p. PeerStore_Get ps k = Some p \<and> now - LastSeen p > 10 * Minute}"
    using mem by (auto simp: removed stale PeerStore_Get_def split: option.splits)
  have active: "time_sub now (LastSeen p) < PeerDeadTimeout \<Longrightarrow> \<not> now - LastSeen p > 10 * Minute" for p
    by (simp add: PeerDeadTimeout_def Minute_def time_sub_less max_duration_def)
  show "set (PeerStore_GetActive ks now ps) \<subseteq>
         set (PeerStore_GetAll ks' (snd (PeerStore_CleanupStale ks now ps)))"
    if "range_order (peers (snd (PeerStore_CleanupStale ks now ps))) ks'"
  proof
    fix p
    assume "p \<in> set (PeerStore_GetActive ks now ps)"
    then obtain k where "fmlookup (peers ps) k = Some p" "\<not> now - LastSeen p > 10 * Minute"
      using active by (auto simp: PeerStore_GetActive_def range_values_set [OF assms])
    with look have "fmlookup (peers (snd (PeerStore_CleanupStale ks now ps))) k = Some p"
      by (simp add: PeerStore_Get_def)
    then show "p \<in> set (PeerStore_GetAll ks' (snd (PeerStore_CleanupStale ks now ps)))"
      using range_values_set [OF that] by (auto simp: PeerStore_GetAll_def)
  qed
qed

text \<open>
  The clean-up removes exactly the peers that were last seen more than ten minutes ago,
  whatever the order in which the map is visited; it returns each removed key once, leaves
  the other entries untouched, and every active peer is still there.
\<close>

theorem cleanup_stale_exact:
  assumes "range_order (peers ps) ks"
    and "range_order (peers (snd (PeerStore_CleanupStale ks now ps))) ks'"
  shows "(\<forall>k. PeerStore_Get (snd (PeerStore_CleanupStale ks now ps)) k =
           (case PeerStore_Get ps k of None \<Rightarrow> None
            | Some p \<Rightarrow> if now - LastSeen p > 10 * Minute then None else Some p))
     \<and> distinct (fst (PeerStore_CleanupStale ks now ps))
     \<and> set (fst (PeerStore_CleanupStale ks now ps)) =
           {k. \<exists>p. PeerStore_Get ps k = Some p \<and> now - LastSeen p > 10 * Minute}
     \<and> set (PeerStore_GetActive ks now ps) \<subseteq>
         set (PeerStore_GetAll ks' (snd (PeerStore_CleanupStale ks now ps)))"
  using cleanup_stale_parts [OF assms(1)] assms(2) by blast

theorem cleanup_stale_exact_witness:
  "set (PeerStore_GetActive [''k''] 7 sample_store) \<subseteq>
   set (PeerStore_GetAll [''k''] (snd (PeerStore_CleanupStale [''k''] 7 sample_store)))"
proof -
  have "range_order (peers sample_store) [''k'']"
    by (simp add: range_order_def sample_store_def)
  moreover have "range_order (peers (snd (PeerStore_CleanupStale [''k''] 7 sample_store))) [''k'']"
    by (simp add: range_order_def sample_store_def sample_peer_def PeerStore_CleanupStale_def stale_peer_def
        time_sub_def PeerRemoveTimeout_def Minute_def max_duration_def min_duration_def)
  ultimately show ?thesis using cleanup_stale_exact by blast
qed

text \<open>
  A report that is recorded reaches every subscriber without blocking: Update returns, each
  subscribed channel with room gets the event as its last one, a full channel is left as it
  is, and no other channel changes. The kind says whether the peer was new.
\<close>

theorem update_notifies:
  assumes "store_inv ps" "WGPubKey info \<noteq> []"
    and "PeerStore_Get ps (WGPubKey info) \<noteq> None \<or> PeerStore_Count ps < 1000"
  shows "\<exists>ps'. PeerStore_Update now ps info m = Inr ps' \<and> store_inv ps'
     \<and> peers ps' = peers (record_peer now ps info m)
     \<and> (\<forall>c ch. fmlookup (chans ps) c = Some ch \<longrightarrow>
          fmlookup (chans ps') c =
            Some (if c \<in> set (subscribers ps) \<and> length (ch_buf ch) < 16
              then ch\<lparr>ch_buf := ch_buf ch @ [\<lparr>PubKey = WGPubKey info,
                Kind = if PeerStore_Get ps (WGPubKey info) = None then PeerEventNew else PeerEventUpdated\<rparr>]\<rparr>
              else ch))"
proof -
  let ?ev = "\<lparr>PubKey = WGPubKey info,
      Kind = if PeerStore_Get ps (WGPubKey info) = None then PeerEventNew else PeerEventUpdated\<rparr>"
  have "snd (update_locked now ps info m) = Some ?ev"
    using update_locked_event [of info ps now m] assms(2,3)
    by (simp add: PeerStore_Get_def PeerStore_Count_def DefaultMaxPeers_def)
  then obtain ps1 where upd: "update_locked now ps info m = (ps1, Some ?ev)"
    by (metis prod.collapse)
  have frame: "subscribers ps1 = subscribers ps" "chans ps1 = chans ps" "record_peer now ps info m = ps1"
    using update_locked_frame [of now ps info m] upd by (simp_all add: record_peer_def)
  have inv: "store_inv ps1" using update_locked_inv [OF assms(1), of now info m] upd by simp
  then obtain h where h: "send_all (chans ps) (subscribers ps) ?ev = Inr h"
    using send_all_ok [of "chans ps" "subscribers ps" ?ev] frame by (auto simp: store_inv_def)
  have "PeerStore_Update now ps info m = Inr (ps1\<lparr>chans := h\<rparr>)"
    using h by (simp add: PeerStore_Update_def upd PeerStore_notify_def frame)
  moreover have "store_inv (ps1\<lparr>chans := h\<rparr>)"
    by (rule send_all_inv [OF inv]) (use h frame in simp)
  moreover have "fmlookup h c = Some (if c \<in> set (subscribers ps) \<and> length (ch_buf ch) < 16
      then ch\<lparr>ch_buf := ch_buf ch @ [?ev]\<rparr> else ch)" if "fmlookup (chans ps) c = Some ch" for c ch
    using send_all_effect [OF h _ that] assms(1) by (simp add: store_inv_def PeerEventBufSize_def)
  ultimately show ?thesis by (simp add: frame)
qed

theorem update_notifies_witness:
  "\<exists>ps'. PeerStore_Update 0 NewPeerStore (sample_peer ''k'' [] [] 0) ''dht'' = Inr ps' \<and> store_inv ps'
     \<and> peers ps' = peers (record_peer 0 NewPeerStore (sample_peer ''k'' [] [] 0) ''dht'')"
  using update_notifies [of NewPeerStore "sample_peer ''k'' [] [] 0" 0 "''dht''"] store_inv_new
  by (auto simp: sample_peer_def PeerStore_Count_def NewPeerStore_def)

text \<open>
  C35. A notification that has copied the list of subscribers races with Unsubscribe, which
  closes the channel: the send on the closed channel panics, so goroutines that only call
  Subscribe, Update and Unsubscribe can bring the process down.
\<close>

theorem notify_unsubscribe_race: "\<exists>s. store_reach s \<and> ss_panicked s"
proof -
  let ?s1 = "store_init\<lparr>ss_store := sub_store\<rparr>"
  let ?s2 = "?s1\<lparr>ss_store := run_store, ss_events := [sample_event]\<rparr>"
  let ?s3 = "?s2\<lparr>ss_events := [], ss_sends := [(sample_event, [0])]\<rparr>"
  let ?closed = "run_store\<lparr>subscribers := [], chans := fmupd 0 \<lparr>ch_buf = [], ch_closed = True\<rparr> fmempty\<rparr>"
  let ?s4 = "?s3\<lparr>ss_store := ?closed\<rparr>"
  have sub: "sub_store = NewPeerStore\<lparr>subscribers := [0],
      chans := fmupd 0 \<lparr>ch_buf = [], ch_closed = False\<rparr> fmempty, next_chan := 1\<rparr>"
    by (simp add: sub_store_def PeerStore_Subscribe_def NewPeerStore_def)
  have upd: "update_locked 0 sub_store (sample_peer ''k'' [] [] 0) ''dht'' = (run_store, Some sample_event)"
    by (simp add: run_store_def sub update_locked_def NewPeerStore_def sample_peer_def sample_event_def
        DefaultMaxPeers_def Let_def)
  have run: "subscribers run_store = [0]" "chans run_store = fmupd 0 \<lparr>ch_buf = [], ch_closed = False\<rparr> fmempty"
    by (simp_all add: run_store_def sub)
  have r1: "store_reach ?s1"
    using store_reach.step [OF store_reach.init store_step.subscribe]
    by (simp add: store_init_def sub_store_def)
  have r2: "store_reach ?s2"
    using store_reach.step [OF r1 store_step.update [of 0 ?s1 "sample_peer ''k'' [] [] 0" "''dht''"
          run_store "Some sample_event"]] upd by (simp add: store_init_def)
  have r3: "store_reach ?s3"
    using store_reach.step [OF r2 store_step.copy_subs [of ?s2 "[]" sample_event "[]"]]
    by (simp add: store_init_def run)
  have "PeerStore_Unsubscribe (ss_store ?s3) 0 = Inr ?closed"
    by (simp add: PeerStore_Unsubscribe_def run chan_close_def)
  then have r4: "store_reach ?s4"
    by (rule store_reach.step [OF r3 store_step.unsubscribe])
  have "store_reach (?s4\<lparr>ss_panicked := True\<rparr>)"
    by (rule store_reach.step [OF r4 store_step.send_panic [of ?s4 "[]" sample_event 0 "[]" "[]" SendOnClosed]])
       (simp_all add: chan_try_send_def)
  moreover have "ss_panicked (?s4\<lparr>ss_panicked := True\<rparr>)" by simp
  ultimately show ?thesis by blast
qed

end
