(* ===== verification/Collision.thy ===== *)
theory Collision
  imports PeerStore Config
begin

text \<open>
  Collisions of mesh addresses: pkg/daemon/collision.go, and the check of a persisted address
  (meshIPInSubnet of pkg/daemon/daemon.go). Setting the address of the interface is an
  external command whose failure is only logged: the model returns the addresses that are set.
\<close>

section \<open>Detection and resolution\<close>

record CollisionInfo =
  col_MeshIP :: string
  Peer1 :: PeerInfo
  Peer2 :: PeerInfo

fun detect_loop :: "PeerInfo list \<Rightarrow> (string, PeerInfo) gomap \<Rightarrow> CollisionInfo list" where
  "detect_loop [] ipMap = []"
| "detect_loop (peer # ps) ipMap =
     (if MeshIP peer = [] then detect_loop ps ipMap
      else case fmlookup ipMap (MeshIP peer) of
          Some existing \<Rightarrow>
            if WGPubKey existing \<noteq> WGPubKey peer
            then \<lparr>col_MeshIP = MeshIP peer, Peer1 = existing, Peer2 = peer\<rparr> # detect_loop ps ipMap
            else detect_loop ps ipMap
        | None \<Rightarrow> detect_loop ps (fmupd (MeshIP peer) peer ipMap))"

definition DetectCollisions :: "string list \<Rightarrow> PeerStore \<Rightarrow> CollisionInfo list" where
  "DetectCollisions ks ps = detect_loop (PeerStore_GetAll ks ps) fmempty"

definition DeterministicWinner :: "PeerInfo \<Rightarrow> PeerInfo \<Rightarrow> PeerInfo \<times> PeerInfo" where
  "DeterministicWinner p1 p2 = (if WGPubKey p1 < WGPubKey p2 then (p1, p2) else (p2, p1))"

definition DeriveMeshIPWithNonce :: "byte \<times> byte \<Rightarrow> string \<Rightarrow> string \<Rightarrow> int \<Rightarrow> string" where
  "DeriveMeshIPWithNonce meshSubnet wgPubKey secret nonce =
     (let hash = sha256 (bytes_of (nonce_input wgPubKey secret nonce));
          suffix0 = be_word16 (take 2 hash);
          suffix = (if suffix0 = 0 then 1 else if suffix0 = 65535 then 65534 else suffix0)
      in ''10.'' @ itoa_nat (unat (fst meshSubnet)) @ ''.'' @ itoa_nat (unat (drop_bit 8 suffix AND 0xFF))
           @ ''.'' @ itoa_nat (unat (suffix AND 0xFF)))"

text \<open>The empty string is the value the code returns when the derivation fails.\<close>

definition ResolveCollision :: "CollisionInfo \<Rightarrow> byte \<times> byte \<Rightarrow> string \<Rightarrow> IPNet option \<Rightarrow> string" where
  "ResolveCollision collision meshSubnet secret customSubnet =
     (let loser = snd (DeterministicWinner (Peer1 collision) (Peer2 collision)) in
      case customSubnet of
        Some n \<Rightarrow> (case DeriveMeshIPInSubnetWithNonce n (WGPubKey loser) secret 1 of Inl _ \<Rightarrow> [] | Inr ip \<Rightarrow> ip)
      | None \<Rightarrow> DeriveMeshIPWithNonce meshSubnet (WGPubKey loser) secret 1)"

definition safeKeyPrefix :: "string \<Rightarrow> string" where
  "safeKeyPrefix key = (if length key > 8 then take 8 key @ ''...'' else key)"

text \<open>One round of the loop: the local node and the interface addresses set so far.\<close>

definition resolve_step :: "Config \<Rightarrow> LocalNode \<times> string list \<Rightarrow> CollisionInfo \<Rightarrow> LocalNode \<times> string list" where
  "resolve_step cfg st collision =
     (let (node, cmds) = st; loser = snd (DeterministicWinner (Peer1 collision) (Peer2 collision)) in
      if WGPubKey loser = ln_WGPubKey node then
        (case (case cfg_CustomSubnet cfg of
                 Some n \<Rightarrow> (case DeriveMeshIPInSubnetWithNonce n (ln_WGPubKey node) (cfg_Secret cfg) 1 of
                     Inl _ \<Rightarrow> None | Inr ip \<Rightarrow> Some ip)
               | None \<Rightarrow> Some (DeriveMeshIPWithNonce (MeshSubnet (cfg_Keys cfg)) (ln_WGPubKey node) (cfg_Secret cfg) 1)) of
           None \<Rightarrow> (node, cmds)
         | Some newIP \<Rightarrow>
             (node\<lparr>ln_MeshIP := newIP\<rparr>, cmds @ [newIP @ ''/'' @ itoa_nat (PrefixLen cfg)]))
      else (node, cmds))"

definition CheckAndResolveCollisions :: "string list \<Rightarrow> Config \<Rightarrow> PeerStore \<Rightarrow> LocalNode \<Rightarrow> LocalNode \<times> string list" where
  "CheckAndResolveCollisions ks cfg ps node = foldl (resolve_step cfg) (node, []) (DetectCollisions ks ps)"

text \<open>The address for a nonce, where nonce 0 stands for the plain derivation.\<close>

definition nonce_address :: "byte \<times> byte \<Rightarrow> string \<Rightarrow> string \<Rightarrow> IPNet option \<Rightarrow> int \<Rightarrow> subnet_error + string" where
  "nonce_address meshSubnet wgPubKey secret customSubnet nonce =
     (case customSubnet of
        Some n \<Rightarrow> if nonce = 0 then DeriveMeshIPInSubnet n wgPubKey secret
                  else DeriveMeshIPInSubnetWithNonce n wgPubKey secret nonce
      | None \<Rightarrow> Inr (if nonce = 0 then DeriveMeshIP meshSubnet wgPubKey secret
                     else DeriveMeshIPWithNonce meshSubnet wgPubKey secret nonce))"

fun collision_loop :: "(int \<Rightarrow> subnet_error + string) \<Rightarrow> (string, string) gomap \<Rightarrow> string \<Rightarrow> string \<Rightarrow> int list \<Rightarrow> string" where
  "collision_loop addr existing wgPubKey ip [] = ip"
| "collision_loop addr existing wgPubKey ip (nonce # ns) =
     (if (case fmlookup existing ip of None \<Rightarrow> True | Some owner \<Rightarrow> owner = wgPubKey) then ip
      else case addr nonce of Inl _ \<Rightarrow> [] | Inr ip' \<Rightarrow> collision_loop addr existing wgPubKey ip' ns)"

definition DeriveMeshIPWithCollisionCheck ::
    "byte \<times> byte \<Rightarrow> string \<Rightarrow> string \<Rightarrow> (string, string) gomap \<Rightarrow> IPNet option \<Rightarrow> string" where
  "DeriveMeshIPWithCollisionCheck meshSubnet wgPubKey secret existingIPs customSubnet =
     (case nonce_address meshSubnet wgPubKey secret customSubnet 0 of
        Inl _ \<Rightarrow> []
      | Inr ip \<Rightarrow> collision_loop (nonce_address meshSubnet wgPubKey secret customSubnet) existingIPs wgPubKey ip [1..10])"

definition meshIPInSubnet :: "string \<Rightarrow> Config \<Rightarrow> bool" where
  "meshIPInSubnet meshIP cfg =
     (case parse_ip meshIP of
        None \<Rightarrow> False
      | Some ip \<Rightarrow>
          (case cfg_CustomSubnet cfg of
             Some n \<Rightarrow> net_contains n ip
           | None \<Rightarrow> net_contains \<lparr>net_ip = [10, fst (MeshSubnet (cfg_Keys cfg)), 0, 0], net_mask = cidr_mask 16 4\<rparr> ip))"

section \<open>Lemmas on detection\<close>

text \<open>The map of a loop holds, for an address, the first peer with it.\<close>

lemma detect_loop_sound:
  assumes "c \<in> set (detect_loop ps m)"
    and "\<And>a p. fmlookup m a = Some p \<Longrightarrow> MeshIP p = a \<and> p \<in> S" "set ps \<subseteq> S"
  shows "Peer1 c \<in> S \<and> Peer2 c \<in> S \<and> MeshIP (Peer1 c) = col_MeshIP c \<and> MeshIP (Peer2 c) = col_MeshIP c
     \<and> col_MeshIP c \<noteq> [] \<and> WGPubKey (Peer1 c) \<noteq> WGPubKey (Peer2 c)"
  using assms
proof (induction ps m rule: detect_loop.induct)
  case (2 peer ps m)
  have S: "set ps \<subseteq> S" "peer \<in> S" using "2.prems"(3) by auto
  show ?case
  proof (cases "MeshIP peer = []")
    case True
    show ?thesis
      by (rule "2.IH"(1) [OF True _ "2.prems"(2) S(1)]) (use "2.prems"(1) True in simp)
  next
    case False
    show ?thesis
    proof (cases "fmlookup m (MeshIP peer)")
      case None
      have m: "MeshIP p = a \<and> p \<in> S" if "fmlookup (fmupd (MeshIP peer) peer m) a = Some p" for a p
        using that "2.prems"(2) [of a p] S(2) by (simp split: if_splits)
      show ?thesis
        by (rule "2.IH"(2) [OF False None _ m S(1)]) (use "2.prems"(1) False None in simp)
    next
      case (Some ex)
      show ?thesis
      proof (cases "WGPubKey ex \<noteq> WGPubKey peer")
        case differ: True
        have "c = \<lparr>col_MeshIP = MeshIP peer, Peer1 = ex, Peer2 = peer\<rparr> \<or> c \<in> set (detect_loop ps m)"
          using "2.prems"(1) False Some differ by simp
        then show ?thesis
        proof
          assume "c = \<lparr>col_MeshIP = MeshIP peer, Peer1 = ex, Peer2 = peer\<rparr>"
          then show ?thesis using "2.prems"(2) [OF Some] S False differ by simp
        qed (rule "2.IH"(3) [OF False Some differ _ "2.prems"(2) S(1)])
      next
        case same: False
        show ?thesis
          by (rule "2.IH"(4) [OF False Some same _ "2.prems"(2) S(1)]) (use "2.prems"(1) False Some same in simp)
      qed
    qed
  qed
qed simp

lemma detect_loop_complete:
  assumes "detect_loop ps m = []" "p \<in> set ps" "MeshIP p \<noteq> []"
  shows "case fmlookup m (MeshIP p) of Some q \<Rightarrow> WGPubKey p = WGPubKey q
     | None \<Rightarrow> \<forall>q \<in> set ps. MeshIP q = MeshIP p \<longrightarrow> WGPubKey q = WGPubKey p"
  using assms
proof (induction ps m arbitrary: p rule: detect_loop.induct)
  case (2 peer ps m)
  show ?case
  proof (cases "MeshIP peer = []")
    case True
    then have "detect_loop ps m = []" "p \<in> set ps" using "2.prems" by auto
    from "2.IH"(1) [OF True this "2.prems"(3)] True "2.prems"(3) show ?thesis by (auto split: option.splits)
  next
    case False
    show ?thesis
    proof (cases "fmlookup m (MeshIP peer)")
      case (Some ex)
      then have ex: "\<not> WGPubKey ex \<noteq> WGPubKey peer" "detect_loop ps m = []"
        using "2.prems"(1) False by (auto split: if_splits)
      show ?thesis
      proof (cases "MeshIP p = MeshIP peer \<and> p = peer")
        case True
        then show ?thesis using ex Some by simp
      next
        case other: False
        then have "p \<in> set ps" using "2.prems"(2) by auto
        from "2.IH"(4) [OF False Some ex this "2.prems"(3)] Some ex show ?thesis
          by (auto split: option.splits)
      qed
    next
      case None
      then have nil: "detect_loop ps (fmupd (MeshIP peer) peer m) = []"
        using "2.prems"(1) False by simp
      note IH = "2.IH"(2) [OF False None nil]
      have same: "WGPubKey q = WGPubKey peer" if "q \<in> set ps" "MeshIP q = MeshIP peer" for q
        using IH [OF that(1)] that(2) False by simp
      show ?thesis
      proof (cases "MeshIP p = MeshIP peer")
        case True
        then show ?thesis using None same "2.prems"(2) by auto
      next
        case other: False
        then have "p \<in> set ps" using "2.prems"(2) by auto
        from IH [OF this "2.prems"(3)] other show ?thesis by (auto split: option.splits)
      qed
    qed
  qed
qed simp

lemma winner_commute:
  "WGPubKey p1 \<noteq> WGPubKey p2 \<Longrightarrow> DeterministicWinner p1 p2 = DeterministicWinner p2 p1"
  by (auto simp: DeterministicWinner_def)

lemma resolve_step_other:
  assumes "WGPubKey (Peer1 c) \<noteq> ln_WGPubKey node" "WGPubKey (Peer2 c) \<noteq> ln_WGPubKey node"
  shows "resolve_step cfg (node, cmds) c = (node, cmds)"
  using assms by (simp add: resolve_step_def DeterministicWinner_def)

lemma foldl_resolve_other:
  assumes "\<forall>c \<in> set cs. WGPubKey (Peer1 c) \<noteq> ln_WGPubKey node \<and> WGPubKey (Peer2 c) \<noteq> ln_WGPubKey node"
  shows "foldl (resolve_step cfg) (node, cmds) cs = (node, cmds)"
  using assms by (induction cs) (simp_all add: resolve_step_other)

lemma split_suffix:
  fixes x :: "16 word"
  shows "unat (drop_bit 8 x AND 0xFF) = unat (ucast (drop_bit 8 x) :: byte)"
    and "unat (x AND 0xFF) = unat (ucast x :: byte)"
    and "unat x = 256 * unat (ucast (drop_bit 8 x) :: byte) + unat (ucast x :: byte)"
proof -
  have low: "unat (y AND 0xFF) = unat y mod 256" "unat (ucast y :: byte) = unat y mod 256" for y :: "16 word"
  proof -
    have "y AND 0xFF = take_bit 8 y" by (simp add: take_bit_eq_mask mask_eq_exp_minus_1)
    then show "unat (y AND 0xFF) = unat y mod 256" by (simp add: take_bit_eq_mod unat_mod)
    show "unat (ucast y :: byte) = unat y mod 256" by (simp add: unsigned_ucast_eq take_bit_eq_mod)
  qed
  show "unat (drop_bit 8 x AND 0xFF) = unat (ucast (drop_bit 8 x) :: byte)"
    "unat (x AND 0xFF) = unat (ucast x :: byte)" by (simp_all only: low)
  have "unat x < 2 ^ LENGTH(16)" by (rule unsigned_less)
  then have "unat x div 256 mod 256 = unat x div 256" by simp
  moreover have "unat (drop_bit 8 x) = unat x div 256" by (simp add: drop_bit_eq_div unat_div)
  ultimately show "unat x = 256 * unat (ucast (drop_bit 8 x) :: byte) + unat (ucast x :: byte)"
    by (simp only: low) simp
qed

lemma DeriveMeshIPWithNonce_bytes:
  "\<exists>hi lo. DeriveMeshIPWithNonce sn k s n = ipv4_string [10, fst sn, hi, lo]
     \<and> (hi, lo) \<noteq> (0, 0) \<and> (hi, lo) \<noteq> (255, 255)"
proof -
  define x0 where "x0 = be_word16 (take 2 (sha256 (bytes_of (nonce_input k s n))))"
  define x where "x = (if x0 = 0 then 1 else if x0 = 65535 then 65534 else x0)"
  let ?hi = "ucast (drop_bit 8 x) :: byte" and ?lo = "ucast x :: byte"
  have "x \<noteq> 0" "x \<noteq> 65535" by (auto simp: x_def)
  then have "unat x \<noteq> unat (0 :: 16 word)" "unat x \<noteq> unat (65535 :: 16 word)"
    by (simp_all only: word_unat_eq_iff [symmetric] not_False_eq_True)
  then have "unat x \<noteq> 0" "unat x \<noteq> 65535" by simp_all
  then have "(?hi, ?lo) \<noteq> (0, 0)" "(?hi, ?lo) \<noteq> (255, 255)"
    using split_suffix(3) [of x] by auto
  moreover have "itoa_nat 10 = ''10''" by code_simp
  then have "DeriveMeshIPWithNonce sn k s n = ipv4_string [10, fst sn, ?hi, ?lo]"
    unfolding DeriveMeshIPWithNonce_def Let_def x0_def [symmetric] x_def [symmetric]
    by (simp add: ipv4_string_def split_suffix(1,2))
  ultimately show ?thesis by blast
qed

lemma legacy_in_subnet:
  "net_contains \<lparr>net_ip = [10, s0, 0, 0], net_mask = cidr_mask 16 4\<rparr> (v4_in_v6 [10, s0, hi, lo])"
  by (simp add: net_contains_def to4_def [of "[_, _, _, _]"] cidr_mask_def ip_mask_def upt_rec)

section \<open>Properties\<close>







text \<open>
  A derived legacy address, with or without a nonce, passes the check that decides at the
  next start whether the persisted address is kept, is never the first or the last address of
  the /16, and without a nonce its last octet is neither 0 nor 255.
\<close>

theorem legacy_address_kept:
  assumes "cfg_CustomSubnet cfg = None"
  shows "meshIPInSubnet (DeriveMeshIP (MeshSubnet (cfg_Keys cfg)) k s) cfg
     \<and> meshIPInSubnet (DeriveMeshIPWithNonce (MeshSubnet (cfg_Keys cfg)) k s n) cfg
     \<and> (\<exists>hi lo. parse_ip (DeriveMeshIP (MeshSubnet (cfg_Keys cfg)) k s) =
            Some (v4_in_v6 [10, fst (MeshSubnet (cfg_Keys cfg)), hi, lo]) \<and> lo \<noteq> 0 \<and> lo \<noteq> 255)
     \<and> (\<exists>hi lo. parse_ip (DeriveMeshIPWithNonce (MeshSubnet (cfg_Keys cfg)) k s n) =
            Some (v4_in_v6 [10, fst (MeshSubnet (cfg_Keys cfg)), hi, lo])
            \<and> (hi, lo) \<noteq> (0, 0) \<and> (hi, lo) \<noteq> (255, 255))"
proof -
  let ?sn = "MeshSubnet (cfg_Keys cfg)"
  have p: "parse_ip (ipv4_string [10, fst ?sn, hi, lo]) = Some (v4_in_v6 [10, fst ?sn, hi, lo])" for hi lo
    by (rule parse_ip_ipv4_string) simp
  have m: "meshIPInSubnet (ipv4_string [10, fst ?sn, hi, lo]) cfg" for hi lo
    using assms by (simp add: meshIPInSubnet_def p legacy_in_subnet)
  obtain hi lo where n: "DeriveMeshIPWithNonce ?sn k s n = ipv4_string [10, fst ?sn, hi, lo]"
      "(hi, lo) \<noteq> (0, 0)" "(hi, lo) \<noteq> (255, 255)"
    using DeriveMeshIPWithNonce_bytes by blast
  obtain hi' lo' where d: "DeriveMeshIP ?sn k s = ipv4_string [10, fst ?sn, hi', lo']" "lo' \<noteq> 0" "lo' \<noteq> 255"
    using DeriveMeshIP_bytes [of ?sn k s] clamp_octet_range by blast
  show ?thesis unfolding n(1) d(1) p using m n(2,3) d(2,3) by blast
qed

theorem legacy_address_kept_witness:
  "meshIPInSubnet (DeriveMeshIP (MeshSubnet (cfg_Keys sample_config)) ''key'' ''secret'') sample_config"
  using legacy_address_kept [of sample_config] by (simp add: sample_config_def)

end
