(* ===== verification/Reconcile.thy ===== *)
theory Reconcile
  imports Collision Routes WgConfig
begin

text \<open>
  The reconciliation of the daemon (pkg/daemon/daemon.go and pkg/daemon/routes.go): which peers
  are reached directly and which through a relay, the WireGuard configuration and the routes that
  follow, and the commands that bring the host there. The output of the external commands, the
  clock and the order of range statements are arguments; the commands are returned. An operation
  reads the clock once.
\<close>

section \<open>State\<close>

definition RelayCandidateMaxAge :: duration where "RelayCandidateMaxAge = 90 * Second"
definition HandshakeStaleAfter :: duration where "HandshakeStaleAfter = 150 * Second"
definition TemporaryOfflineTTL :: duration where "TemporaryOfflineTTL = 30 * Second"
definition RelayHysteresisThreshold :: int where "RelayHysteresisThreshold = 3"
definition MeshProbePortOffset :: int where "MeshProbePortOffset = 2000"

text \<open>A probe session is its connection, named by a number.\<close>

record Daemon =
  dm_config :: Config
  dm_localNode :: LocalNode
  dm_peerStore :: PeerStore
  lastAppliedPeerConfigs :: "(string, string) gomap"
  relayRoutes :: "(string, string) gomap"
  directStableCycles :: "(string, int) gomap"
  peerHealthFailures :: "(string, int) gomap"
  lastPeerTransferTotal :: "(string, 64 word) gomap"
  healthProbePort :: int
  probeSessions :: "(string, nat) gomap"
  probeFailures :: "(string, int) gomap"
  temporaryOffline :: "(string, gotime) gomap"

definition NewDaemon :: "Config \<Rightarrow> LocalNode \<Rightarrow> Daemon" where
  "NewDaemon config node = \<lparr>dm_config = config, dm_localNode = node, dm_peerStore = NewPeerStore,
     lastAppliedPeerConfigs = fmempty, relayRoutes = fmempty, directStableCycles = fmempty,
     peerHealthFailures = fmempty, lastPeerTransferTotal = fmempty,
     healthProbePort = int (unat (GossipPort (cfg_Keys config))) + MeshProbePortOffset,
     probeSessions = fmempty, probeFailures = fmempty, temporaryOffline = fmempty\<rparr>"

section \<open>Peers that are offline for a while\<close>

definition markTemporarilyOffline :: "gotime \<Rightarrow> (string, gotime) gomap \<Rightarrow> string \<Rightarrow> (string, gotime) gomap" where
  "markTemporarilyOffline now m pubKey = (if pubKey = [] then m else fmupd pubKey (now + TemporaryOfflineTTL) m)"

definition clearTemporarilyOffline :: "(string, gotime) gomap \<Rightarrow> string \<Rightarrow> (string, gotime) gomap" where
  "clearTemporarilyOffline m pubKey = (if pubKey = [] then m else fmdrop pubKey m)"

definition isTemporarilyOffline :: "gotime \<Rightarrow> (string, gotime) gomap \<Rightarrow> string \<Rightarrow> bool \<times> (string, gotime) gomap" where
  "isTemporarilyOffline now m pubKey =
     (if pubKey = [] then (False, m)
      else case fmlookup m pubKey of
        None \<Rightarrow> (False, m)
      | Some until \<Rightarrow> if now > until then (False, fmdrop pubKey m) else (True, m))"

section \<open>Direct or relayed\<close>

definition hasDiscoveryMethod :: "string list \<Rightarrow> string \<Rightarrow> bool" where
  "hasDiscoveryMethod methods target = list_ex (\<lambda>m. m = target) methods"

definition isIPv6Endpoint :: "string \<Rightarrow> bool" where
  "isIPv6Endpoint endpoint =
     (case split_host_port endpoint of
        None \<Rightarrow> False
      | Some (host, _) \<Rightarrow> (case parse_ip host of None \<Rightarrow> False | Some ip \<Rightarrow> to4 ip = None))"

definition endpointOnAnyLocalSubnet :: "string \<Rightarrow> IPNet list \<Rightarrow> bool" where
  "endpointOnAnyLocalSubnet endpoint subnets =
     (if endpoint = [] \<or> subnets = [] then False
      else case split_host_port endpoint of
        None \<Rightarrow> False
      | Some (host, _) \<Rightarrow>
          (case parse_ip host of None \<Rightarrow> False | Some ip \<Rightarrow> list_ex (\<lambda>n. net_contains n ip) subnets))"

text \<open>The table of handshakes is None when it could not be read.\<close>

definition shouldRelayPeerWithSubnets :: "Config \<Rightarrow> LocalNode \<Rightarrow> gotime \<Rightarrow> PeerInfo \<Rightarrow> PeerInfo list \<Rightarrow>
    (string, int) gomap option \<Rightarrow> IPNet list \<Rightarrow> bool" where
  "shouldRelayPeerWithSubnets cfg node now peer relayCandidates handshakes localSubnets =
     (if cfg_Introducer cfg then False
      else if Introducer peer then False
      else if hasDiscoveryMethod (DiscoveredVia peer) LANMethod then False
      else if endpointOnAnyLocalSubnet (Endpoint peer) localSubnets then False
      else if cfg_ForceRelay cfg then relayCandidates \<noteq> []
      else if relayCandidates = [] then False
      else let ts = (case handshakes of None \<Rightarrow> None | Some h \<Rightarrow> fmlookup h (WGPubKey peer)) in
        case (case ts of Some t \<Rightarrow> if t > 0 then Some t else None | None \<Rightarrow> None) of
          Some t \<Rightarrow> \<not> time_sub now (time_unix t) < HandshakeStaleAfter
        | None \<Rightarrow>
            if \<not> cfg_DisableIPv6 cfg \<and> isIPv6Endpoint (Endpoint peer) then False
            else if ln_NATType node = ''symmetric'' \<and> NATType peer = ''symmetric'' then True
            else handshakes \<noteq> None \<and> (ts = None \<or> ts = Some 0)
              \<and> hasDiscoveryMethod (DiscoveredVia peer) ''dht-transitive'')"

text \<open>The keys of the candidates differ, so that every sort of them gives the same list.\<close>

definition selectRelayForPeer :: "LocalNode \<Rightarrow> PeerInfo \<Rightarrow> PeerInfo list \<Rightarrow> PeerInfo option" where
  "selectRelayForPeer node peer relayCandidates =
     (let sorted = sort_key WGPubKey (filter (\<lambda>c. WGPubKey c \<noteq> [] \<and> Endpoint c \<noteq> []) relayCandidates)
      in if sorted = [] then None
         else Some (sorted ! (unat (fnv64a (bytes_of (ln_WGPubKey node) @ [0] @ bytes_of (WGPubKey peer)))
                                mod length sorted)))"

section \<open>The desired configuration\<close>

record desiredPeerConfig =
  dc_peer :: PeerInfo
  dc_allowed :: "string set"

definition addAllowedIP :: "(string, desiredPeerConfig) gomap \<Rightarrow> PeerInfo \<Rightarrow> string \<Rightarrow> (string, desiredPeerConfig) gomap" where
  "addAllowedIP desired peer cidr =
     (if WGPubKey peer = [] \<or> cidr = [] then desired
      else let entry = (case fmlookup desired (WGPubKey peer) of
                 Some e \<Rightarrow> e | None \<Rightarrow> \<lparr>dc_peer = peer, dc_allowed = {}\<rparr>)
           in fmupd (WGPubKey peer) (entry\<lparr>dc_allowed := insert cidr (dc_allowed entry)\<rparr>) desired)"

text \<open>The addresses behind a peer, and the calls that send them to a hop.\<close>

definition peer_cidrs :: "PeerInfo \<Rightarrow> string list" where
  "peer_cidrs p = [MeshIP p @ ''/32''] @ (if MeshIPv6 p \<noteq> [] then [MeshIPv6 p @ ''/128''] else [])
     @ filter (\<lambda>n. n \<noteq> []) (map trim_space (RoutableNetworks p))"

definition route_via :: "(string, desiredPeerConfig) gomap \<Rightarrow> PeerInfo \<Rightarrow> PeerInfo \<Rightarrow> (string, desiredPeerConfig) gomap" where
  "route_via desired hop p = foldl (\<lambda>d c. addAllowedIP d hop c) desired (peer_cidrs p)"

fun relay_candidates :: "gotime \<Rightarrow> LocalNode \<Rightarrow> PeerInfo list \<Rightarrow> (string, gotime) gomap \<Rightarrow>
    PeerInfo list \<times> (string, gotime) gomap" where
  "relay_candidates now node [] m = ([], m)"
| "relay_candidates now node (p # ps) m =
     (if WGPubKey p = ln_WGPubKey node \<or> WGPubKey p = [] then relay_candidates now node ps m
      else let (off, m') = isTemporarilyOffline now m (WGPubKey p) in
        if off then relay_candidates now node ps m'
        else let (cs, m'') = relay_candidates now node ps m' in
          (if Introducer p \<and> Endpoint p \<noteq> [] \<and> time_sub now (LastSeen p) \<le> RelayCandidateMaxAge
           then p # cs else cs, m''))"

record build =
  bd_desired :: "(string, desiredPeerConfig) gomap"
  bd_relayRoutes :: "(string, string) gomap"
  bd_directStable :: "(string, int) gomap"
  bd_offline :: "(string, gotime) gomap"

text \<open>
  The second loop for one peer: \<open>relay\<close> is the decision of shouldRelayPeerWithSubnets and
  \<open>cands\<close> are the relay candidates; \<open>prevRoutes\<close> and \<open>prevStable\<close> are the snapshots.
\<close>

definition build_peer :: "LocalNode \<Rightarrow> gotime \<Rightarrow> (PeerInfo \<Rightarrow> bool) \<Rightarrow> PeerInfo list \<Rightarrow> (string, string) gomap \<Rightarrow>
    (string, int) gomap \<Rightarrow> build \<Rightarrow> PeerInfo \<Rightarrow> build" where
  "build_peer node now relay cands prevRoutes prevStable st p =
     (if WGPubKey p = ln_WGPubKey node \<or> WGPubKey p = [] \<or> MeshIP p = [] then st
      else let (off, m) = isTemporarilyOffline now (bd_offline st) (WGPubKey p); st = st\<lparr>bd_offline := m\<rparr> in
        if off then st
        else let wasRelayed = (fmlookup prevRoutes (WGPubKey p) \<noteq> None);
                 n = go_index 0 prevStable (WGPubKey p) + 1;
                 hold = (wasRelayed \<and> \<not> relay p \<and> n < RelayHysteresisThreshold);
                 st = (if hold then st\<lparr>bd_directStable := fmupd (WGPubKey p) n (bd_directStable st)\<rparr> else st)
             in case (if relay p \<or> hold then selectRelayForPeer node p cands else None) of
                  Some r \<Rightarrow> st\<lparr>bd_relayRoutes := fmupd (WGPubKey p) (WGPubKey r) (bd_relayRoutes st),
                               bd_desired := route_via (bd_desired st) r p\<rparr>
                | None \<Rightarrow> st\<lparr>bd_desired := route_via (bd_desired st) p p\<rparr>)"

definition buildDesiredPeerConfigsWithHandshakes :: "gotime \<Rightarrow> IPNet list \<Rightarrow> Daemon \<Rightarrow> PeerInfo list \<Rightarrow>
    (string, int) gomap option \<Rightarrow> build" where
  "buildDesiredPeerConfigsWithHandshakes now localSubnets d ps handshakes =
     (let node = dm_localNode d;
          (cands, m) = relay_candidates now node ps (temporaryOffline d);
          relay = (\<lambda>p. shouldRelayPeerWithSubnets (dm_config d) node now p cands handshakes localSubnets)
      in foldl (build_peer node now relay cands (relayRoutes d) (directStableCycles d))
           \<lparr>bd_desired = fmempty, bd_relayRoutes = fmempty, bd_directStable = fmempty, bd_offline = m\<rparr> ps)"

section \<open>Applying it\<close>

text \<open>A command of the wg tool: its arguments and its standard input.\<close>

type_synonym wg_cmd = "string list \<times> string option"

record host =
  h_handshakes :: "string option"
  h_transfers :: "string option"
  h_peers :: "string option"
  h_routes :: "string option"
  h_fails :: "argv \<Rightarrow> bool"
  h_subnets :: "IPNet list"
  h_linux :: bool

definition SetPeer :: "(argv \<Rightarrow> bool) \<Rightarrow> Config \<Rightarrow> string \<Rightarrow> string \<Rightarrow> string \<Rightarrow> wg_cmd \<times> bool" where
  "SetPeer fails cfg pubKey endpoint allowedIPs =
     (let c = wg_set_args (cfg_InterfaceName cfg) pubKey (PSK (cfg_Keys cfg)) endpoint allowedIPs
      in (c, \<not> fails (''wg'' # fst c)))"

definition RemovePeer :: "Config \<Rightarrow> string \<Rightarrow> wg_cmd" where
  "RemovePeer cfg pubKey = (wg_remove_args (cfg_InterfaceName cfg) pubKey, None)"

definition mapKeysSorted :: "string set \<Rightarrow> string list" where
  "mapKeysSorted m = sorted_list_of_set m"

definition allowed_csv :: "desiredPeerConfig \<Rightarrow> string" where
  "allowed_csv c = join_with '','' (mapKeysSorted (dc_allowed c))"

definition signature :: "desiredPeerConfig \<Rightarrow> string" where
  "signature c = Endpoint (dc_peer c) @ ''|'' @ allowed_csv c"

text \<open>The entries of the desired configuration that the second loop does not skip.\<close>

definition configurable :: "Config \<Rightarrow> desiredPeerConfig \<Rightarrow> bool" where
  "configurable cfg c \<longleftrightarrow> Endpoint (dc_peer c) \<noteq> []
     \<and> \<not> (cfg_DisableIPv6 cfg \<and> isIPv6Endpoint (Endpoint (dc_peer c))) \<and> mapKeysSorted (dc_allowed c) \<noteq> []"

fun remove_obsolete :: "Config \<Rightarrow> (string, desiredPeerConfig) gomap \<Rightarrow> string list \<Rightarrow> (string, string) gomap \<Rightarrow>
    wg_cmd list \<times> (string, string) gomap" where
  "remove_obsolete cfg desired [] cache = ([], cache)"
| "remove_obsolete cfg desired (k # ks) cache =
     (if fmlookup desired k \<noteq> None then remove_obsolete cfg desired ks cache
      else let (cs, cache') = remove_obsolete cfg desired ks (fmdrop k cache) in (RemovePeer cfg k # cs, cache'))"

text \<open>The commands, the signatures that are applied, and whether no command failed.\<close>

fun set_desired :: "(argv \<Rightarrow> bool) \<Rightarrow> Config \<Rightarrow> (string, desiredPeerConfig) gomap \<Rightarrow> string list \<Rightarrow> (string, string) gomap \<Rightarrow>
    wg_cmd list \<times> (string, string) gomap \<times> bool" where
  "set_desired fails cfg desired [] cache = ([], cache, True)"
| "set_desired fails cfg desired (k # ks) cache =
     (case fmlookup desired k of
        None \<Rightarrow> set_desired fails cfg desired ks cache
      | Some c \<Rightarrow>
          if \<not> configurable cfg c \<or> fmlookup cache k = Some (signature c)
          then set_desired fails cfg desired ks cache
          else case SetPeer fails cfg k (Endpoint (dc_peer c)) (allowed_csv c) of
              (cmd, False) \<Rightarrow> ([cmd], fmdrop k cache, False)
            | (cmd, True) \<Rightarrow>
                (let (cs, cache', ok) = set_desired fails cfg desired ks (fmupd k (signature c) cache)
                 in (cmd # cs, cache', ok)))"

definition applyDesiredPeerConfigs :: "host \<Rightarrow> string list \<Rightarrow> Config \<Rightarrow> (string, desiredPeerConfig) gomap \<Rightarrow>
    (string, string) gomap \<Rightarrow> wg_cmd list \<times> (string, string) gomap \<times> bool" where
  "applyDesiredPeerConfigs h ks cfg desired cache =
     (let (rm, cache) = (case GetPeers (h_peers h) of
            None \<Rightarrow> ([], cache)
          | Some existing \<Rightarrow> remove_obsolete cfg desired (map wp_PublicKey existing) cache);
          (cs, cache', ok) = set_desired (h_fails h) cfg desired ks cache
      in (rm @ cs, cache', ok))"

section \<open>Routes and the whole cycle\<close>

definition mesh_ip_by_key :: "PeerInfo list \<Rightarrow> (string, string) gomap" where
  "mesh_ip_by_key ps = foldl (\<lambda>m p. if WGPubKey p \<noteq> [] \<and> MeshIP p \<noteq> [] then fmupd (WGPubKey p) (MeshIP p) m else m) fmempty ps"

fun desired_routes :: "gotime \<Rightarrow> LocalNode \<Rightarrow> (string, string) gomap \<Rightarrow> (string, string) gomap \<Rightarrow> PeerInfo list \<Rightarrow>
    (string, gotime) gomap \<Rightarrow> Entry list \<times> (string, gotime) gomap" where
  "desired_routes now node relays ips [] m = ([], m)"
| "desired_routes now node relays ips (p # ps) m =
     (if WGPubKey p = ln_WGPubKey node \<or> MeshIP p = [] then desired_routes now node relays ips ps m
      else let (off, m') = isTemporarilyOffline now m (WGPubKey p) in
        if off then desired_routes now node relays ips ps m'
        else let relayIP = (case fmlookup relays (WGPubKey p) of None \<Rightarrow> [] | Some r \<Rightarrow> go_index [] ips r);
                 gateway = (if relayIP \<noteq> [] then relayIP else MeshIP p);
                 rs = map (\<lambda>n. \<lparr>rt_Network = n, rt_Gateway = gateway\<rparr>)
                        (filter (\<lambda>n. n \<noteq> []) (map trim_space (RoutableNetworks p)));
                 (rest, m'') = desired_routes now node relays ips ps m'
             in (rs @ rest, m''))"

definition syncPeerRoutes :: "host \<Rightarrow> range_orders \<Rightarrow> gotime \<Rightarrow> Daemon \<Rightarrow> PeerInfo list \<Rightarrow>
    argv list \<times> bool \<times> (string, gotime) gomap" where
  "syncPeerRoutes h ord now d ps =
     (if \<not> h_linux h then ([], True, temporaryOffline d)
      else let (desired, m) = desired_routes now (dm_localNode d) (relayRoutes d) (mesh_ip_by_key ps) ps (temporaryOffline d) in
        case getCurrentRoutes (h_routes h) of
          None \<Rightarrow> ([], False, m)
        | Some current \<Rightarrow>
            (let (toAdd, toRemove) = CalculateDiff (ord 2 (fmdom (route_map desired))) (ord 3 (fmdom (route_map current))) current desired;
                 (cs, ok) = applyRouteDiff (h_fails h) (cfg_InterfaceName (dm_config d)) toAdd toRemove
             in (cs, ok, m)))"

text \<open>The commands of a cycle: those of wg, those for the routes, and the addresses that are set.\<close>

record effects =
  ef_wg :: "wg_cmd list"
  ef_routes :: "argv list"
  ef_addresses :: "string list"

definition reconcile :: "host \<Rightarrow> range_orders \<Rightarrow> gotime \<Rightarrow> Daemon \<Rightarrow> Daemon \<times> effects" where
  "reconcile h ord now d =
     (let ps = PeerStore_GetActive (ord 0 (fmdom (peers (dm_peerStore d)))) now (dm_peerStore d);
          b = buildDesiredPeerConfigsWithHandshakes now (h_subnets h) d ps (GetLatestHandshakes (h_handshakes h));
          d = d\<lparr>relayRoutes := bd_relayRoutes b, directStableCycles := bd_directStable b, temporaryOffline := bd_offline b\<rparr>;
          (wg, cache, _) = applyDesiredPeerConfigs h (ord 1 (fmdom (bd_desired b))) (dm_config d) (bd_desired b) (lastAppliedPeerConfigs d);
          d = d\<lparr>lastAppliedPeerConfigs := cache\<rparr>;
          (rt, _, m) = syncPeerRoutes h ord now d ps;
          d = d\<lparr>temporaryOffline := m\<rparr>;
          (node, addrs) = CheckAndResolveCollisions (ord 4 (fmdom (peers (dm_peerStore d)))) (dm_config d) (dm_peerStore d) (dm_localNode d)
      in (d\<lparr>dm_localNode := node\<rparr>, \<lparr>ef_wg = wg, ef_routes = rt, ef_addresses = addrs\<rparr>))"

section \<open>Lemmas\<close>

definition offline :: "gotime \<Rightarrow> (string, gotime) gomap \<Rightarrow> string \<Rightarrow> bool" where
  "offline now m k = fst (isTemporarilyOffline now m k)"

text \<open>The peers a cycle configures, and the peers that may relay.\<close>

definition eligible :: "gotime \<Rightarrow> Daemon \<Rightarrow> PeerInfo \<Rightarrow> bool" where
  "eligible now d p \<longleftrightarrow> WGPubKey p \<noteq> ln_WGPubKey (dm_localNode d) \<and> WGPubKey p \<noteq> [] \<and> MeshIP p \<noteq> []
     \<and> \<not> offline now (temporaryOffline d) (WGPubKey p)"

definition candidate :: "gotime \<Rightarrow> Daemon \<Rightarrow> PeerInfo \<Rightarrow> bool" where
  "candidate now d p \<longleftrightarrow> WGPubKey p \<noteq> ln_WGPubKey (dm_localNode d) \<and> WGPubKey p \<noteq> []
     \<and> \<not> offline now (temporaryOffline d) (WGPubKey p)
     \<and> Introducer p \<and> Endpoint p \<noteq> [] \<and> time_sub now (LastSeen p) \<le> RelayCandidateMaxAge"

lemma offline_stable: "offline now (snd (isTemporarilyOffline now m j)) k = offline now m k"
  by (auto simp: offline_def isTemporarilyOffline_def split: option.splits)

lemma offline_cases: "isTemporarilyOffline now m k = (off, m') \<Longrightarrow> off = offline now m k \<and> (\<forall>j. offline now m' j = offline now m j)"
  using offline_stable [of now m k] by (auto simp: offline_def)

lemma relay_candidates_eq:
  "relay_candidates now node ps m = (cs, m') \<Longrightarrow>
   cs = filter (\<lambda>p. WGPubKey p \<noteq> ln_WGPubKey node \<and> WGPubKey p \<noteq> [] \<and> \<not> offline now m (WGPubKey p)
     \<and> Introducer p \<and> Endpoint p \<noteq> [] \<and> time_sub now (LastSeen p) \<le> RelayCandidateMaxAge) ps
   \<and> (\<forall>k. offline now m' k = offline now m k)"
  by (induction now node ps m arbitrary: cs m' rule: relay_candidates.induct)
    (auto simp: Let_def split: if_splits prod.splits dest!: offline_cases)

lemma candidates_eq:
  "relay_candidates now (dm_localNode d) ps (temporaryOffline d) = (cs, m) \<Longrightarrow>
   cs = filter (candidate now d) ps \<and> (\<forall>k. offline now m k = offline now (temporaryOffline d) k)"
  using relay_candidates_eq [of now "dm_localNode d" ps "temporaryOffline d" cs m]
  by (simp add: candidate_def [abs_def])

lemma selectRelay_Some:
  assumes "selectRelayForPeer node p cs = Some r"
  shows "r \<in> set cs \<and> WGPubKey r \<noteq> []"
proof -
  let ?f = "sort_key WGPubKey (filter (\<lambda>c. WGPubKey c \<noteq> [] \<and> Endpoint c \<noteq> []) cs)"
  have "?f \<noteq> []" "r = ?f ! (unat (fnv64a (bytes_of (ln_WGPubKey node) @ [0] @ bytes_of (WGPubKey p))) mod length ?f)"
    using assms by (auto simp: selectRelayForPeer_def Let_def split: if_splits)
  moreover from this(1) have "unat (fnv64a (bytes_of (ln_WGPubKey node) @ [0] @ bytes_of (WGPubKey p))) mod length ?f < length ?f"
    by (intro mod_less_divisor) (simp only: length_greater_0_conv simp_thms)
  ultimately have "r \<in> set ?f" using nth_mem by blast
  then show ?thesis by simp
qed

lemma selectRelay_None: "selectRelayForPeer node p (filter (candidate now d) ps) = None \<longleftrightarrow> filter (candidate now d) ps = []"
  by (auto simp: selectRelayForPeer_def Let_def candidate_def filter_empty_conv simp flip: set_empty)

lemma peer_cidrs_nonempty: "c \<in> set (peer_cidrs p) \<Longrightarrow> c \<noteq> []"
  by (auto simp: peer_cidrs_def split: if_splits)

lemma add_all_lookup:
  assumes "WGPubKey hop \<noteq> []" "[] \<notin> set cs" "cs \<noteq> []"
  shows "fmlookup (foldl (\<lambda>d c. addAllowedIP d hop c) d cs) k =
    (if k = WGPubKey hop then Some (case fmlookup d k of
         Some e \<Rightarrow> e\<lparr>dc_allowed := dc_allowed e \<union> set cs\<rparr> | None \<Rightarrow> \<lparr>dc_peer = hop, dc_allowed = set cs\<rparr>)
     else fmlookup d k)"
  using assms(2,3)
proof (induction cs arbitrary: d)
  case (Cons c cs)
  then show ?case
    using assms(1) by (cases "cs = []") (auto simp: addAllowedIP_def Let_def split: option.splits)
qed simp

lemma route_via_lookup:
  assumes "WGPubKey hop \<noteq> []"
  shows "fmlookup (route_via d hop p) k =
    (if k = WGPubKey hop then Some (case fmlookup d k of
         Some e \<Rightarrow> e\<lparr>dc_allowed := dc_allowed e \<union> set (peer_cidrs p)\<rparr> | None \<Rightarrow> \<lparr>dc_peer = hop, dc_allowed = set (peer_cidrs p)\<rparr>)
     else fmlookup d k)"
  unfolding route_via_def
  by (rule add_all_lookup [OF assms]) (use peer_cidrs_nonempty [of "[]" p] in \<open>auto simp: peer_cidrs_def\<close>)

text \<open>What a cycle decides for a peer: the relay it goes through, if any, and whether an old route is held.\<close>

definition relay_held :: "(string, string) gomap \<Rightarrow> (string, int) gomap \<Rightarrow> bool \<Rightarrow> string \<Rightarrow> bool" where
  "relay_held prevRoutes prevStable relay k \<longleftrightarrow> fmlookup prevRoutes k \<noteq> None \<and> \<not> relay
     \<and> go_index 0 prevStable k + 1 < RelayHysteresisThreshold"

lemma build_peer_eq:
  assumes "\<And>k. offline now (bd_offline st) k = offline now m k"
  shows "\<exists>m'. (\<forall>k. offline now m' k = offline now m k) \<and> build_peer node now relay cands routes counts st p =
    (if WGPubKey p = ln_WGPubKey node \<or> WGPubKey p = [] \<or> MeshIP p = [] \<or> offline now m (WGPubKey p) then st\<lparr>bd_offline := m'\<rparr>
     else let hold = relay_held routes counts (relay p) (WGPubKey p);
              r = (if relay p \<or> hold then selectRelayForPeer node p cands else None)
          in \<lparr>bd_desired = route_via (bd_desired st) (case r of Some q \<Rightarrow> q | None \<Rightarrow> p) p,
              bd_relayRoutes = (case r of Some q \<Rightarrow> fmupd (WGPubKey p) (WGPubKey q) (bd_relayRoutes st) | None \<Rightarrow> bd_relayRoutes st),
              bd_directStable = (if hold then fmupd (WGPubKey p) (go_index 0 counts (WGPubKey p) + 1) (bd_directStable st)
                 else bd_directStable st),
              bd_offline = m'\<rparr>)"
proof (cases "WGPubKey p = ln_WGPubKey node \<or> WGPubKey p = [] \<or> MeshIP p = []")
  case True
  then show ?thesis using assms by (intro exI [of _ "bd_offline st"]) (auto simp: build_peer_def)
next
  case False
  obtain off m' where o: "isTemporarilyOffline now (bd_offline st) (WGPubKey p) = (off, m')" by fastforce
  from offline_cases [OF o] assms have "off = offline now m (WGPubKey p)" "\<forall>k. offline now m' k = offline now m k" by simp_all
  with False o show ?thesis
    by (intro exI [of _ m']) (auto simp: build_peer_def relay_held_def Let_def split: option.splits)
qed

lemma filter_snoc: "filter P (xs @ [x]) = filter P xs @ (if P x then [x] else [])"
  by simp

text \<open>
  The result of the second loop, for peers with distinct keys: \<open>ok\<close> says which peers are
  configured, \<open>via\<close> which relay a peer gets and \<open>hold\<close> whether its old route is held.
\<close>

lemma build_fold:
  assumes off: "\<And>k. offline now (bd_offline st) k = offline now m k"
    and st: "bd_desired st = fmempty" "bd_relayRoutes st = fmempty" "bd_directStable st = fmempty"
    and ok: "ok = (\<lambda>p. WGPubKey p \<noteq> ln_WGPubKey node \<and> WGPubKey p \<noteq> [] \<and> MeshIP p \<noteq> [] \<and> \<not> offline now m (WGPubKey p))"
    and hold: "hold = (\<lambda>p. relay_held routes counts (relay p) (WGPubKey p))"
    and via: "via = (\<lambda>p. if relay p \<or> hold p then selectRelayForPeer node p cands else None)"
    and hop: "hop = (\<lambda>p. case via p of Some q \<Rightarrow> q | None \<Rightarrow> p)"
    and cands: "\<forall>c \<in> set cands. WGPubKey c \<noteq> []"
    and b: "b = foldl (build_peer node now relay cands routes counts) st ps"
    and distinct: "distinct (map WGPubKey ps)"
  shows "(\<forall>k. offline now (bd_offline b) k = offline now m k)
    \<and> (\<forall>k. fmlookup (bd_desired b) k = (case filter (\<lambda>p. ok p \<and> WGPubKey (hop p) = k) ps of [] \<Rightarrow> None
        | p # qs \<Rightarrow> Some \<lparr>dc_peer = hop p, dc_allowed = \<Union> ((set \<circ> peer_cidrs) ` set (p # qs))\<rparr>))
    \<and> (\<forall>k. fmlookup (bd_relayRoutes b) k = (case filter (\<lambda>p. ok p \<and> WGPubKey p = k) ps of [] \<Rightarrow> None
        | p # qs \<Rightarrow> map_option WGPubKey (via p)))
    \<and> (\<forall>k. fmlookup (bd_directStable b) k = (case filter (\<lambda>p. ok p \<and> WGPubKey p = k) ps of [] \<Rightarrow> None
        | p # qs \<Rightarrow> if hold p then Some (go_index 0 counts k + 1) else None))"
  using b distinct
proof (induction ps arbitrary: b rule: rev_induct)
  case Nil
  then show ?case using off st by simp
next
  case (snoc p ps)
  let ?b = "foldl (build_peer node now relay cands routes counts) st ps"
  have d: "distinct (map WGPubKey ps)" "WGPubKey p \<notin> WGPubKey ` set ps" using snoc.prems(2) by auto
  note IH = snoc.IH [OF refl d(1)]
  have none: "filter (\<lambda>q. ok q \<and> WGPubKey q = WGPubKey p) ps = []"
    unfolding filter_empty_conv using d(2) imageI [of _ "set ps" WGPubKey] by metis
  obtain m' where m': "\<forall>k. offline now m' k = offline now m k" and step: "b =
    (if \<not> ok p then ?b\<lparr>bd_offline := m'\<rparr>
     else \<lparr>bd_desired = route_via (bd_desired ?b) (hop p) p,
          bd_relayRoutes = (case via p of Some q \<Rightarrow> fmupd (WGPubKey p) (WGPubKey q) (bd_relayRoutes ?b) | None \<Rightarrow> bd_relayRoutes ?b),
          bd_directStable = (if hold p then fmupd (WGPubKey p) (go_index 0 counts (WGPubKey p) + 1) (bd_directStable ?b)
             else bd_directStable ?b),
          bd_offline = m'\<rparr>)"
    using build_peer_eq [of now ?b m node relay cands routes counts p] IH snoc.prems(1)
    by (auto simp: ok hold via hop Let_def)
  show ?case
  proof (cases "ok p")
    case False
    then show ?thesis using step IH m' by simp
  next
    case True
    have hk: "WGPubKey (hop p) \<noteq> []"
      using True cands selectRelay_Some [of node p cands] by (auto simp: hop via ok split: option.splits if_splits)
    have "fmlookup (bd_desired b) k = (case filter (\<lambda>p. ok p \<and> WGPubKey (hop p) = k) (ps @ [p]) of [] \<Rightarrow> None
        | p # qs \<Rightarrow> Some \<lparr>dc_peer = hop p, dc_allowed = \<Union> ((set \<circ> peer_cidrs) ` set (p # qs))\<rparr>)" for k
      using True step IH route_via_lookup [OF hk, of "bd_desired ?b" p k]
      by (cases "filter (\<lambda>p. ok p \<and> WGPubKey (hop p) = k) ps") (auto simp: filter_snoc)
    moreover have "fmlookup (bd_relayRoutes b) k = (case filter (\<lambda>p. ok p \<and> WGPubKey p = k) (ps @ [p]) of [] \<Rightarrow> None
        | p # qs \<Rightarrow> map_option WGPubKey (via p))" for k
      using True step IH none by (cases "k = WGPubKey p") (auto simp: filter_snoc split: option.splits)
    moreover have "fmlookup (bd_directStable b) k = (case filter (\<lambda>p. ok p \<and> WGPubKey p = k) (ps @ [p]) of [] \<Rightarrow> None
        | p # qs \<Rightarrow> if hold p then Some (go_index 0 counts k + 1) else None)" for k
      using True step IH none by (cases "k = WGPubKey p") (auto simp: filter_snoc)
    ultimately show ?thesis using True step m' by simp
  qed
qed

lemma filter_key:
  assumes "distinct (map f xs)" "x \<in> set xs"
  shows "filter (\<lambda>y. P y \<and> f y = f x) xs = (if P x then [x] else [])"
  using assms
proof (induction xs)
  case (Cons a xs)
  have a: "f a \<notin> f ` set xs" using Cons.prems(1) by simp
  have "filter (\<lambda>y. P y \<and> f y = f a) xs = []"
    unfolding filter_empty_conv using a imageI [of _ "set xs" f] by metis
  moreover have "f x \<noteq> f a" if "x \<in> set xs"
    using a imageI [OF that, of f] by metis
  ultimately show ?case using Cons by (cases "x = a") auto
qed simp

definition relay_wanted :: "gotime \<Rightarrow> IPNet list \<Rightarrow> Daemon \<Rightarrow> PeerInfo list \<Rightarrow> (string, int) gomap option \<Rightarrow> PeerInfo \<Rightarrow> bool" where
  "relay_wanted now subnets d ps hs p =
     shouldRelayPeerWithSubnets (dm_config d) (dm_localNode d) now p (filter (candidate now d) ps) hs subnets"

lemma build_spec:
  assumes "distinct (map WGPubKey ps)" "b = buildDesiredPeerConfigsWithHandshakes now subnets d ps hs"
    and "hold = (\<lambda>p. relay_held (relayRoutes d) (directStableCycles d) (relay_wanted now subnets d ps hs p) (WGPubKey p))"
    and "via = (\<lambda>p. if relay_wanted now subnets d ps hs p \<or> hold p
           then selectRelayForPeer (dm_localNode d) p (filter (candidate now d) ps) else None)"
    and "hop = (\<lambda>p. case via p of Some q \<Rightarrow> q | None \<Rightarrow> p)"
  shows "(\<forall>k. offline now (bd_offline b) k = offline now (temporaryOffline d) k)
    \<and> (\<forall>k. fmlookup (bd_desired b) k = (case filter (\<lambda>p. eligible now d p \<and> WGPubKey (hop p) = k) ps of [] \<Rightarrow> None
        | p # qs \<Rightarrow> Some \<lparr>dc_peer = hop p, dc_allowed = \<Union> ((set \<circ> peer_cidrs) ` set (p # qs))\<rparr>))
    \<and> (\<forall>k. fmlookup (bd_relayRoutes b) k = (case filter (\<lambda>p. eligible now d p \<and> WGPubKey p = k) ps of [] \<Rightarrow> None
        | p # qs \<Rightarrow> map_option WGPubKey (via p)))
    \<and> (\<forall>k. fmlookup (bd_directStable b) k = (case filter (\<lambda>p. eligible now d p \<and> WGPubKey p = k) ps of [] \<Rightarrow> None
        | p # qs \<Rightarrow> if hold p then Some (go_index 0 (directStableCycles d) k + 1) else None))"
proof -
  obtain cs m where c: "relay_candidates now (dm_localNode d) ps (temporaryOffline d) = (cs, m)" by fastforce
  note cs = candidates_eq [OF c]
  show ?thesis
    by (rule build_fold [where st = "\<lparr>bd_desired = fmempty, bd_relayRoutes = fmempty, bd_directStable = fmempty, bd_offline = m\<rparr>"
          and relay = "relay_wanted now subnets d ps hs" and routes = "relayRoutes d" and counts = "directStableCycles d"
          and cands = "filter (candidate now d) ps" and node = "dm_localNode d"])
      (use assms c cs in \<open>simp_all add: buildDesiredPeerConfigsWithHandshakes_def eligible_def [abs_def] candidate_def relay_wanted_def [abs_def] Let_def\<close>)
qed

definition sample_daemon :: Daemon where
  "sample_daemon = NewDaemon sample_config ((sample_node ''L'' ''10.0.0.1'')\<lparr>ln_NATType := ''symmetric''\<rparr>)"

definition relay_peer :: PeerInfo where
  "relay_peer = (sample_peer ''R'' ''1.2.3.4:51820'' ''dht'' 0)\<lparr>MeshIP := ''10.0.0.9'', Introducer := True\<rparr>"

definition nat_peer :: PeerInfo where
  "nat_peer = (sample_peer ''P'' ''5.6.7.8:51820'' ''dht'' 0)\<lparr>MeshIP := ''10.0.0.7'', NATType := ''symmetric''\<rparr>"

definition sample_host :: host where
  "sample_host = \<lparr>h_handshakes = None, h_transfers = None, h_peers = Some [], h_routes = Some [],
     h_fails = (\<lambda>_. False), h_subnets = [], h_linux = True\<rparr>"

section \<open>Properties\<close>

text \<open>The key of the WireGuard peer that a built configuration sends the traffic for a peer to.\<close>

definition hop_key :: "build \<Rightarrow> PeerInfo \<Rightarrow> string" where
  "hop_key b p = go_index (WGPubKey p) (bd_relayRoutes b) (WGPubKey p)"

lemma desired_spec:
  assumes "distinct (map WGPubKey ps)" "b = buildDesiredPeerConfigsWithHandshakes now subnets d ps hs"
  shows "(\<forall>k. case fmlookup (bd_desired b) k of
        None \<Rightarrow> \<not> (\<exists>p \<in> set ps. eligible now d p \<and> hop_key b p = k)
      | Some e \<Rightarrow> WGPubKey (dc_peer e) = k \<and> dc_peer e \<in> set ps
          \<and> dc_allowed e = {c. \<exists>p \<in> set ps. eligible now d p \<and> hop_key b p = k \<and> c \<in> set (peer_cidrs p)})
    \<and> (\<forall>k r. fmlookup (bd_relayRoutes b) k = Some r \<longrightarrow>
        (\<exists>p \<in> set ps. \<exists>q \<in> set ps. WGPubKey p = k \<and> eligible now d p \<and> WGPubKey q = r \<and> candidate now d q))"
proof -
  define hold where "hold = (\<lambda>p. relay_held (relayRoutes d) (directStableCycles d) (relay_wanted now subnets d ps hs p) (WGPubKey p))"
  define via where "via = (\<lambda>p. if relay_wanted now subnets d ps hs p \<or> hold p
     then selectRelayForPeer (dm_localNode d) p (filter (candidate now d) ps) else None)"
  define hop where "hop = (\<lambda>p. case via p of Some q \<Rightarrow> q | None \<Rightarrow> p)"
  note B = build_spec [OF assms hold_def via_def hop_def]
  have via: "q \<in> set ps \<and> candidate now d q" if "via p = Some q" for p q
    using that selectRelay_Some [of "dm_localNode d" p "filter (candidate now d) ps" q] by (auto simp: via_def split: if_splits)
  have routes: "fmlookup (bd_relayRoutes b) (WGPubKey p) = map_option WGPubKey (via p)" if "p \<in> set ps" "eligible now d p" for p
    using B that filter_key [OF assms(1) that(1), of "eligible now d"] by simp
  have key: "hop_key b p = WGPubKey (hop p)" if "p \<in> set ps" "eligible now d p" for p
    using routes [OF that] by (auto simp: hop_key_def go_index_def hop_def split: option.splits)
  have hop: "hop p \<in> set ps" if "p \<in> set ps" for p
    using via [of p] that by (auto simp: hop_def split: option.splits)
  have "case fmlookup (bd_desired b) k of
        None \<Rightarrow> \<not> (\<exists>p \<in> set ps. eligible now d p \<and> hop_key b p = k)
      | Some e \<Rightarrow> WGPubKey (dc_peer e) = k \<and> dc_peer e \<in> set ps
          \<and> dc_allowed e = {c. \<exists>p \<in> set ps. eligible now d p \<and> hop_key b p = k \<and> c \<in> set (peer_cidrs p)}" for k
  proof (cases "filter (\<lambda>p. eligible now d p \<and> WGPubKey (hop p) = k) ps")
    case Nil
    then show ?thesis using B key by (auto simp: filter_empty_conv)
  next
    case (Cons p qs)
    then have s: "set (p # qs) = {p \<in> set ps. eligible now d p \<and> WGPubKey (hop p) = k}"
      by (metis (no_types, lifting) Collect_cong set_filter)
    then have p: "p \<in> set ps" "WGPubKey (hop p) = k" by auto
    have "\<Union> ((set \<circ> peer_cidrs) ` set (p # qs)) = {c. \<exists>p \<in> set ps. eligible now d p \<and> hop_key b p = k \<and> c \<in> set (peer_cidrs p)}"
      unfolding s using key by auto
    then show ?thesis using B Cons hop [OF p(1)] p(2) by simp
  qed
  moreover have "\<exists>p \<in> set ps. \<exists>q \<in> set ps. WGPubKey p = k \<and> eligible now d p \<and> WGPubKey q = r \<and> candidate now d q"
    if r: "fmlookup (bd_relayRoutes b) k = Some r" for k r
  proof (cases "filter (\<lambda>p. eligible now d p \<and> WGPubKey p = k) ps")
    case (Cons p qs)
    then have "p \<in> set ps \<and> eligible now d p \<and> WGPubKey p = k" 
      using Cons_eq_filterD [OF Cons [symmetric]] by auto
    moreover have "map_option WGPubKey (via p) = Some r" using B Cons r by simp
    ultimately show ?thesis using via [of p] by auto
  qed (use B r in simp)
  ultimately show ?thesis by blast
qed

text \<open>
  C5. The desired configuration is exactly the routing decision of the cycle. Every eligible
  peer has one hop, itself or a relay; the entry of a hop carries precisely the addresses and
  networks of the peers that use it, and no other entry exists. A relay is always a live
  introducer with an endpoint that is not offline and was heard of in the last 90 seconds.
\<close>

theorem desired_config_exact:
  assumes "distinct (map WGPubKey ps)" "b = buildDesiredPeerConfigsWithHandshakes now subnets d ps hs"
  shows "(\<forall>k. case fmlookup (bd_desired b) k of
        None \<Rightarrow> \<not> (\<exists>p \<in> set ps. eligible now d p \<and> hop_key b p = k)
      | Some e \<Rightarrow> WGPubKey (dc_peer e) = k \<and> dc_peer e \<in> set ps
          \<and> dc_allowed e = {c. \<exists>p \<in> set ps. eligible now d p \<and> hop_key b p = k \<and> c \<in> set (peer_cidrs p)})
    \<and> (\<forall>k r. fmlookup (bd_relayRoutes b) k = Some r \<longrightarrow>
        (\<exists>p \<in> set ps. \<exists>q \<in> set ps. WGPubKey p = k \<and> eligible now d p \<and> WGPubKey q = r \<and> candidate now d q))"
  by (rule desired_spec [OF assms])

theorem desired_config_exact_witness:
  "\<exists>e. fmlookup (bd_desired (buildDesiredPeerConfigsWithHandshakes 0 [] sample_daemon [relay_peer, nat_peer] None))
      (hop_key (buildDesiredPeerConfigsWithHandshakes 0 [] sample_daemon [relay_peer, nat_peer] None) nat_peer) = Some e
    \<and> ''10.0.0.7/32'' \<in> dc_allowed e"
proof -
  define b where "b = buildDesiredPeerConfigsWithHandshakes 0 [] sample_daemon [relay_peer, nat_peer] None"
  have "distinct (map WGPubKey [relay_peer, nat_peer])" by (simp add: relay_peer_def nat_peer_def sample_peer_def)
  note E = conjunct1 [OF desired_config_exact [OF this b_def], THEN spec, of "hop_key b nat_peer"]
  have "eligible 0 sample_daemon nat_peer" "''10.0.0.7/32'' \<in> set (peer_cidrs nat_peer)"
    by (simp_all add: eligible_def offline_def isTemporarilyOffline_def sample_daemon_def NewDaemon_def sample_node_def
        nat_peer_def sample_peer_def peer_cidrs_def)
  then show ?thesis using E unfolding b_def [symmetric] by (auto split: option.splits)
qed

text \<open>
  One cycle on a peer store \<open>st\<close>: between two cycles discovery may change the store in any way.
\<close>

type_synonym cycle_env = "host \<times> range_orders \<times> gotime \<times> PeerStore"

definition cycle :: "cycle_env \<Rightarrow> Daemon \<Rightarrow> Daemon" where
  "cycle e d = (case e of (h, ord, now, st) \<Rightarrow> fst (reconcile h ord now (d\<lparr>dm_peerStore := st\<rparr>)))"

definition active_peers :: "cycle_env \<Rightarrow> PeerInfo list" where
  "active_peers e = (case e of (h, ord, now, st) \<Rightarrow> PeerStore_GetActive (ord 0 (fmdom (peers st))) now st)"

text \<open>
  In the cycle the peer with key \<open>k\<close> is configured and some relay is available; and the decision
  on its handshake, NAT and discovery data is to relay it.
\<close>

definition relayable :: "cycle_env \<Rightarrow> Daemon \<Rightarrow> string \<Rightarrow> bool" where
  "relayable e d k \<longleftrightarrow> (case e of (h, ord, now, st) \<Rightarrow>
     valid_orders ord \<and> fmpred (\<lambda>k p. WGPubKey p = k) (peers st)
     \<and> list_ex (\<lambda>p. WGPubKey p = k \<and> eligible now d p) (active_peers e) \<and> list_ex (candidate now d) (active_peers e))"

definition wants_relay :: "cycle_env \<Rightarrow> Daemon \<Rightarrow> string \<Rightarrow> bool" where
  "wants_relay e d k \<longleftrightarrow> (case e of (h, ord, now, st) \<Rightarrow>
     list_ex (\<lambda>p. WGPubKey p = k \<and> shouldRelayPeerWithSubnets (dm_config d) (dm_localNode d) now p
       (filter (candidate now d) (active_peers e)) (GetLatestHandshakes (h_handshakes h)) (h_subnets h)) (active_peers e))"

lemma range_values_keys:
  assumes "fmpred (\<lambda>k p. f p = k) m" "distinct ks"
  shows "distinct (map f (range_values m ks))"
  using assms(2)
proof (induction ks)
  case (Cons k ks)
  have sub: "f ` set (range_values m ks) \<subseteq> set ks" for ks
    using fmpredD [OF assms(1)] by (induction ks) (auto simp: range_values_def split: option.splits)
  show ?case
  proof (cases "fmlookup m k")
    case (Some p)
    then have "f p = k" using fmpredD [OF assms(1)] by blast
    then show ?thesis using Cons Some sub [of ks] by (auto simp: range_values_def)
  qed (use Cons in \<open>simp add: range_values_def\<close>)
qed (simp add: range_values_def)

lemma active_distinct:
  assumes "valid_orders ord" "fmpred (\<lambda>k p. WGPubKey p = k) (peers st)"
  shows "distinct (map WGPubKey (active_peers (h, ord, now, st)))"
proof -
  have "distinct (ord 0 (fmdom (peers st)))" using assms(1) by (simp add: valid_orders_def)
  from range_values_keys [OF assms(2) this] show ?thesis
    by (simp add: active_peers_def PeerStore_GetActive_def distinct_map_filter)
qed

lemma reconcile_relay:
  fixes d h ord now
  defines "b \<equiv> buildDesiredPeerConfigsWithHandshakes now (h_subnets h) d
     (active_peers (h, ord, now, dm_peerStore d)) (GetLatestHandshakes (h_handshakes h))"
  shows "relayRoutes (fst (reconcile h ord now d)) = bd_relayRoutes b
    \<and> directStableCycles (fst (reconcile h ord now d)) = bd_directStable b"
  by (simp add: reconcile_def active_peers_def b_def Let_def split: prod.splits)

lemma cycle_relay:
  assumes "relayable e d k"
  shows "(fmlookup (relayRoutes (cycle e d)) k \<noteq> None \<longleftrightarrow>
      wants_relay e d k \<or> relay_held (relayRoutes d) (directStableCycles d) (wants_relay e d k) k)
    \<and> fmlookup (directStableCycles (cycle e d)) k =
      (if relay_held (relayRoutes d) (directStableCycles d) (wants_relay e d k) k
       then Some (go_index 0 (directStableCycles d) k + 1) else None)"
proof -
  obtain h ord now st where e: "e = (h, ord, now, st)" by (cases e)
  let ?d = "d\<lparr>dm_peerStore := st\<rparr>" and ?hs = "GetLatestHandshakes (h_handshakes h)" and ?ps = "active_peers e"
  define b where "b = buildDesiredPeerConfigsWithHandshakes now (h_subnets h) ?d ?ps ?hs"
  have same: "eligible now ?d = eligible now d" "candidate now ?d = candidate now d"
    by (auto simp: eligible_def candidate_def fun_eq_iff)
  obtain p where p: "p \<in> set ?ps" "WGPubKey p = k" "eligible now d p" and ex: "list_ex (candidate now d) ?ps"
    using assms by (auto simp: relayable_def e list_ex_iff)
  have dist: "distinct (map WGPubKey ?ps)"
    using assms active_distinct by (simp add: relayable_def e)
  have one: "filter (\<lambda>q. P q \<and> WGPubKey q = k) ?ps = (if P p then [p] else [])" for P
    using filter_key [OF dist p(1), of P] p(2) by simp
  have w: "relay_wanted now (h_subnets h) ?d ?ps ?hs p \<longleftrightarrow> wants_relay e d k"
  proof -
    have "wants_relay e d k \<longleftrightarrow> filter (\<lambda>q. relay_wanted now (h_subnets h) ?d ?ps ?hs q \<and> WGPubKey q = k) ?ps \<noteq> []"
      by (auto simp: wants_relay_def e relay_wanted_def same list_ex_iff filter_empty_conv)
    then show ?thesis unfolding one by simp
  qed
  have sel: "selectRelayForPeer (dm_localNode d) p (filter (candidate now d) ?ps) \<noteq> None"
    using ex unfolding selectRelay_None by (auto simp: list_ex_iff filter_empty_conv)
  have r: "relayRoutes (cycle e d) = bd_relayRoutes b" "directStableCycles (cycle e d) = bd_directStable b"
    using reconcile_relay [of h ord now ?d] by (simp_all add: cycle_def e b_def)
  note B = build_spec [OF dist b_def refl refl refl, unfolded same]
  have "fmlookup (bd_relayRoutes b) k = map_option WGPubKey (if wants_relay e d k
      \<or> relay_held (relayRoutes d) (directStableCycles d) (wants_relay e d k) k
      then selectRelayForPeer (dm_localNode d) p (filter (candidate now d) ?ps) else None)"
    using conjunct1 [OF conjunct2 [OF conjunct2 [OF B]], THEN spec, of k] by (simp add: one p w cong: if_cong split del: if_split)
  moreover have "fmlookup (bd_directStable b) k = (if relay_held (relayRoutes d) (directStableCycles d) (wants_relay e d k) k
      then Some (go_index 0 (directStableCycles d) k + 1) else None)"
    using conjunct2 [OF conjunct2 [OF conjunct2 [OF B]], THEN spec, of k] by (simp add: one p w cong: if_cong split del: if_split)
  ultimately show ?thesis unfolding r using sel by (cases "wants_relay e d k") simp_all
qed

lemma desired_routes_offline:
  "desired_routes now node relays ips ps m = (rs, m') \<Longrightarrow> offline now m' k = offline now m k"
  by (induction now node relays ips ps m arbitrary: rs m' rule: desired_routes.induct)
    (auto simp: Let_def split: if_splits prod.splits dest!: offline_cases)

lemma resolve_keeps_key: "ln_WGPubKey (fst (foldl (resolve_step cfg) st cs)) = ln_WGPubKey (fst st)"
proof (induction cs arbitrary: st)
  case (Cons c cs)
  have "ln_WGPubKey (fst (resolve_step cfg st c)) = ln_WGPubKey (fst st)"
    by (cases st) (simp add: resolve_step_def Let_def split: option.splits sum.splits)
  with Cons show ?case by simp
qed simp

lemma reconcile_keeps:
  assumes "valid_orders ord" "fmpred (\<lambda>k p. WGPubKey p = k) (peers (dm_peerStore d))"
  shows "ln_WGPubKey (dm_localNode (fst (reconcile h ord now d))) = ln_WGPubKey (dm_localNode d)"
    and "offline now (temporaryOffline (fst (reconcile h ord now d))) k = offline now (temporaryOffline d) k"
proof -
  define b where "b = buildDesiredPeerConfigsWithHandshakes now (h_subnets h) d
     (active_peers (h, ord, now, dm_peerStore d)) (GetLatestHandshakes (h_handshakes h))"
  show "ln_WGPubKey (dm_localNode (fst (reconcile h ord now d))) = ln_WGPubKey (dm_localNode d)"
    using resolve_keeps_key [of "dm_config d" "(dm_localNode d, [])"]
    by (simp add: reconcile_def CheckAndResolveCollisions_def Let_def split: prod.splits) (metis fst_conv)
  have "offline now (bd_offline b) k = offline now (temporaryOffline d) k"
    using build_spec [OF active_distinct [OF assms] b_def refl refl refl] by blast
  moreover have "offline now (temporaryOffline (fst (reconcile h ord now d))) k = offline now (bd_offline b) k"
    by (auto simp: reconcile_def syncPeerRoutes_def b_def active_peers_def Let_def
        split: prod.splits if_splits option.splits dest!: desired_routes_offline)
  ultimately show "offline now (temporaryOffline (fst (reconcile h ord now d))) k = offline now (temporaryOffline d) k" by simp
qed

lemma relayable_again: "relayable e d k \<Longrightarrow> relayable e (cycle e d) k"
  using reconcile_keeps [of "fst (snd e)" "d\<lparr>dm_peerStore := snd (snd (snd e))\<rparr>"]
  by (auto simp: relayable_def cycle_def eligible_def [abs_def] candidate_def [abs_def] split: prod.splits)

definition sample_peers :: "(string, PeerInfo) gomap" where
  "sample_peers = fmupd ''P'' nat_peer (fmupd ''R'' relay_peer fmempty)"

definition sample_env :: cycle_env where
  "sample_env = (sample_host, lex_orders, 0, NewPeerStore\<lparr>peers := sample_peers\<rparr>)"

lemma sample_peers_keys: "fmpred (\<lambda>k p. WGPubKey p = k) sample_peers"
  by (rule fmpredI) (auto simp: sample_peers_def nat_peer_def relay_peer_def sample_peer_def split: if_splits)

lemma sample_active: "set (active_peers sample_env) = {nat_peer, relay_peer}"
proof -
  have l: "fmlookup sample_peers k = Some p \<longleftrightarrow> k = ''P'' \<and> p = nat_peer \<or> k = ''R'' \<and> p = relay_peer" for k p
    by (auto simp: sample_peers_def)
  have "p \<in> set (range_values sample_peers (lex_orders 0 (fmdom sample_peers))) \<longleftrightarrow> p = nat_peer \<or> p = relay_peer" for p
    unfolding range_values_set [OF valid_orders_range [OF lex_orders_valid]] l by blast
  moreover have "time_sub 0 (LastSeen nat_peer) < PeerDeadTimeout" "time_sub 0 (LastSeen relay_peer) < PeerDeadTimeout"
    by (simp_all add: nat_peer_def relay_peer_def sample_peer_def time_sub_def PeerDeadTimeout_def Minute_def max_duration_def
        min_duration_def)
  ultimately show ?thesis
    by (auto simp: active_peers_def sample_env_def PeerStore_GetActive_def)
qed

lemma sample_relayable:
  assumes "ln_WGPubKey (dm_localNode d) = ''L''" "temporaryOffline d = fmempty"
  shows "relayable sample_env d ''P''"
proof -
  have "eligible 0 d nat_peer" "candidate 0 d relay_peer"
    using assms by (simp_all add: eligible_def candidate_def offline_def isTemporarilyOffline_def nat_peer_def relay_peer_def
        sample_peer_def time_sub_def RelayCandidateMaxAge_def Second_def max_duration_def min_duration_def)
  moreover have "WGPubKey nat_peer = ''P''" "WGPubKey relay_peer = ''R''"
    by (simp_all add: nat_peer_def relay_peer_def sample_peer_def)
  ultimately show ?thesis
    using sample_active lex_orders_valid sample_peers_keys by (simp add: relayable_def sample_env_def list_ex_iff)
qed



text \<open>
  What the WireGuard interface was last told about its peers, by key, as a signature: a command
  that fails changes nothing.
\<close>

fun option_value :: "string \<Rightarrow> string list \<Rightarrow> string" where
  "option_value name (a # b # r) = (if a = name then b else option_value name r)"
| "option_value name _ = []"

fun wg_exec :: "(argv \<Rightarrow> bool) \<Rightarrow> (string, string) gomap \<Rightarrow> wg_cmd \<Rightarrow> (string, string) gomap" where
  "wg_exec fails dev (s # i # p # k # opts, inp) =
     (if fails (''wg'' # s # i # p # k # opts) then dev
      else if opts = [''remove''] then fmdrop k dev
      else fmupd k (option_value ''endpoint'' opts @ ''|'' @ option_value ''allowed-ips'' opts) dev)"
| "wg_exec fails dev _ = dev"

abbreviation told :: "(string, string) gomap \<Rightarrow> (string, string) gomap \<Rightarrow> bool" where
  "told cache dev \<equiv> cache \<subseteq>\<^sub>f dev"

lemma told_iff: "told m n \<longleftrightarrow> (\<forall>k v. fmlookup m k = Some v \<longrightarrow> fmlookup n k = Some v)"
  by (auto simp: fmsubset.rep_eq map_le_def dom_def)

lemma join_with_nonempty: "\<lbrakk>ws \<noteq> []; [] \<notin> set ws\<rbrakk> \<Longrightarrow> join_with sep ws \<noteq> []"
  by (induction sep ws rule: join_with.induct) auto

lemma wg_exec_remove:
  "wg_exec fails dev (RemovePeer cfg k) = (if fails (''wg'' # fst (RemovePeer cfg k)) then dev else fmdrop k dev)"
  by (simp add: RemovePeer_def wg_remove_args_def)

lemma wg_exec_set:
  assumes "SetPeer fails cfg k ep ips = (cmd, ok)" "ep \<noteq> []" "ips \<noteq> []"
  shows "wg_exec fails dev cmd = (if ok then fmupd k (ep @ ''|'' @ ips) dev else dev)"
  using assms by (auto simp: SetPeer_def wg_set_args_def Let_def)

lemma configurable_csv:
  assumes "configurable cfg c" "[] \<notin> dc_allowed c"
  shows "allowed_csv c \<noteq> []"
proof -
  have "finite (dc_allowed c)" using assms(1) by (auto simp: configurable_def mapKeysSorted_def intro: ccontr)
  then have "[] \<notin> set (mapKeysSorted (dc_allowed c))" using assms(2) by (simp add: mapKeysSorted_def)
  with assms(1) show ?thesis by (simp add: allowed_csv_def join_with_nonempty configurable_def)
qed

lemma remove_obsolete_told:
  assumes "remove_obsolete cfg desired ks cache = (cs, cache')" "told cache dev"
  shows "told cache' (foldl (wg_exec fails) dev cs)"
    and "\<forall>c. \<not> fails c \<Longrightarrow> fmlookup (foldl (wg_exec fails) dev cs) k =
       (if k \<in> set ks \<and> fmlookup desired k = None then None else fmlookup dev k)"
  using assms
  by (induction cfg desired ks cache arbitrary: dev cs cache' rule: remove_obsolete.induct)
    (auto simp: told_iff wg_exec_remove Let_def split: if_splits prod.splits)

lemma set_desired_told:
  assumes "set_desired fails cfg desired ks cache = (cs, cache', ok)" "told cache dev"
    and "fmpred (\<lambda>_ c. [] \<notin> dc_allowed c) desired"
  shows "told cache' (foldl (wg_exec fails) dev cs)
    \<and> (distinct ks \<longrightarrow> ok \<longrightarrow> (\<forall>k. fmlookup (foldl (wg_exec fails) dev cs) k =
       (if k \<in> set ks then (case fmlookup desired k of
           Some c \<Rightarrow> if configurable cfg c then Some (signature c) else fmlookup dev k | None \<Rightarrow> fmlookup dev k)
        else fmlookup dev k)))
    \<and> ((\<forall>c. \<not> fails c) \<longrightarrow> ok)"
  using assms(1,2)
proof (induction ks arbitrary: cache cs cache' ok dev)
  case (Cons k ks)
  show ?case
  proof (cases "\<exists>c. fmlookup desired k = Some c \<and> configurable cfg c \<and> fmlookup cache k \<noteq> Some (signature c)")
    case False
    then have s: "set_desired fails cfg desired ks cache = (cs, cache', ok)"
      using Cons.prems(1) by (auto split: option.splits if_splits)
    have "fmlookup dev k = Some (signature c)" if "fmlookup desired k = Some c" "configurable cfg c" for c
      using that False Cons.prems(2) by (auto simp: told_iff)
    then show ?thesis using Cons.IH [OF s Cons.prems(2)] by (auto split: option.splits)
  next
    case True
    then obtain c where c: "fmlookup desired k = Some c" "configurable cfg c" "fmlookup cache k \<noteq> Some (signature c)" by blast
    obtain cmd good where sp: "SetPeer fails cfg k (Endpoint (dc_peer c)) (allowed_csv c) = (cmd, good)" by fastforce
    have "allowed_csv c \<noteq> []" using configurable_csv [OF c(2)] fmpredD [OF assms(3) c(1)] by blast
    then have ex: "wg_exec fails dev cmd = (if good then fmupd k (signature c) dev else dev)"
      using wg_exec_set [OF sp] c(2) by (simp add: configurable_def signature_def)
    show ?thesis
    proof (cases good)
      case False
      have r: "cs = [cmd]" "cache' = fmdrop k cache" "\<not> ok" using Cons.prems(1) c sp False by simp_all
      have "\<not> (\<forall>c. \<not> fails c)" using sp False by (auto simp: SetPeer_def Let_def)
      moreover have "told (fmdrop k cache) dev" using Cons.prems(2) by (simp add: told_iff)
      ultimately show ?thesis using r ex False by simp
    next
      case good: True
      obtain cs1 where s: "set_desired fails cfg desired ks (fmupd k (signature c) cache) = (cs1, cache', ok)" "cs = cmd # cs1"
        using Cons.prems(1) c sp good by (auto split: prod.splits)
      have "told (fmupd k (signature c) cache) (fmupd k (signature c) dev)"
        using Cons.prems(2) by (auto simp: told_iff)
      from Cons.IH [OF s(1) this] s(2) ex good c show ?thesis by (auto split: option.splits)
    qed
  qed
qed simp

lemma apply_told:
  assumes "told cache dev" "applyDesiredPeerConfigs h ks cfg desired cache = (cs, cache', ok)"
    and "dev' = foldl (wg_exec (h_fails h)) dev cs"
    and "range_order desired ks" "fmpred (\<lambda>_ c. [] \<notin> dc_allowed c) desired"
  shows "told cache' dev'
    \<and> ((\<forall>c. \<not> h_fails h c) \<and> (\<exists>l. GetPeers (h_peers h) = Some l \<and> wp_PublicKey ` set l = fset (fmdom dev)) \<longrightarrow>
        ok \<and> (\<forall>k. fmlookup dev' k = (case fmlookup desired k of
           None \<Rightarrow> None | Some c \<Rightarrow> if configurable cfg c then Some (signature c) else fmlookup dev k)))"
proof -
  obtain rm cache1 where rm: "(case GetPeers (h_peers h) of None \<Rightarrow> ([], cache)
     | Some existing \<Rightarrow> remove_obsolete cfg desired (map wp_PublicKey existing) cache) = (rm, cache1)" by fastforce
  obtain cs1 where sd: "set_desired (h_fails h) cfg desired ks cache1 = (cs1, cache', ok)" "cs = rm @ cs1"
    using assms(2) rm by (auto simp: applyDesiredPeerConfigs_def split: prod.splits)
  let ?dev = "foldl (wg_exec (h_fails h)) dev rm"
  have t: "told cache1 ?dev"
    using rm assms(1) remove_obsolete_told(1) by (auto split: option.splits)
  note S = set_desired_told [OF sd(1) t assms(5)]
  have d: "dev' = foldl (wg_exec (h_fails h)) ?dev cs1" using assms(3) sd(2) by simp
  have mem: "k \<in> set ks \<longleftrightarrow> fmlookup desired k \<noteq> None" for k using range_order_member [OF assms(4)] .
  have "fmlookup dev' k = (case fmlookup desired k of
       None \<Rightarrow> None | Some c \<Rightarrow> if configurable cfg c then Some (signature c) else fmlookup dev k)"
    if nf: "\<forall>c. \<not> h_fails h c" and l: "GetPeers (h_peers h) = Some l" "wp_PublicKey ` set l = fset (fmdom dev)" for k l
  proof -
    have "remove_obsolete cfg desired (map wp_PublicKey l) cache = (rm, cache1)" using rm l by simp
    from remove_obsolete_told(2) [OF this assms(1) nf, of k]
    have "fmlookup ?dev k = (if fmlookup desired k = None then None else fmlookup dev k)"
      using l(2) by (auto simp: fmlookup_dom_iff)
    moreover have "fmlookup dev' k = (if k \<in> set ks then (case fmlookup desired k of
           Some c \<Rightarrow> if configurable cfg c then Some (signature c) else fmlookup ?dev k | None \<Rightarrow> fmlookup ?dev k)
        else fmlookup ?dev k)"
      using S nf d range_order_distinct [OF assms(4)] by blast
    ultimately show ?thesis using mem [of k] by (auto split: option.splits)
  qed
  then show ?thesis using S d by auto
qed

lemma reconcile_frame:
  "dm_peerStore (fst (reconcile h ord now d)) = dm_peerStore d \<and> probeFailures (fst (reconcile h ord now d)) = probeFailures d
   \<and> peerHealthFailures (fst (reconcile h ord now d)) = peerHealthFailures d \<and> dm_config (fst (reconcile h ord now d)) = dm_config d"
  by (simp add: reconcile_def Let_def split: prod.splits)

lemma desired_allowed_nonempty:
  assumes "distinct (map WGPubKey ps)" "b = buildDesiredPeerConfigsWithHandshakes now subnets d ps hs"
  shows "fmpred (\<lambda>_ c. [] \<notin> dc_allowed c) (bd_desired b)"
proof (rule fmpredI)
  fix k e assume e: "fmlookup (bd_desired b) k = Some e"
  show "[] \<notin> dc_allowed e"
    using conjunct1 [OF conjunct2 [OF build_spec [OF assms refl refl refl]], THEN spec, of k] e
    by (auto split: list.split_asm dest: peer_cidrs_nonempty)
qed

lemma reconcile_spec:
  assumes "valid_orders ord" "fmpred (\<lambda>k p. WGPubKey p = k) (peers (dm_peerStore d))"
    and "told (lastAppliedPeerConfigs d) dev" "reconcile h ord now d = (d', ef)"
    and "dev' = foldl (wg_exec (h_fails h)) dev (ef_wg ef)"
    and "b = buildDesiredPeerConfigsWithHandshakes now (h_subnets h) d
       (active_peers (h, ord, now, dm_peerStore d)) (GetLatestHandshakes (h_handshakes h))"
  shows "told (lastAppliedPeerConfigs d') dev'
    \<and> ((\<forall>c. \<not> h_fails h c) \<and> (\<exists>l. GetPeers (h_peers h) = Some l \<and> wp_PublicKey ` set l = fset (fmdom dev)) \<longrightarrow>
        (\<forall>k. fmlookup dev' k = (case fmlookup (bd_desired b) k of
           None \<Rightarrow> None | Some c \<Rightarrow> if configurable (dm_config d) c then Some (signature c) else fmlookup dev k)))"
proof -
  obtain ok where "applyDesiredPeerConfigs h (ord 1 (fmdom (bd_desired b))) (dm_config d) (bd_desired b) (lastAppliedPeerConfigs d)
      = (ef_wg ef, lastAppliedPeerConfigs d', ok)"
    using assms(4,6) by (auto simp: reconcile_def active_peers_def Let_def split: prod.splits)
  from apply_told [OF assms(3) this assms(5) valid_orders_range [OF assms(1)]
      desired_allowed_nonempty [OF active_distinct [OF assms(1,2)] assms(6)]]
  show ?thesis by blast
qed





end
