(* ===== verification/Health.thy ===== *)
theory Health
  imports Reconcile
begin

text \<open>
  The health monitoring of the daemon (pkg/daemon/daemon.go): the check of handshakes and transfer
  counters with its reconnects and evictions, the probes over the mesh, the clean-up of stale
  peers, and the reload of the configuration. Connections are numbers; dialling and the exchange
  of a ping are arguments. The operations return the wg commands they run and the connections
  they close.
\<close>

definition MeshProbeFailLimit :: int where "MeshProbeFailLimit = 8"

text \<open>The state with the commands that were run and the connections that were closed.\<close>

record health =
  hs_daemon :: Daemon
  hs_wg :: "wg_cmd list"
  hs_closed :: "nat list"

definition closeProbeSession :: "health \<Rightarrow> string \<Rightarrow> health" where
  "closeProbeSession s pubKey =
     (let d = hs_daemon s in
      s\<lparr>hs_daemon := d\<lparr>probeSessions := fmdrop pubKey (probeSessions d)\<rparr>,
        hs_closed := hs_closed s @ (case fmlookup (probeSessions d) pubKey of None \<Rightarrow> [] | Some c \<Rightarrow> [c])\<rparr>)"

section \<open>Reconnecting and evicting\<close>

definition reconnect_allowed :: "PeerInfo \<Rightarrow> string set" where
  "reconnect_allowed p = set ((if MeshIP p \<noteq> [] then [MeshIP p @ ''/32''] else [])
     @ (if MeshIPv6 p \<noteq> [] then [MeshIPv6 p @ ''/128''] else [])
     @ filter (\<lambda>r. r \<noteq> []) (map trim_space (RoutableNetworks p)))"

definition attemptPeerReconnect :: "(argv \<Rightarrow> bool) \<Rightarrow> health \<Rightarrow> PeerInfo \<Rightarrow> health" where
  "attemptPeerReconnect fails s peer =
     (let d = hs_daemon s; allowedCSV = join_with '','' (mapKeysSorted (reconnect_allowed peer)) in
      if WGPubKey peer = [] \<or> Endpoint peer = [] \<or> allowedCSV = [] then s
      else let (cmd, ok) = SetPeer fails (dm_config d) (WGPubKey peer) (Endpoint peer) allowedCSV in
        s\<lparr>hs_wg := hs_wg s @ [cmd],
          hs_daemon := (if ok then d\<lparr>lastAppliedPeerConfigs := fmdrop (WGPubKey peer) (lastAppliedPeerConfigs d)\<rparr> else d)\<rparr>)"

definition evictPeerFromPool :: "gotime \<Rightarrow> health \<Rightarrow> PeerInfo \<Rightarrow> health" where
  "evictPeerFromPool now s peer =
     (let k = WGPubKey peer; d = hs_daemon s in
      if k = [] then s
      else let s = closeProbeSession (s\<lparr>hs_wg := hs_wg s @ [RemovePeer (dm_config d) k],
             hs_daemon := d\<lparr>temporaryOffline := markTemporarilyOffline now (temporaryOffline d) k,
               dm_peerStore := PeerStore_Remove (dm_peerStore d) k,
               lastAppliedPeerConfigs := fmdrop k (lastAppliedPeerConfigs d),
               relayRoutes := fmdrop k (relayRoutes d), directStableCycles := fmdrop k (directStableCycles d),
               peerHealthFailures := fmdrop k (peerHealthFailures d),
               lastPeerTransferTotal := fmdrop k (lastPeerTransferTotal d)\<rparr>\<rparr>) k
           in s\<lparr>hs_daemon := (hs_daemon s)\<lparr>probeFailures := fmdrop k (probeFailures (hs_daemon s))\<rparr>\<rparr>)"

section \<open>The check of handshakes and transfers\<close>

definition shouldTreatPeerAsStale :: "int \<Rightarrow> 64 word \<Rightarrow> 64 word \<Rightarrow> gotime \<Rightarrow> bool" where
  "shouldTreatPeerAsStale handshakeTS prevTransferTotal currentTransferTotal now =
     (if handshakeTS \<le> 0 then False
      else if time_sub now (time_unix handshakeTS) \<le> HandshakeStaleAfter then False
      else currentTransferTotal \<le> prevTransferTotal)"

definition check_peer :: "host \<Rightarrow> gotime \<Rightarrow> (string, int) gomap \<Rightarrow> (string, PeerTransfer) gomap \<Rightarrow> health \<Rightarrow> PeerInfo \<Rightarrow> health" where
  "check_peer h now handshakes transfers s p =
     (let k = WGPubKey p; d = hs_daemon s in
      if k = [] \<or> k = ln_WGPubKey (dm_localNode d) then s
      else let ts = go_index 0 handshakes k;
               t = go_index \<lparr>RxBytes = 0, TxBytes = 0\<rparr> transfers k;
               currentTotal = RxBytes t + TxBytes t;
               prevTotal = go_index 0 (lastPeerTransferTotal d) k;
               isStale = shouldTreatPeerAsStale ts prevTotal currentTotal now;
               failures = (if isStale then go_index 0 (peerHealthFailures d) k + 1 else 0);
               s = s\<lparr>hs_daemon := d\<lparr>lastPeerTransferTotal := fmupd k currentTotal (lastPeerTransferTotal d),
                       peerHealthFailures := fmupd k failures (peerHealthFailures d)\<rparr>\<rparr>
           in if \<not> isStale then s
              else if failures = 1 then attemptPeerReconnect (h_fails h) s p
              else if failures \<ge> 2 then evictPeerFromPool now s p
              else s)"

definition active_set :: "string \<Rightarrow> PeerInfo list \<Rightarrow> string set" where
  "active_set local ps = set (filter (\<lambda>k. k \<noteq> [] \<and> k \<noteq> local) (map WGPubKey ps))"

definition checkPeerHealth :: "host \<Rightarrow> range_orders \<Rightarrow> gotime \<Rightarrow> Daemon \<Rightarrow> health" where
  "checkPeerHealth h ord now d =
     (let s = \<lparr>hs_daemon = d, hs_wg = [], hs_closed = []\<rparr> in
      case GetLatestHandshakes (h_handshakes h) of
        None \<Rightarrow> s
      | Some handshakes \<Rightarrow>
          (case GetPeerTransfers (h_transfers h) of
             None \<Rightarrow> s
           | Some transfers \<Rightarrow>
               (let ps = PeerStore_GetActive (ord 0 (fmdom (peers (dm_peerStore d)))) now (dm_peerStore d);
                    s = foldl (check_peer h now handshakes transfers) s ps;
                    act = active_set (ln_WGPubKey (dm_localNode d)) ps;
                    d = hs_daemon s
                in s\<lparr>hs_daemon := d\<lparr>peerHealthFailures := fmfilter (\<lambda>k. k \<in> act) (peerHealthFailures d),
                      lastPeerTransferTotal := fmfilter (\<lambda>k. k \<in> act \<or> fmlookup (peerHealthFailures d) k = None)
                        (lastPeerTransferTotal d)\<rparr>\<rparr>)))"

section \<open>Probes over the mesh\<close>

definition isRelayRoutedPeer :: "Daemon \<Rightarrow> string \<Rightarrow> bool" where
  "isRelayRoutedPeer d pubKey = (if pubKey = [] then False else fmlookup (relayRoutes d) pubKey \<noteq> None)"

text \<open>The network as a probe sees it: the connection a dial gives, and the answer to a ping with its delay.\<close>

record probe_net =
  pn_dial :: "string \<Rightarrow> nat option"
  pn_ping :: "nat \<Rightarrow> (string \<times> duration) option"

definition probe_addrs :: "Daemon \<Rightarrow> PeerInfo \<Rightarrow> string list" where
  "probe_addrs d peer =
     (if \<not> cfg_DisableIPv6 (dm_config d) \<and> MeshIPv6 peer \<noteq> [] then [join_host_port (MeshIPv6 peer) (itoa (healthProbePort d))] else [])
     @ [join_host_port (MeshIP peer) (itoa (healthProbePort d))]"

definition getOrDialProbeSession :: "probe_net \<Rightarrow> health \<Rightarrow> PeerInfo \<Rightarrow> nat option \<times> health" where
  "getOrDialProbeSession net s peer =
     (let d = hs_daemon s in
      case fmlookup (probeSessions d) (WGPubKey peer) of
        Some c \<Rightarrow> (Some c, s)
      | None \<Rightarrow>
          (case List.map_filter (pn_dial net) (probe_addrs d peer) of
             [] \<Rightarrow> (None, s)
           | c # _ \<Rightarrow> (Some c, s\<lparr>hs_daemon := d\<lparr>probeSessions := fmupd (WGPubKey peer) c (probeSessions d)\<rparr>\<rparr>)))"

text \<open>The metrics are labelled with the first eight bytes of the key, which must exist.\<close>

definition probePeer :: "probe_net \<Rightarrow> health \<Rightarrow> PeerInfo \<Rightarrow> (bool \<times> health) go" where
  "probePeer net s peer =
     (if WGPubKey peer = [] then Inr (False, s)
      else case getOrDialProbeSession net s peer of
          (None, s) \<Rightarrow> Inr (False, s)
        | (Some c, s) \<Rightarrow>
            (case pn_ping net c of
               None \<Rightarrow> Inr (False, closeProbeSession s (WGPubKey peer))
             | Some (line, rtt) \<Rightarrow>
                 if trim_space line \<noteq> ''pong'' then Inr (False, closeProbeSession s (WGPubKey peer))
                 else if length (WGPubKey peer) < 8 then Inl SliceOutOfRange
                 else Inr (True, s\<lparr>hs_daemon := (hs_daemon s)\<lparr>dm_peerStore :=
                        PeerStore_SetLatency (dm_peerStore (hs_daemon s)) (WGPubKey peer) rtt\<rparr>\<rparr>)))"

definition set_probe_failures :: "health \<Rightarrow> string \<Rightarrow> int \<Rightarrow> health" where
  "set_probe_failures s k n = s\<lparr>hs_daemon := (hs_daemon s)\<lparr>probeFailures := fmupd k n (probeFailures (hs_daemon s))\<rparr>\<rparr>"

definition clear_offline :: "health \<Rightarrow> string \<Rightarrow> health" where
  "clear_offline s k = s\<lparr>hs_daemon := (hs_daemon s)\<lparr>temporaryOffline := clearTemporarilyOffline (temporaryOffline (hs_daemon s)) k\<rparr>\<rparr>"

definition probe_one :: "probe_net \<Rightarrow> gotime \<Rightarrow> (string, int) gomap \<Rightarrow> health \<Rightarrow> PeerInfo \<Rightarrow> health go" where
  "probe_one net now handshakes s p =
     (let k = WGPubKey p; d = hs_daemon s; ts = go_index 0 handshakes k in
      if k = [] \<or> k = ln_WGPubKey (dm_localNode d) \<or> MeshIP p = [] then Inr s
      else if ts > 0 \<and> time_sub now (time_unix ts) < HandshakeStaleAfter
      then Inr (closeProbeSession (set_probe_failures (clear_offline s k) k 0) k)
      else if \<not> (ts > 0 \<or> isRelayRoutedPeer d k \<or> time_sub now (LastSeen p) > 45 * Second)
      then Inr (closeProbeSession (set_probe_failures s k 0) k)
      else and_then (probePeer net s p) (\<lambda>(ok, s).
        if ok then Inr (set_probe_failures (clear_offline s k) k 0)
        else let failures = go_index 0 (probeFailures (hs_daemon s)) k + 1; s = set_probe_failures s k failures in
          Inr (if failures \<ge> MeshProbeFailLimit then evictPeerFromPool now s p else s)))"

fun probe_loop :: "probe_net \<Rightarrow> gotime \<Rightarrow> (string, int) gomap \<Rightarrow> PeerInfo list \<Rightarrow> health \<Rightarrow> health go" where
  "probe_loop net now handshakes [] s = Inr s"
| "probe_loop net now handshakes (p # ps) s =
     and_then (probe_one net now handshakes s p) (\<lambda>s. probe_loop net now handshakes ps s)"

text \<open>\<open>ks\<close> is the order in which the sessions are visited.\<close>

definition cleanupProbeSessions :: "string list \<Rightarrow> string set \<Rightarrow> health \<Rightarrow> health" where
  "cleanupProbeSessions ks activeSet s =
     foldl (\<lambda>s k. let s = closeProbeSession s k in
         s\<lparr>hs_daemon := (hs_daemon s)\<lparr>probeFailures := fmdrop k (probeFailures (hs_daemon s))\<rparr>\<rparr>)
       s (filter (\<lambda>k. k \<notin> activeSet) ks)"

definition probePeersOverMesh :: "host \<Rightarrow> probe_net \<Rightarrow> range_orders \<Rightarrow> gotime \<Rightarrow> Daemon \<Rightarrow> health go" where
  "probePeersOverMesh h net ord now d =
     (let ps = PeerStore_GetActive (ord 0 (fmdom (peers (dm_peerStore d)))) now (dm_peerStore d);
          handshakes = (case GetLatestHandshakes (h_handshakes h) of None \<Rightarrow> fmempty | Some m \<Rightarrow> m);
          act = active_set (ln_WGPubKey (dm_localNode d)) (filter (\<lambda>p. MeshIP p \<noteq> []) ps)
      in and_then (probe_loop net now handshakes ps \<lparr>hs_daemon = d, hs_wg = [], hs_closed = []\<rparr>) (\<lambda>s.
           Inr (cleanupProbeSessions (ord 1 (fmdom (probeSessions (hs_daemon s)))) act s)))"

text \<open>The answer of the probe server to a line: nothing, or a line.\<close>

definition probe_answer :: "string \<Rightarrow> string option" where
  "probe_answer line = (if trim_space line \<noteq> ''ping'' then None else Some (''pong'' @ [CHR 0x0A]))"

section \<open>Clean-up and reload\<close>

text \<open>One tick of staleCleanupLoop.\<close>

definition stale_cleanup :: "range_orders \<Rightarrow> gotime \<Rightarrow> Daemon \<Rightarrow> Daemon \<times> wg_cmd list" where
  "stale_cleanup ord now d =
     (let (removed, st) = PeerStore_CleanupStale (ord 0 (fmdom (peers (dm_peerStore d)))) now (dm_peerStore d)
      in (d\<lparr>dm_peerStore := st\<rparr>, map (RemovePeer (dm_config d)) removed))"

definition routeSlicesEqual :: "string list \<Rightarrow> string list \<Rightarrow> bool" where
  "routeSlicesEqual a b \<longleftrightarrow> length a = length b \<and> list_all (\<lambda>r. r \<in> set a) b"

text \<open>A nil slice of routes is None.\<close>

definition reloadConfig :: "Daemon \<Rightarrow> DaemonOpts \<Rightarrow> Daemon" where
  "reloadConfig d opts =
     (let cfg = dm_config d;
          cfg = (if cfg_LogLevel cfg \<noteq> opt_LogLevel opts \<and> opt_LogLevel opts \<noteq> []
                 then cfg\<lparr>cfg_LogLevel := opt_LogLevel opts\<rparr> else cfg);
          d = d\<lparr>dm_config := cfg\<rparr>
      in case opt_AdvertiseRoutes opts of
           None \<Rightarrow> d
         | Some rs \<Rightarrow>
             if routeSlicesEqual (case cfg_AdvertiseRoutes cfg of None \<Rightarrow> [] | Some l \<Rightarrow> l) rs then d
             else d\<lparr>dm_config := cfg\<lparr>cfg_AdvertiseRoutes := Some rs\<rparr>,
                    dm_localNode := (dm_localNode d)\<lparr>ln_RoutableNetworks := rs\<rparr>\<rparr>)"

definition handleSIGHUP :: "host \<Rightarrow> range_orders \<Rightarrow> gotime \<Rightarrow> string option \<Rightarrow> Daemon \<Rightarrow> Daemon \<times> effects" where
  "handleSIGHUP h ord now file d =
     (case LoadReloadFile file of
        None \<Rightarrow> (d, \<lparr>ef_wg = [], ef_routes = [], ef_addresses = []\<rparr>)
      | Some opts \<Rightarrow> reconcile h ord now (reloadConfig d opts))"

definition GetAdvertiseRoutes :: "Daemon \<Rightarrow> string list" where
  "GetAdvertiseRoutes d = (case cfg_AdvertiseRoutes (dm_config d) of None \<Rightarrow> [] | Some l \<Rightarrow> l)"

definition GetLogLevel :: "Daemon \<Rightarrow> string" where
  "GetLogLevel d = cfg_LogLevel (dm_config d)"

section \<open>The daemon and its interface\<close>

text \<open>
  The steps that act on the state of the daemon and on what the interface was told: discovery
  changes the store of peers, and the ticks and signals run the operations above. The clean-up
  of stale peers is treated apart.
\<close>

abbreviation keyed :: "PeerStore \<Rightarrow> bool" where
  "keyed st \<equiv> fmpred (\<lambda>k p. WGPubKey p = k) (peers st)"

inductive daemon_reach :: "Config \<Rightarrow> LocalNode \<Rightarrow> Daemon \<Rightarrow> (string, string) gomap \<Rightarrow> bool" for config node where
  start: "daemon_reach config node (NewDaemon config node) fmempty"
| discover: "daemon_reach config node d dev \<Longrightarrow> keyed st \<Longrightarrow> daemon_reach config node (d\<lparr>dm_peerStore := st\<rparr>) dev"
| tick: "daemon_reach config node d dev \<Longrightarrow> valid_orders ord \<Longrightarrow> reconcile h ord now d = (d', ef) \<Longrightarrow>
    daemon_reach config node d' (foldl (wg_exec (h_fails h)) dev (ef_wg ef))"
| sighup: "daemon_reach config node d dev \<Longrightarrow> valid_orders ord \<Longrightarrow> handleSIGHUP h ord now file d = (d', ef) \<Longrightarrow>
    daemon_reach config node d' (foldl (wg_exec (h_fails h)) dev (ef_wg ef))"
| health_check: "daemon_reach config node d dev \<Longrightarrow> valid_orders ord \<Longrightarrow> checkPeerHealth h ord now d = s \<Longrightarrow>
    daemon_reach config node (hs_daemon s) (foldl (wg_exec (h_fails h)) dev (hs_wg s))"
| probes: "daemon_reach config node d dev \<Longrightarrow> valid_orders ord \<Longrightarrow> probePeersOverMesh h net ord now d = Inr s \<Longrightarrow>
    daemon_reach config node (hs_daemon s) (foldl (wg_exec (h_fails h)) dev (hs_wg s))"

section \<open>Lemmas\<close>

definition health_inv :: "(argv \<Rightarrow> bool) \<Rightarrow> (string, string) gomap \<Rightarrow> health \<Rightarrow> bool" where
  "health_inv fails dev s \<longleftrightarrow> keyed (dm_peerStore (hs_daemon s))
     \<and> told (lastAppliedPeerConfigs (hs_daemon s)) (foldl (wg_exec fails) dev (hs_wg s))
     \<and> fmpred (\<lambda>_ n. 0 \<le> n \<and> n < MeshProbeFailLimit) (probeFailures (hs_daemon s))
     \<and> fmpred (\<lambda>_ n. n = 0 \<or> n = 1) (peerHealthFailures (hs_daemon s))"

lemma told_drop: "told c dev \<Longrightarrow> told (fmdrop k c) dev" "told c dev \<Longrightarrow> told (fmdrop k c) (fmdrop k dev)"
  "told c dev \<Longrightarrow> told (fmdrop k c) (fmupd k v dev)"
  by (auto simp: told_iff)

lemma fmdrop_upd: "fmdrop k (fmupd k v m) = fmdrop k m"
  by (rule fmap_ext) simp

lemma keyed_remove: "keyed st \<Longrightarrow> keyed (PeerStore_Remove st k)"
  by (simp add: PeerStore_Remove_def fmpred_drop)

lemma keyed_latency: "keyed st \<Longrightarrow> keyed (PeerStore_SetLatency st k l)"
  by (auto simp: PeerStore_SetLatency_def fmpred_iff split: option.splits)

lemma close_inv: "health_inv fails dev s \<Longrightarrow> health_inv fails dev (closeProbeSession s k)"
  by (simp add: health_inv_def closeProbeSession_def Let_def)

lemma reconnect_inv:
  assumes "health_inv fails dev s"
  shows "health_inv fails dev (attemptPeerReconnect fails s p)"
proof (cases "WGPubKey p = [] \<or> Endpoint p = [] \<or> join_with '','' (mapKeysSorted (reconnect_allowed p)) = []")
  case False
  obtain cmd ok where c: "SetPeer fails (dm_config (hs_daemon s)) (WGPubKey p) (Endpoint p)
      (join_with '','' (mapKeysSorted (reconnect_allowed p))) = (cmd, ok)" by fastforce
  with False assms wg_exec_set [OF c] show ?thesis
    by (auto simp: health_inv_def attemptPeerReconnect_def Let_def told_drop)
qed (use assms in \<open>auto simp: attemptPeerReconnect_def\<close>)

lemma evict_inv:
  assumes "health_inv fails dev s"
  shows "health_inv fails dev (evictPeerFromPool now s p)"
  using assms
  by (auto simp: health_inv_def evictPeerFromPool_def closeProbeSession_def Let_def wg_exec_remove told_drop keyed_remove fmpred_drop)

lemma check_peer_inv:
  assumes "health_inv (h_fails h) dev s"
  shows "health_inv (h_fails h) dev (check_peer h now hs ts s p)"
proof (cases "WGPubKey p = [] \<or> WGPubKey p = ln_WGPubKey (dm_localNode (hs_daemon s))")
  case False
  let ?k = "WGPubKey p" and ?d = "hs_daemon s"
  let ?t = "go_index \<lparr>RxBytes = 0, TxBytes = 0\<rparr> ts ?k"
  let ?stale = "shouldTreatPeerAsStale (go_index 0 hs ?k) (go_index 0 (lastPeerTransferTotal ?d) ?k) (RxBytes ?t + TxBytes ?t) now"
  let ?n = "if ?stale then go_index 0 (peerHealthFailures ?d) ?k + 1 else 0"
  let ?s = "s\<lparr>hs_daemon := ?d\<lparr>lastPeerTransferTotal := fmupd ?k (RxBytes ?t + TxBytes ?t) (lastPeerTransferTotal ?d),
     peerHealthFailures := fmupd ?k ?n (peerHealthFailures ?d)\<rparr>\<rparr>"
  have c: "check_peer h now hs ts s p = (if \<not> ?stale then ?s else if ?n = 1 then attemptPeerReconnect (h_fails h) ?s p
      else if ?n \<ge> 2 then evictPeerFromPool now ?s p else ?s)"
    using False by (simp add: check_peer_def Let_def)
  have old: "go_index 0 (peerHealthFailures ?d) ?k \<in> {0, 1}"
    using assms by (auto simp: health_inv_def go_index_def fmpred_iff split: option.splits)
  show ?thesis
  proof (cases "?n = 2")
    case False
    with old have "health_inv (h_fails h) dev ?s" using assms by (auto simp: health_inv_def fmpred_iff split: if_splits)
    with False old show ?thesis unfolding c by (auto intro: reconnect_inv)
  next
    case True
    then have "check_peer h now hs ts s p = evictPeerFromPool now ?s p" unfolding c by (auto split: if_splits)
    moreover have "evictPeerFromPool now ?s p = evictPeerFromPool now (s\<lparr>hs_daemon := ?d\<lparr>lastPeerTransferTotal := fmdrop ?k (lastPeerTransferTotal ?d)\<rparr>\<rparr>) p"
      using False by (simp add: evictPeerFromPool_def closeProbeSession_def Let_def fmdrop_upd split del: if_split)
    moreover have "health_inv (h_fails h) dev (s\<lparr>hs_daemon := ?d\<lparr>lastPeerTransferTotal := fmdrop ?k (lastPeerTransferTotal ?d)\<rparr>\<rparr>)"
      using assms by (simp add: health_inv_def)
    ultimately show ?thesis by (simp add: evict_inv)
  qed
qed (use assms in \<open>auto simp: check_peer_def\<close>)

lemma check_loop_inv:
  "health_inv (h_fails h) dev s \<Longrightarrow> health_inv (h_fails h) dev (foldl (check_peer h now hs ts) s ps)"
  by (induction ps arbitrary: s) (simp_all add: check_peer_inv)

lemma checkPeerHealth_inv:
  assumes "health_inv (h_fails h) dev \<lparr>hs_daemon = d, hs_wg = [], hs_closed = []\<rparr>"
  shows "health_inv (h_fails h) dev (checkPeerHealth h ord now d)"
proof (cases "GetLatestHandshakes (h_handshakes h)"; cases "GetPeerTransfers (h_transfers h)")
  fix hs ts
  assume e: "GetLatestHandshakes (h_handshakes h) = Some hs" "GetPeerTransfers (h_transfers h) = Some ts"
  let ?ps = "PeerStore_GetActive (ord 0 (fmdom (peers (dm_peerStore d)))) now (dm_peerStore d)"
  from check_loop_inv [OF assms, of now hs ts ?ps] show ?thesis
    unfolding checkPeerHealth_def e by (auto simp: health_inv_def Let_def fmpred_filter)
qed (use assms in \<open>simp_all add: checkPeerHealth_def\<close>)

lemma set_failures_inv: "health_inv fails dev s \<Longrightarrow> 0 \<le> n \<Longrightarrow> n < MeshProbeFailLimit \<Longrightarrow> health_inv fails dev (set_probe_failures s k n)"
  by (auto simp: health_inv_def set_probe_failures_def fmpred_iff)

lemma clear_offline_inv: "health_inv fails dev s \<Longrightarrow> health_inv fails dev (clear_offline s k)"
  by (simp add: health_inv_def clear_offline_def)

lemma dial_inv: "health_inv fails dev s \<Longrightarrow> getOrDialProbeSession net s p = (c, s') \<Longrightarrow> health_inv fails dev s'"
  by (auto simp: getOrDialProbeSession_def Let_def health_inv_def split: option.splits list.splits)

lemma probePeer_inv:
  assumes "health_inv fails dev s" "probePeer net s p = Inr (ok, s')"
  shows "health_inv fails dev s'"
proof -
  obtain c t where d: "getOrDialProbeSession net s p = (c, t)" by fastforce
  have "health_inv fails dev (t\<lparr>hs_daemon := (hs_daemon t)\<lparr>dm_peerStore := PeerStore_SetLatency (dm_peerStore (hs_daemon t)) k l\<rparr>\<rparr>)" for k l
    using dial_inv [OF assms(1) d] by (simp add: health_inv_def keyed_latency)
  with dial_inv [OF assms(1) d] assms d show ?thesis
    by (auto simp: probePeer_def close_inv split: if_splits option.splits)
qed

lemma evict_sets_failures:
  "WGPubKey p \<noteq> [] \<Longrightarrow> evictPeerFromPool now (set_probe_failures s (WGPubKey p) n) p = evictPeerFromPool now (set_probe_failures s (WGPubKey p) 0) p"
  by (simp add: evictPeerFromPool_def set_probe_failures_def closeProbeSession_def Let_def fmdrop_upd)

lemma probe_one_inv:
  assumes "health_inv fails dev s" "probe_one net now hs s p = Inr s'"
  shows "health_inv fails dev s'"
proof -
  have z: "(0 :: int) < MeshProbeFailLimit" by (simp add: MeshProbeFailLimit_def)
  let ?k = "WGPubKey p"
  have fail: "health_inv fails dev (if n \<ge> MeshProbeFailLimit then evictPeerFromPool now (set_probe_failures t ?k n) p else set_probe_failures t ?k n)"
    if "health_inv fails dev t" "?k \<noteq> []" "n = go_index 0 (probeFailures (hs_daemon t)) ?k + 1" for t n
  proof -
    have "0 \<le> go_index 0 (probeFailures (hs_daemon t)) ?k"
      using that(1) by (auto simp: health_inv_def go_index_def fmpred_iff split: option.splits)
    then have "health_inv fails dev (set_probe_failures t ?k n)" if "\<not> n \<ge> MeshProbeFailLimit"
      using that \<open>n = _\<close> by (intro set_failures_inv [OF \<open>health_inv fails dev t\<close>]) simp_all
    moreover have "health_inv fails dev (evictPeerFromPool now (set_probe_failures t ?k n) p)"
      unfolding evict_sets_failures [OF that(2), of now t n]
      by (rule evict_inv [OF set_failures_inv [OF that(1) order_refl z]])
    ultimately show ?thesis by simp
  qed
  let ?ts = "go_index 0 hs ?k"
  consider "?k = [] \<or> ?k = ln_WGPubKey (dm_localNode (hs_daemon s)) \<or> MeshIP p = []" "s' = s"
    | "s' = closeProbeSession (set_probe_failures (clear_offline s ?k) ?k 0) ?k"
    | "s' = closeProbeSession (set_probe_failures s ?k 0) ?k"
    | ok t where "?k \<noteq> []" "probePeer net s p = Inr (ok, t)"
        "s' = (if ok then set_probe_failures (clear_offline t ?k) ?k 0
           else let n = go_index 0 (probeFailures (hs_daemon t)) ?k + 1 in
             if n \<ge> MeshProbeFailLimit then evictPeerFromPool now (set_probe_failures t ?k n) p else set_probe_failures t ?k n)"
    using assms(2) unfolding probe_one_def Let_def
    by (cases "?k = [] \<or> ?k = ln_WGPubKey (dm_localNode (hs_daemon s)) \<or> MeshIP p = []";
        cases "?ts > 0 \<and> time_sub now (time_unix ?ts) < HandshakeStaleAfter";
        cases "\<not> (?ts > 0 \<or> isRelayRoutedPeer (hs_daemon s) ?k \<or> time_sub now (LastSeen p) > 45 * Second)";
        cases "probePeer net s p") (auto split: if_splits prod.splits)
  then show ?thesis
  proof cases
    case 4
    then show ?thesis
      using probePeer_inv [OF assms(1) 4(2)] fail [OF _ 4(1) refl] set_failures_inv [OF clear_offline_inv _ z] by (simp add: Let_def)
  qed (use assms(1) z in \<open>simp_all add: close_inv set_failures_inv clear_offline_inv\<close>)
qed

lemma probe_loop_inv: "health_inv fails dev s \<Longrightarrow> probe_loop net now hs ps s = Inr s' \<Longrightarrow> health_inv fails dev s'"
  by (induction net now hs ps s rule: probe_loop.induct) (auto simp: and_then_Inr dest: probe_one_inv)

lemma cleanup_sessions_inv: "health_inv fails dev s \<Longrightarrow> health_inv fails dev (cleanupProbeSessions ks act s)"
proof -
  have "health_inv fails dev s \<Longrightarrow> health_inv fails dev (foldl (\<lambda>s k. let s = closeProbeSession s k in
         s\<lparr>hs_daemon := (hs_daemon s)\<lparr>probeFailures := fmdrop k (probeFailures (hs_daemon s))\<rparr>\<rparr>) s js)" for js
    by (induction js arbitrary: s) (auto simp: health_inv_def closeProbeSession_def Let_def fmpred_drop)
  then show "health_inv fails dev s \<Longrightarrow> ?thesis" by (simp add: cleanupProbeSessions_def)
qed

section \<open>Properties\<close>

lemma reconcile_inv:
  assumes "health_inv (h_fails h) dev \<lparr>hs_daemon = d, hs_wg = [], hs_closed = []\<rparr>" "valid_orders ord" "reconcile h ord now d = (d', ef)"
  shows "health_inv (h_fails h) dev \<lparr>hs_daemon = d', hs_wg = ef_wg ef, hs_closed = []\<rparr>"
proof -
  have k: "keyed (dm_peerStore d)" "told (lastAppliedPeerConfigs d) dev" using assms(1) by (simp_all add: health_inv_def)
  from conjunct1 [OF reconcile_spec [OF assms(2) k assms(3) refl refl]] assms(1) reconcile_frame [of h ord now d] assms(3)
  show ?thesis by (simp add: health_inv_def)
qed

lemma reload_inv: "health_inv fails dev \<lparr>hs_daemon = d, hs_wg = [], hs_closed = []\<rparr> \<Longrightarrow>
    health_inv fails dev \<lparr>hs_daemon = reloadConfig d opts, hs_wg = [], hs_closed = []\<rparr>"
  by (auto simp: health_inv_def reloadConfig_def Let_def split: option.splits)

lemma sighup_inv:
  assumes "health_inv (h_fails h) dev \<lparr>hs_daemon = d, hs_wg = [], hs_closed = []\<rparr>" "valid_orders ord" "handleSIGHUP h ord now file d = (d', ef)"
  shows "health_inv (h_fails h) dev \<lparr>hs_daemon = d', hs_wg = ef_wg ef, hs_closed = []\<rparr>"
proof (cases "LoadReloadFile file")
  case (Some opts)
  then show ?thesis using reconcile_inv [OF reload_inv [OF assms(1)] assms(2)] assms(3) by (simp add: handleSIGHUP_def)
qed (use assms in \<open>auto simp: handleSIGHUP_def\<close>)

lemma health_inv_fails: "health_inv fails dev \<lparr>hs_daemon = d, hs_wg = [], hs_closed = []\<rparr> = health_inv g dev \<lparr>hs_daemon = d, hs_wg = [], hs_closed = []\<rparr>"
  by (simp add: health_inv_def)

lemma health_inv_restart:
  "health_inv fails dev s \<Longrightarrow> health_inv g (foldl (wg_exec fails) dev (hs_wg s)) \<lparr>hs_daemon = hs_daemon s, hs_wg = [], hs_closed = []\<rparr>"
  by (simp add: health_inv_def)



lemma desired_online:
  assumes "distinct (map WGPubKey ps)" "b = buildDesiredPeerConfigsWithHandshakes now subnets d ps hs" "fmlookup (bd_desired b) k \<noteq> None"
  shows "\<not> offline now (temporaryOffline d) k"
proof -
  define via where "via = (\<lambda>p. if relay_wanted now subnets d ps hs p
       \<or> relay_held (relayRoutes d) (directStableCycles d) (relay_wanted now subnets d ps hs p) (WGPubKey p)
     then selectRelayForPeer (dm_localNode d) p (filter (candidate now d) ps) else None)"
  note B = conjunct1 [OF conjunct2 [OF build_spec [OF assms(1,2) refl via_def refl]], THEN spec, of k]
  obtain p qs where f: "filter (\<lambda>p. eligible now d p \<and> WGPubKey (case via p of Some q \<Rightarrow> q | None \<Rightarrow> p) = k) ps = p # qs"
    using B assms(3) by (cases "filter (\<lambda>p. eligible now d p \<and> WGPubKey (case via p of Some q \<Rightarrow> q | None \<Rightarrow> p) = k) ps") auto
  then have p: "eligible now d p" "WGPubKey (case via p of Some q \<Rightarrow> q | None \<Rightarrow> p) = k"
    using Cons_eq_filterD [OF f [symmetric]] by auto
  show ?thesis
  proof (cases "via p")
    case None
    then show ?thesis using p by (simp add: eligible_def)
  next
    case (Some r)
    then have "candidate now d r"
      using selectRelay_Some [of "dm_localNode d" p "filter (candidate now d) ps" r] by (auto simp: via_def split: if_splits)
    then show ?thesis using p(2) Some by (simp add: candidate_def)
  qed
qed

text \<open>
  C27. An evicted peer stays out for half a minute. It is gone from the store at once; and for
  thirty seconds, whatever discovery puts back into the store, a cycle neither configures it
  nor relays through it.
\<close>

theorem evicted_peer_kept_out:
  assumes "WGPubKey p \<noteq> []" "s' = evictPeerFromPool t s p" "valid_orders ord" "keyed st"
    and "t \<le> now" "now \<le> t + 30 * Second"
    and "b = buildDesiredPeerConfigsWithHandshakes now subnets ((hs_daemon s')\<lparr>dm_peerStore := st\<rparr>)
       (active_peers (h, ord, now, st)) hs"
  shows "fmlookup (peers (dm_peerStore (hs_daemon s'))) (WGPubKey p) = None
    \<and> fmlookup (bd_desired b) (WGPubKey p) = None \<and> (\<forall>k. fmlookup (bd_relayRoutes b) k \<noteq> Some (WGPubKey p))"
proof -
  let ?d = "(hs_daemon s')\<lparr>dm_peerStore := st\<rparr>"
  have off: "offline now (temporaryOffline ?d) (WGPubKey p)"
    using assms(1,2,6) by (simp add: offline_def isTemporarilyOffline_def evictPeerFromPool_def closeProbeSession_def
        markTemporarilyOffline_def TemporaryOfflineTTL_def Let_def)
  note dist = active_distinct [OF assms(3,4), of h now]
  have "fmlookup (bd_desired b) (WGPubKey p) = None"
    using desired_online [OF dist assms(7)] off by blast
  moreover have "fmlookup (bd_relayRoutes b) k \<noteq> Some (WGPubKey p)" for k
    using conjunct2 [OF desired_spec [OF dist assms(7)]] off by (force simp: candidate_def)
  moreover have "fmlookup (peers (dm_peerStore (hs_daemon s'))) (WGPubKey p) = None"
    using assms(1,2) by (simp add: evictPeerFromPool_def closeProbeSession_def PeerStore_Remove_def Let_def)
  ultimately show ?thesis by blast
qed

theorem evicted_peer_kept_out_witness:
  "fmlookup (bd_desired (buildDesiredPeerConfigsWithHandshakes (20 * Second) []
     ((hs_daemon (evictPeerFromPool 0 \<lparr>hs_daemon = sample_daemon, hs_wg = [], hs_closed = []\<rparr> relay_peer))
        \<lparr>dm_peerStore := snd (snd (snd sample_env))\<rparr>)
     (active_peers (sample_host, lex_orders, 20 * Second, snd (snd (snd sample_env)))) None)) ''R'' = None"
proof -
  have k: "keyed (snd (snd (snd sample_env)))" using sample_peers_keys by (simp add: sample_env_def)
  have r: "WGPubKey relay_peer = ''R''" by (simp add: relay_peer_def sample_peer_def)
  show ?thesis
    using evicted_peer_kept_out [OF _ refl lex_orders_valid k _ _ refl, of relay_peer 0 "20 * Second"]
    by (simp add: r Second_def)
qed

lemma remove_all_lookup:
  "\<forall>c. \<not> fails c \<Longrightarrow> fmlookup (foldl (wg_exec fails) dev (map (RemovePeer cfg) ks)) k = (if k \<in> set ks then None else fmlookup dev k)"
  by (induction ks arbitrary: dev) (auto simp: wg_exec_remove)

text \<open>
  The clean-up of stale peers leaves their entries in the cache of applied configurations: the
  interface no longer has the peer, the cache says it is configured, and the next cycles skip it.
\<close>

lemma stale_cleanup_breaks_cache:
  assumes "valid_orders ord" "fmlookup (peers (dm_peerStore d)) k = Some p" "now - LastSeen p > 10 * Minute"
    and "fmlookup (lastAppliedPeerConfigs d) k = Some sig" "\<forall>c. \<not> fails c"
  shows "fmlookup (lastAppliedPeerConfigs (fst (stale_cleanup ord now d))) k = Some sig
    \<and> fmlookup (foldl (wg_exec fails) dev (snd (stale_cleanup ord now d))) k = None"
proof -
  let ?c = "PeerStore_CleanupStale (ord 0 (fmdom (peers (dm_peerStore d)))) now (dm_peerStore d)"
  have "k \<in> set (fst ?c)"
    unfolding cleanup_stale_parts(3) [OF valid_orders_range [OF assms(1)]] using assms(2,3) by (simp add: PeerStore_Get_def)
  then show ?thesis
    using assms(4) remove_all_lookup [OF assms(5), of dev "dm_config d" "fst ?c" k]
    by (simp add: stale_cleanup_def case_prod_beta)
qed

end
