(* ===== verification/Stun.thy ===== *)
theory Stun
  imports Sha256
begin

text \<open>
  The STUN client of pkg/discovery/stun.go: the binding request, the parser of the response with
  its 16-bit length arithmetic, and the classification of the NAT. The loop over the attributes
  is a partial function, because the wrap-around of the lengths can keep it from making progress.
  The random transaction identifier and the network are arguments.
\<close>

definition stunBindingRequest :: "16 word" where "stunBindingRequest = 0x0001"
definition stunBindingResponse :: "16 word" where "stunBindingResponse = 0x0101"
definition stunMagicCookie :: "32 word" where "stunMagicCookie = 0x2112A442"
definition stunHeaderSize :: nat where "stunHeaderSize = 20"
definition stunAttrMappedAddress :: "16 word" where "stunAttrMappedAddress = 0x0001"
definition stunAttrXORMappedAddress :: "16 word" where "stunAttrXORMappedAddress = 0x0020"

datatype stun_error = ResponseTooShort nat | UnexpectedType "16 word" | InvalidCookie "32 word" | TransactionMismatch
  | AttributesTooLong "16 word" | NoMappedAddress | AddressTooShort | UnknownFamily byte
  | QueryFailed | UnexpectedSender | BothFailed

type_synonym address = "byte list \<times> int"
type_synonym 'a stun = "go_panic + stun_error + 'a"

text \<open>A slice expression with both bounds.\<close>

definition go_slice :: "'a list \<Rightarrow> nat \<Rightarrow> nat \<Rightarrow> 'a list go" where
  "go_slice xs lo hi = (if lo \<le> hi \<and> hi \<le> length xs then Inr (take (hi - lo) (drop lo xs)) else Inl SliceOutOfRange)"

definition be_bytes16 :: "16 word \<Rightarrow> byte list" where
  "be_bytes16 w = [ucast (drop_bit 8 w), ucast w]"

definition buildBindingRequest :: "byte list \<Rightarrow> byte list" where
  "buildBindingRequest rnd = be_bytes16 stunBindingRequest @ be_bytes16 0 @ be_bytes32 stunMagicCookie @ rnd"

definition xor_bytes_with :: "byte list \<Rightarrow> byte list \<Rightarrow> byte list" where
  "xor_bytes_with a b = map2 (XOR) a b"

definition parseXORMappedAddress :: "byte list \<Rightarrow> byte list \<Rightarrow> stun_error + address" where
  "parseXORMappedAddress val txnID =
     (if length val < 4 then Inl AddressTooShort
      else let family = val ! 1; xorPort = be_word16 (take 2 (drop 2 val));
               port = int (unat (xorPort XOR ucast (drop_bit 16 stunMagicCookie)))
           in if family = 0x01 then
                (if length val < 8 then Inl AddressTooShort
                 else Inr (xor_bytes_with (take 4 (drop 4 val)) (be_bytes32 stunMagicCookie), port))
              else if family = 0x02 then
                (if length val < 20 then Inl AddressTooShort
                 else Inr (xor_bytes_with (take 16 (drop 4 val)) (be_bytes32 stunMagicCookie @ txnID), port))
              else Inl (UnknownFamily family))"

definition parseMappedAddress :: "byte list \<Rightarrow> stun_error + address" where
  "parseMappedAddress val =
     (if length val < 4 then Inl AddressTooShort
      else let family = val ! 1; port = int (unat (be_word16 (take 2 (drop 2 val))))
           in if family = 0x01 then
                (if length val < 8 then Inl AddressTooShort else Inr (take 4 (drop 4 val), port))
              else if family = 0x02 then
                (if length val < 20 then Inl AddressTooShort else Inr (take 16 (drop 4 val), port))
              else Inl (UnknownFamily family))"

text \<open>The switch on the attribute: an address to return at once, or the mapped address so far.\<close>

definition stun_attr :: "16 word \<Rightarrow> byte list \<Rightarrow> byte list \<Rightarrow> address option \<Rightarrow> address + address option" where
  "stun_attr attrType val txnID mapped =
     (if attrType = stunAttrXORMappedAddress then
        (case parseXORMappedAddress val txnID of Inr a \<Rightarrow> Inl a | Inl _ \<Rightarrow> Inr mapped)
      else if attrType = stunAttrMappedAddress then
        (case parseMappedAddress val of Inr a \<Rightarrow> Inr (Some a) | Inl _ \<Rightarrow> Inr mapped)
      else Inr mapped)"

definition stun_mapped :: "address option \<Rightarrow> address stun" where
  "stun_mapped mapped = Inr (case mapped of Some a \<Rightarrow> Inr a | None \<Rightarrow> Inl NoMappedAddress)"

definition stun_pad :: "16 word \<Rightarrow> 16 word" where
  "stun_pad valLen = (if valLen mod 4 \<noteq> 0 then valLen + (4 - valLen mod 4) else valLen)"

partial_function (option) stun_attrs :: "byte list \<Rightarrow> address option \<Rightarrow> byte list \<Rightarrow> address stun option" where
  "stun_attrs txnID mapped attrs =
     (if length attrs < 4 then Some (stun_mapped mapped)
      else let attrType = be_word16 (take 2 attrs); valLen = be_word16 (take 2 (drop 2 attrs)) in
        if unat (4 + valLen) > length attrs then Some (stun_mapped mapped)
        else case go_slice attrs 4 (unat (4 + valLen)) of
            Inl p \<Rightarrow> Some (Inl p)
          | Inr val \<Rightarrow>
              (case stun_attr attrType val txnID mapped of
                 Inl a \<Rightarrow> Some (Inr (Inr a))
               | Inr mapped' \<Rightarrow>
                   (case go_slice attrs (unat (4 + stun_pad valLen)) (length attrs) of
                      Inl p \<Rightarrow> Some (Inl p)
                    | Inr rest \<Rightarrow> stun_attrs txnID mapped' rest)))"

declare stun_attrs.simps [code]

definition parseBindingResponse :: "byte list \<Rightarrow> byte list \<Rightarrow> address stun option" where
  "parseBindingResponse data txnID =
     (if length data < stunHeaderSize then Some (Inr (Inl (ResponseTooShort (length data))))
      else let msgType = be_word16 (take 2 data); cookie = be_word32 (take 4 (drop 4 data));
               respTxnID = take 12 (drop 8 data); attrLen = be_word16 (take 2 (drop 2 data)) in
        if msgType \<noteq> stunBindingResponse then Some (Inr (Inl (UnexpectedType msgType)))
        else if cookie \<noteq> stunMagicCookie then Some (Inr (Inl (InvalidCookie cookie)))
        else if respTxnID \<noteq> txnID then Some (Inr (Inl TransactionMismatch))
        else if unat attrLen > length data - stunHeaderSize then Some (Inr (Inl (AttributesTooLong attrLen)))
        else stun_attrs txnID None (take (unat attrLen) (drop stunHeaderSize data)))"

section \<open>Queries\<close>

text \<open>
  A query on a socket: the address a server name resolves to, and the sender and content of the
  datagram that answers a request, None when sending or receiving fails. At most 512 bytes are read.
\<close>

definition stunQueryConn :: "(string \<Rightarrow> byte list option) \<Rightarrow> (string \<Rightarrow> byte list \<Rightarrow> (byte list \<times> byte list) option) \<Rightarrow>
    string \<Rightarrow> byte list \<Rightarrow> address stun option" where
  "stunQueryConn resolve exchange server rnd =
     (case resolve server of
        None \<Rightarrow> Some (Inr (Inl QueryFailed))
      | Some raddr \<Rightarrow>
          (case exchange server (buildBindingRequest rnd) of
             None \<Rightarrow> Some (Inr (Inl QueryFailed))
           | Some (sender, reply) \<Rightarrow>
               if \<not> ip_equal sender raddr then Some (Inr (Inl UnexpectedSender))
               else parseBindingResponse (take 512 reply) rnd))"

definition STUNQuery :: "bool \<Rightarrow> (string \<Rightarrow> byte list option) \<Rightarrow> (string \<Rightarrow> byte list \<Rightarrow> (byte list \<times> byte list) option) \<Rightarrow>
    string \<Rightarrow> byte list \<Rightarrow> address stun option" where
  "STUNQuery bound resolve exchange server rnd =
     (case resolve server of
        None \<Rightarrow> Some (Inr (Inl QueryFailed))
      | Some _ \<Rightarrow> if bound then stunQueryConn resolve exchange server rnd else Some (Inr (Inl QueryFailed)))"

definition DefaultSTUNServers :: "string list" where
  "DefaultSTUNServers = [''stun.l.google.com:19302'', ''stun1.l.google.com:19302'', ''stun.cloudflare.com:3478'']"

fun discover_loop :: "(string \<Rightarrow> address stun option) \<Rightarrow> string list \<Rightarrow> address stun option" where
  "discover_loop query [] = Some (Inr (Inl QueryFailed))"
| "discover_loop query (server # ss) =
     (case query server of
        None \<Rightarrow> None
      | Some (Inl p) \<Rightarrow> Some (Inl p)
      | Some (Inr (Inr a)) \<Rightarrow> Some (Inr (Inr a))
      | Some (Inr (Inl _)) \<Rightarrow> discover_loop query ss)"

definition DiscoverExternalEndpoint :: "(string \<Rightarrow> address stun option) \<Rightarrow> address stun option" where
  "DiscoverExternalEndpoint query = discover_loop query DefaultSTUNServers"

definition NATUnknown :: string where "NATUnknown = ''unknown''"
definition NATCone :: string where "NATCone = ''cone''"
definition NATSymmetric :: string where "NATSymmetric = ''symmetric''"

definition classify_nat :: "stun_error + address \<Rightarrow> stun_error + address \<Rightarrow> stun_error + (string \<times> address)" where
  "classify_nat r1 r2 =
     (case (r1, r2) of
        (Inl _, Inl _) \<Rightarrow> Inl BothFailed
      | (Inl _, Inr a) \<Rightarrow> Inr (NATUnknown, a)
      | (Inr a, Inl _) \<Rightarrow> Inr (NATUnknown, a)
      | (Inr a, Inr b) \<Rightarrow>
          if ip_equal (fst a) (fst b) \<and> snd a = snd b then Inr (NATCone, a) else Inr (NATSymmetric, a))"

text \<open>Both queries use the same socket; \<open>bound\<close> says whether it could be opened.\<close>

definition DetectNATType :: "bool \<Rightarrow> (string \<Rightarrow> address stun option) \<Rightarrow> string \<Rightarrow> string \<Rightarrow> (string \<times> address) stun option" where
  "DetectNATType bound query server1 server2 =
     (if \<not> bound then Some (Inr (Inl QueryFailed))
      else case query server1 of
          None \<Rightarrow> None
        | Some (Inl p) \<Rightarrow> Some (Inl p)
        | Some (Inr r1) \<Rightarrow>
            (case query server2 of
               None \<Rightarrow> None
             | Some (Inl p) \<Rightarrow> Some (Inl p)
             | Some (Inr r2) \<Rightarrow> Some (Inr (classify_nat r1 r2))))"

section \<open>Lemmas\<close>

lemma be_word16_bytes [simp]: "be_word16 (be_bytes16 w) = w"
  unfolding be_word16_def be_bytes16_def
  by (rule bit_word_eqI) (auto simp: bit_simps)

lemma be_word32_be_bytes32 [simp]: "be_word32 (be_bytes32 w) = w"
proof (rule bit_word_eqI)
  fix n assume "n < LENGTH(32)"
  then consider "n < 8" | "8 \<le> n \<and> n < 16" | "16 \<le> n \<and> n < 24" | "24 \<le> n \<and> n < 32" by force
  then show "bit (be_word32 (be_bytes32 w)) n = bit w n"
    by cases (auto simp: be_word32_def be_bytes32_def bit_simps)
qed

lemma be_bytes_length [simp]: "length (be_bytes16 w) = 2" "length (be_bytes32 v) = 4"
  by (simp_all add: be_bytes16_def be_bytes32_def)

lemma xor_xor: "length a \<le> length b \<Longrightarrow> xor_bytes_with (xor_bytes_with a b) b = a"
  by (induction a b rule: list_induct2') (simp_all add: xor_bytes_with_def xor.assoc)

lemma xor_length [simp]: "length (xor_bytes_with a b) = min (length a) (length b)"
  by (simp add: xor_bytes_with_def)

lemma unat16: "n < 65536 \<Longrightarrow> unat (word_of_nat n :: 16 word) = n"
  by (simp add: unat_of_nat)

lemma unat_add4: "unat (4 + v :: 16 word) = (if unat v < 65532 then unat v + 4 else unat v - 65532)"
proof -
  have "unat v < 65536" using unsigned_less [of v] by simp
  then show ?thesis by (simp add: unat_word_ariths) (auto simp: mod_if)
qed

lemma stun_pad_unat:
  assumes "unat v \<le> 65532"
  shows "unat (stun_pad v) = (unat v + 3) div 4 * 4"
proof -
  have m: "unat (v mod 4) = unat v mod 4" by (simp add: unat_mod)
  have z: "v mod 4 = 0 \<longleftrightarrow> unat v mod 4 = 0" using m by (metis unat_eq_0)
  have s: "unat (4 - v mod 4) = 4 - unat v mod 4"
    using m by (simp add: unat_sub_if_size word_le_nat_alt)
  show ?thesis
  proof (cases "unat v mod 4 = 0")
    case True
    then show ?thesis using z by (simp add: stun_pad_def) presburger
  next
    case False
    then have "unat v + (4 - unat v mod 4) < 65536" using assms by presburger
    then have "unat (v + (4 - v mod 4)) = unat v + (4 - unat v mod 4)"
      using s by (simp add: unat_word_ariths)
    then show ?thesis using False z by (simp add: stun_pad_def) presburger
  qed
qed

lemma stun_attrs_step:
  assumes "4 \<le> length attrs" "unat (be_word16 (take 2 (drop 2 attrs))) + 4 \<le> length attrs" "length attrs \<le> 65535"
    and "v = be_word16 (take 2 (drop 2 attrs))"
  shows "stun_attrs txnID mapped attrs =
    (case stun_attr (be_word16 (take 2 attrs)) (take (unat v) (drop 4 attrs)) txnID mapped of
       Inl a \<Rightarrow> Some (Inr (Inr a))
     | Inr mapped' \<Rightarrow>
         (case go_slice attrs (unat (4 + stun_pad v)) (length attrs) of
            Inl p \<Rightarrow> Some (Inl p) | Inr rest \<Rightarrow> stun_attrs txnID mapped' rest))"
proof -
  have v: "unat (4 + v) = unat v + 4" "unat v + 4 \<le> length attrs" using assms by (simp_all add: unat_add4)
  then have "go_slice attrs 4 (unat (4 + v)) = Inr (take (unat v) (drop 4 attrs))"
    using assms by (simp add: go_slice_def)
  moreover have "\<not> length attrs < 4" "\<not> unat (4 + v) > length attrs" using assms(1) v by simp_all
  ultimately show ?thesis
    unfolding stun_attrs.simps [of txnID mapped attrs] Let_def assms(4) [symmetric] by (simp only: if_False sum.case)
qed

section \<open>Properties\<close>

text \<open>A response to a request: its header and attributes; and the attribute with a masked address.\<close>

definition stun_response :: "byte list \<Rightarrow> byte list \<Rightarrow> byte list" where
  "stun_response txnID attrs = be_bytes16 stunBindingResponse @ be_bytes16 (word_of_nat (length attrs))
     @ be_bytes32 stunMagicCookie @ txnID @ attrs"

definition xor_mapped_attr :: "byte list \<Rightarrow> byte list \<Rightarrow> 16 word \<Rightarrow> byte list" where
  "xor_mapped_attr txnID ip port =
     be_bytes16 stunAttrXORMappedAddress @ be_bytes16 (word_of_nat (4 + length ip))
     @ [0, if length ip = 4 then 1 else 2] @ be_bytes16 (port XOR ucast (drop_bit 16 stunMagicCookie))
     @ xor_bytes_with ip (be_bytes32 stunMagicCookie @ txnID)"

lemma parse_response:
  assumes "length txnID = 12" "length attrs < 65536"
  shows "parseBindingResponse (stun_response txnID attrs) txnID = stun_attrs txnID None attrs"
proof -
  have "take 2 (stun_response txnID attrs) = be_bytes16 stunBindingResponse"
    "take 2 (drop 2 (stun_response txnID attrs)) = be_bytes16 (word_of_nat (length attrs))"
    "take 4 (drop 4 (stun_response txnID attrs)) = be_bytes32 stunMagicCookie"
    "take 12 (drop 8 (stun_response txnID attrs)) = txnID"
    "drop 20 (stun_response txnID attrs) = attrs" "length (stun_response txnID attrs) = 20 + length attrs"
    using assms(1) by (simp_all add: stun_response_def be_bytes16_def be_bytes32_def)
  then show ?thesis
    using assms(2) by (simp add: parseBindingResponse_def stunHeaderSize_def unat16 Let_def)
qed

lemma take_xor: "length ip \<le> length a \<Longrightarrow> xor_bytes_with ip (a @ b) = xor_bytes_with ip a"
  by (simp add: xor_bytes_with_def zip_append1 zip_append2)

lemma parse_xor_attr:
  assumes "length ip = 4 \<or> length ip = 16" "length txnID = 12"
  shows "parseXORMappedAddress ([0, if length ip = 4 then 1 else 2] @ be_bytes16 (port XOR ucast (drop_bit 16 stunMagicCookie))
     @ xor_bytes_with ip (be_bytes32 stunMagicCookie @ txnID)) txnID = Inr (ip, int (unat port))"
proof -
  let ?x = "xor_bytes_with ip (be_bytes32 stunMagicCookie @ txnID)"
  have l: "length ?x = length ip" using assms by auto
  define q where "q = port XOR ucast (drop_bit 16 stunMagicCookie)"
  have port: "q XOR ucast (drop_bit 16 stunMagicCookie) = port" by (simp add: q_def xor.assoc)
  obtain a b where ab: "be_bytes16 q = [a, b]" by (simp add: be_bytes16_def)
  then have q: "be_word16 [a, b] = q" by (metis be_word16_bytes)
  have "xor_bytes_with ?x (be_bytes32 stunMagicCookie @ txnID) = ip" by (rule xor_xor) (use assms in auto)
  moreover have "xor_bytes_with ?x (be_bytes32 stunMagicCookie) = ip" if "length ip = 4"
    using take_xor [of ip "be_bytes32 stunMagicCookie" txnID] xor_xor [of ip "be_bytes32 stunMagicCookie"] that by simp
  ultimately show ?thesis
    unfolding q_def [symmetric] using assms l by (auto simp: parseXORMappedAddress_def ab q port Let_def)
qed

text \<open>
  C29. The client learns the address the server saw: the response to a request with its
  transaction identifier that carries a masked IPv4 or IPv6 address and port, followed by any
  other attributes, is parsed to exactly that address and port.
\<close>

theorem stun_response_roundtrip:
  assumes "length ip = 4 \<or> length ip = 16" "length rnd = 12" "length others < 60000"
    and "txnID = take 12 (drop 8 (buildBindingRequest rnd))"
  shows "parseBindingResponse (stun_response txnID (xor_mapped_attr txnID ip port @ others)) txnID = Some (Inr (Inr (ip, int (unat port))))"
proof -
  have t: "txnID = rnd" using assms(2,4) by (simp add: buildBindingRequest_def be_bytes16_def be_bytes32_def)
  let ?attrs = "xor_mapped_attr rnd ip port @ others" and ?v = "word_of_nat (4 + length ip) :: 16 word"
  let ?val = "[0, if length ip = 4 then 1 else 2] @ be_bytes16 (port XOR ucast (drop_bit 16 stunMagicCookie))
     @ xor_bytes_with ip (be_bytes32 stunMagicCookie @ rnd)"
  have x: "length (xor_bytes_with ip (be_bytes32 stunMagicCookie @ rnd)) = length ip" using assms(1,2) by auto
  have l: "length (xor_mapped_attr rnd ip port) = 8 + length ip" using x by (simp add: xor_mapped_attr_def)
  have v: "unat ?v = 4 + length ip" using assms(1) by (intro unat16) auto
  have parts: "take 2 ?attrs = be_bytes16 stunAttrXORMappedAddress" "take 2 (drop 2 ?attrs) = be_bytes16 ?v"
    "take (4 + length ip) (drop 4 ?attrs) = ?val"
    using x by (simp_all add: xor_mapped_attr_def be_bytes16_def numeral_eq_Suc)
  have prems: "4 \<le> length ?attrs" "4 + length ip + 4 \<le> length ?attrs" "length ?attrs \<le> 65535"
    using l assms(1,3) by auto
  have "stun_attrs rnd None ?attrs = Some (Inr (Inr (ip, int (unat port))))"
    unfolding stun_attrs_step [of ?attrs ?v rnd None, unfolded parts be_word16_bytes v, OF prems refl]
    using parse_xor_attr [OF assms(1,2), of port] by (simp add: stun_attr_def del: append.simps)
  then show ?thesis unfolding t using parse_response [OF assms(2), of ?attrs] prems(3) by simp
qed

theorem stun_response_roundtrip_witness:
  "parseBindingResponse (stun_response (replicate 12 5) (xor_mapped_attr (replicate 12 5) [203, 0, 113, 9] 51820 @ [1, 2])) (replicate 12 5)
   = Some (Inr (Inr ([203, 0, 113, 9], 51820)))"
  using stun_response_roundtrip [of "[203, 0, 113, 9]" "replicate 12 5" "[1, 2]" "replicate 12 5" 51820]
  by (simp add: buildBindingRequest_def be_bytes16_def be_bytes32_def)

text \<open>
  Progress: when the attributes are shorter than 65529 bytes an accepted attribute always
  consumes at least its header.
\<close>

lemma stun_progress:
  assumes "unat (4 + v) \<le> n" "4 \<le> unat (4 + v)" "n < 65529"
  shows "4 \<le> unat (4 + stun_pad v)"
proof -
  have "unat v < 65536" using unsigned_less [of v] by simp
  then have v: "unat v < 65525" using assms by (auto simp: unat_add4 split: if_splits)
  then have "unat (stun_pad v) < 65532" by (subst stun_pad_unat) presburger+
  then show ?thesis by (simp add: unat_add4)
qed

lemma stun_attrs_returns: "length attrs < 65529 \<Longrightarrow> \<exists>r. stun_attrs txnID mapped attrs = Some r"
proof (induction "length attrs" arbitrary: attrs mapped rule: less_induct)
  case less
  let ?v = "be_word16 (take 2 (drop 2 attrs))"
  show ?case
  proof (cases "length attrs < 4 \<or> unat (4 + ?v) > length attrs \<or> unat (4 + ?v) < 4")
    case True
    then show ?thesis by (subst stun_attrs.simps) (auto simp: Let_def go_slice_def)
  next
    case False
    then have p: "4 \<le> unat (4 + stun_pad ?v)" using stun_progress [of ?v "length attrs"] less.prems by simp
    have rest: "length r < length attrs" if "go_slice attrs (unat (4 + stun_pad ?v)) (length attrs) = Inr r" for r
      using that p False by (auto simp: go_slice_def split: if_splits)
    show ?thesis
      using less.hyps less.prems rest False
      by (subst stun_attrs.simps) (auto simp: Let_def split: sum.splits; meson less_trans)
  qed
qed

text \<open>
  An attribute with an unknown type that declares 65529 to 65531 bytes and is that long: its padded
  length wraps to zero and nothing is consumed.
\<close>

lemma stun_attrs_stuck:
  assumes "be_word16 (take 2 attrs) = 0" "be_word16 (take 2 (drop 2 attrs)) = 65529" "65533 \<le> length attrs"
  shows "stun_attrs txnID mapped attrs = None"
proof -
  let ?stuck = "\<lambda>attrs. be_word16 (take 2 attrs) = 0 \<and> be_word16 (take 2 (drop 2 attrs)) = 65529 \<and> 65533 \<le> length attrs"
  have "\<not> ?stuck attrs" if r: "stun_attrs txnID mapped attrs = Some r" for r
  proof (rule stun_attrs.raw_induct [where P = "\<lambda>_ _ attrs _. \<not> ?stuck attrs", OF _ r])
    fix f txnID mapped attrs r
    assume IH: "\<And>txnID mapped attrs r. f txnID mapped attrs = Some r \<Longrightarrow> \<not> ?stuck attrs"
      and body: "(if length attrs < 4 then Some (stun_mapped mapped)
        else let attrType = be_word16 (take 2 attrs); valLen = be_word16 (take 2 (drop 2 attrs)) in
          if unat (4 + valLen) > length attrs then Some (stun_mapped mapped)
          else case go_slice attrs 4 (unat (4 + valLen)) of Inl p \<Rightarrow> Some (Inl p)
            | Inr val \<Rightarrow> (case stun_attr attrType val txnID mapped of Inl a \<Rightarrow> Some (Inr (Inr a))
               | Inr mapped' \<Rightarrow> (case go_slice attrs (unat (4 + stun_pad valLen)) (length attrs) of
                   Inl p \<Rightarrow> Some (Inl p) | Inr rest \<Rightarrow> f txnID mapped' rest))) = Some r"
    show "\<not> ?stuck attrs"
    proof
      assume s: "?stuck attrs"
      have "(4 + stun_pad 65529 :: 16 word) = 0" "(4 + 65529 :: 16 word) = 65533" by (simp_all add: stun_pad_def)
      moreover have "go_slice attrs 4 65533 = Inr (take 65529 (drop 4 attrs))" "go_slice attrs 0 (length attrs) = Inr attrs"
        using s by (simp_all add: go_slice_def)
      ultimately have "f txnID mapped attrs = Some r"
        using body s by (simp add: Let_def stun_attr_def stunAttrXORMappedAddress_def stunAttrMappedAddress_def)
      with IH s show False by blast
    qed
  qed
  with assms have "stun_attrs txnID mapped attrs \<noteq> Some r" for r by blast
  then show ?thesis by (cases "stun_attrs txnID mapped attrs") auto
qed

text \<open>
  C30. The parser ends on everything a query hands to it: a query reads at most 512 bytes, and
  on every message below 65529 bytes the loop over the attributes returns. Without that bound it
  need not: there is a longer message on which the 16-bit length wraps to zero for ever.
\<close>

theorem stun_parse_terminates:
  "(length data < 65529 \<longrightarrow> (\<exists>r. parseBindingResponse data txnID = Some r))
   \<and> (\<exists>r. stunQueryConn resolve exchange server rnd = Some r)
   \<and> parseBindingResponse (stun_response (replicate 12 0) (be_bytes16 0 @ be_bytes16 65529 @ replicate 65529 0)) (replicate 12 0) = None"
proof -
  have ret: "\<exists>r. parseBindingResponse d t = Some r" if "length d < 65529" for d t
    using stun_attrs_returns [of "take n (drop stunHeaderSize d)" t None for n] that
    by (simp add: parseBindingResponse_def Let_def)
  have "\<exists>r. stunQueryConn resolve exchange server rnd = Some r"
    using ret [of "take 512 reply" rnd for reply] by (auto simp: stunQueryConn_def split: option.splits prod.splits)
  moreover have "stun_attrs (replicate 12 0) None (be_bytes16 0 @ be_bytes16 65529 @ replicate 65529 0) = None"
    by (rule stun_attrs_stuck) (simp_all del: replicate.simps)
  then have "parseBindingResponse (stun_response (replicate 12 0) (be_bytes16 0 @ be_bytes16 65529 @ replicate 65529 0)) (replicate 12 0) = None"
    by (subst parse_response) simp_all
  ultimately show ?thesis using ret by blast
qed

theorem stun_parse_terminates_witness: "\<exists>r. parseBindingResponse (replicate 300 1) (replicate 12 0) = Some r"
  using stun_parse_terminates [of "replicate 300 1" "replicate 12 0"] by simp



end
