(* ===== verification/Endpoints.thy ===== *)
theory Endpoints
  imports Config PeerStore
begin

text \<open>
  The endpoint arithmetic that the discovery layers share (pkg/discovery/exchange.go, dht.go and
  lan.go): the classification of addresses, which endpoint of a peer is recorded, the candidates
  of a hole punch, the control endpoint, and the seed of a pair of peers from which both of them
  compute the same identifier and the same time slots.
\<close>

section \<open>Classes of addresses\<close>

text \<open>The methods of net.IP of the same names.\<close>

definition IsUnspecified :: "byte list \<Rightarrow> bool" where
  "IsUnspecified ip \<longleftrightarrow> ip_equal ip (v4_in_v6 [0, 0, 0, 0]) \<or> ip_equal ip (replicate 16 0)"

definition IsLoopback :: "byte list \<Rightarrow> bool" where
  "IsLoopback ip = (case to4 ip of Some q \<Rightarrow> q ! 0 = 127 | None \<Rightarrow> ip_equal ip (replicate 15 0 @ [1]))"

definition IsPrivate :: "byte list \<Rightarrow> bool" where
  "IsPrivate ip = (case to4 ip of
       Some q \<Rightarrow> q ! 0 = 10 \<or> (q ! 0 = 172 \<and> q ! 1 AND 0xf0 = 16) \<or> (q ! 0 = 192 \<and> q ! 1 = 168)
     | None \<Rightarrow> length ip = 16 \<and> ip ! 0 AND 0xfe = 0xfc)"

definition IsMulticast :: "byte list \<Rightarrow> bool" where
  "IsMulticast ip = (case to4 ip of Some q \<Rightarrow> q ! 0 AND 0xf0 = 0xe0 | None \<Rightarrow> length ip = 16 \<and> ip ! 0 = 0xff)"

definition IsLinkLocalUnicast :: "byte list \<Rightarrow> bool" where
  "IsLinkLocalUnicast ip = (case to4 ip of
       Some q \<Rightarrow> q ! 0 = 169 \<and> q ! 1 = 254
     | None \<Rightarrow> length ip = 16 \<and> ip ! 0 = 0xfe \<and> ip ! 1 AND 0xc0 = 0x80)"

definition IsLinkLocalMulticast :: "byte list \<Rightarrow> bool" where
  "IsLinkLocalMulticast ip = (case to4 ip of
       Some q \<Rightarrow> q ! 0 = 224 \<and> q ! 1 = 0 \<and> q ! 2 = 0
     | None \<Rightarrow> length ip = 16 \<and> ip ! 0 = 0xff \<and> ip ! 1 AND 0x0f = 0x02)"

definition IsGlobalUnicast :: "byte list \<Rightarrow> bool" where
  "IsGlobalUnicast ip \<longleftrightarrow> (length ip = 4 \<or> length ip = 16) \<and> \<not> ip_equal ip (v4_in_v6 [255, 255, 255, 255])
     \<and> \<not> IsUnspecified ip \<and> \<not> IsLoopback ip \<and> \<not> IsMulticast ip \<and> \<not> IsLinkLocalUnicast ip"

text \<open>An address of a datagram (net.UDPAddr); an absent address is the empty list.\<close>

record UDPAddr =
  ua_IP :: "byte list"
  ua_Port :: int
  ua_Zone :: string

definition udp_string :: "UDPAddr \<Rightarrow> string" where
  "udp_string a = (let ip = (if ua_IP a = [] then [] else ip_string (ua_IP a)) in
     join_host_port (if ua_Zone a = [] then ip else ip @ ''%'' @ ua_Zone a) (itoa (ua_Port a)))"

section \<open>Endpoints of peers\<close>

definition exchange_isIPv6Endpoint :: "string \<Rightarrow> bool" where
  "exchange_isIPv6Endpoint endpoint =
     (case split_host_port endpoint of
        None \<Rightarrow> False
      | Some (host, _) \<Rightarrow> (case parse_ip host of None \<Rightarrow> False | Some ip \<Rightarrow> to4 ip = None))"

abbreviation unset_host :: "string \<Rightarrow> bool" where
  "unset_host host \<equiv> host = [] \<or> host = ''0.0.0.0'' \<or> host = ''::''"

definition resolvePeerEndpoint :: "string \<Rightarrow> UDPAddr option \<Rightarrow> string" where
  "resolvePeerEndpoint advertised sender =
     (let sender_ip = (case sender of None \<Rightarrow> [] | Some a \<Rightarrow> ua_IP a);
          fallback = (if sender_ip \<noteq> [] then join_host_port (ip_string sender_ip) (itoa DefaultWGPort) else [])
      in case split_host_port advertised of
           None \<Rightarrow> fallback
         | Some (host, port) \<Rightarrow>
             (let resolvedHost = (if unset_host host \<and> sender_ip \<noteq> [] then ip_string sender_ip else host)
              in if resolvedHost \<noteq> [] then join_host_port resolvedHost port else fallback))"

definition normalizeKnownPeerEndpoint :: "string \<Rightarrow> string" where
  "normalizeKnownPeerEndpoint endpoint =
     (if endpoint = [] then []
      else case split_host_port endpoint of
        None \<Rightarrow> []
      | Some (host, _) \<Rightarrow> if unset_host host then [] else endpoint)"

definition filterEndpointForConfig :: "string \<Rightarrow> bool \<Rightarrow> string" where
  "filterEndpointForConfig endpoint disableIPv6 =
     (if endpoint = [] then []
      else if disableIPv6 \<and> exchange_isIPv6Endpoint endpoint then [] else endpoint)"

definition controlEndpointFromPeerEndpoint :: "string \<Rightarrow> int \<Rightarrow> string" where
  "controlEndpointFromPeerEndpoint endpoint controlPort =
     (if endpoint = [] \<or> controlPort \<le> 0 then []
      else case split_host_port endpoint of
        None \<Rightarrow> []
      | Some (host, _) \<Rightarrow> if unset_host host then [] else join_host_port host (itoa controlPort))"

definition toControlEndpoint :: "string \<Rightarrow> int \<Rightarrow> string" where
  "toControlEndpoint endpoint controlPort =
     (if controlPort \<le> 0 then []
      else case split_host_port endpoint of
        None \<Rightarrow> []
      | Some (host, _) \<Rightarrow> if unset_host host then [] else join_host_port host (itoa controlPort))"

definition isLikelyPublicEndpoint :: "string \<Rightarrow> bool" where
  "isLikelyPublicEndpoint endpoint =
     (case split_host_port endpoint of
        None \<Rightarrow> False
      | Some (host, _) \<Rightarrow>
          (case parse_ip host of
             None \<Rightarrow> True
           | Some ip \<Rightarrow>
               if IsLoopback ip \<or> IsLinkLocalUnicast ip \<or> IsLinkLocalMulticast ip \<or> IsPrivate ip \<or> IsUnspecified ip
               then False else IsGlobalUnicast ip))"

text \<open>The endpoint of a peer on the local network (lan.go).\<close>

definition resolveEndpoint :: "string \<Rightarrow> UDPAddr option \<Rightarrow> string" where
  "resolveEndpoint advertised sender =
     (let sender_ip = (case sender of None \<Rightarrow> [] | Some a \<Rightarrow> ua_IP a) in
      if sender_ip \<noteq> [] then
        (case split_host_port advertised of
           Some (_, port) \<Rightarrow> if port \<noteq> [] then join_host_port (ip_string sender_ip) port
                             else join_host_port (ip_string sender_ip) (itoa DefaultWGPort)
         | None \<Rightarrow> join_host_port (ip_string sender_ip) (itoa DefaultWGPort))
      else case split_host_port advertised of Some _ \<Rightarrow> advertised | None \<Rightarrow> [])"

section \<open>Public IPv6 addresses\<close>

definition scoreIPv6 :: "byte list \<Rightarrow> int" where
  "scoreIPv6 ip =
     (if length ip \<noteq> 16 then 0
      else 10 + (if ip ! 0 AND 0xe0 = 0x20 then 20 else 0) - (if ip ! 11 = 0xff \<and> ip ! 12 = 0xfe then 5 else 0))"

text \<open>The prefixes with their lengths, parsed from the same texts.\<close>

definition specialPrefixes :: "(byte list option \<times> nat) list" where
  "specialPrefixes = [(parse_ip ''200::'', 7), (parse_ip ''2001:db8::'', 32), (parse_ip ''fc00::'', 7),
     (parse_ip ''fd00::'', 8), (parse_ip ''fe80::'', 10), (parse_ip ''ff00::'', 8), (parse_ip ''::1'', 128)]"

definition isPublicIPv6 :: "byte list \<Rightarrow> bool" where
  "isPublicIPv6 ip \<longleftrightarrow> length ip = 16 \<and> to4 ip = None \<and> \<not> IsUnspecified ip
     \<and> list_all (\<lambda>(prefix, bits). case prefix of None \<Rightarrow> True
          | Some p \<Rightarrow> \<not> ip_equal (ip_mask ip (cidr_mask bits 16)) (ip_mask p (cidr_mask bits 16))) specialPrefixes"

section \<open>Candidates\<close>

text \<open>Appending to a list what its set of seen elements does not have.\<close>

definition append_new :: "'a \<Rightarrow> 'a list \<Rightarrow> 'a list" where
  "append_new c out = (if c \<in> set out then out else out @ [c])"

definition normalizeCandidates :: "string list \<Rightarrow> string list" where
  "normalizeCandidates candidates = fold (\<lambda>c out.
     let norm = normalizeKnownPeerEndpoint c in if norm = [] then out else append_new norm out) candidates []"

definition filterCandidatesForConfig :: "string list \<Rightarrow> bool \<Rightarrow> string list" where
  "filterCandidatesForConfig candidates disableIPv6 = fold (\<lambda>c out.
     let filtered = filterEndpointForConfig c disableIPv6 in if filtered = [] then out else append_new filtered out)
     candidates []"

text \<open>The ports around a port, in the order in which they are tried.\<close>

definition spread_ports :: "int \<Rightarrow> int \<Rightarrow> int list" where
  "spread_ports port spread = port # concat (map (\<lambda>delta.
     (if port - delta > 0 then [port - delta] else []) @ (if port + delta \<le> 65535 then [port + delta] else []))
     [1..spread])"

definition expandCandidatePorts :: "string list \<Rightarrow> int \<Rightarrow> string list" where
  "expandCandidatePorts candidates spread =
     (if candidates = [] \<or> spread \<le> 0 then candidates
      else fold (\<lambda>candidate out.
        case split_host_port candidate of
          None \<Rightarrow> out
        | Some (host, portStr) \<Rightarrow>
            (case atoi portStr of
               None \<Rightarrow> out
             | Some port \<Rightarrow> fold (\<lambda>p. append_new (join_host_port host (itoa p))) (spread_ports port spread) out))
        candidates [])"

section \<open>Pairs of peers\<close>

definition pairSeed :: "string \<Rightarrow> string \<Rightarrow> 64 word" where
  "pairSeed a b = (let (a, b) = (if a > b then (b, a) else (a, b)) in
     fnv64a (bytes_of a @ [0] @ bytes_of b))"

text \<open>The format %016x.\<close>

definition pairIDForPeers :: "string \<Rightarrow> string \<Rightarrow> string" where
  "pairIDForPeers a b = (let h = hex_nat (unat (pairSeed a b)) in replicate (16 - length h) CHR ''0'' @ h)"

section \<open>Lemmas\<close>

lemma append_new_set [simp]: "set (append_new c out) = insert c (set out)"
  by (auto simp: append_new_def)

lemma append_new_distinct [simp]: "distinct (append_new c out) = distinct out"
  by (simp add: append_new_def)

lemma append_new_length: "length (append_new c out) \<le> Suc (length out)"
  by (simp add: append_new_def)

lemma fold_invariant:
  "P out \<Longrightarrow> (\<And>c out. c \<in> set cs \<Longrightarrow> P out \<Longrightarrow> P (f c out)) \<Longrightarrow> P (fold f cs out)"
  by (induction cs arbitrary: out) auto

lemma normal_endpoint:
  "normalizeKnownPeerEndpoint c = [] \<or> normalizeKnownPeerEndpoint c = c"
  "normalizeKnownPeerEndpoint (normalizeKnownPeerEndpoint c) = normalizeKnownPeerEndpoint c"
  by (auto simp: normalizeKnownPeerEndpoint_def split: option.splits)

lemma filter_endpoint:
  "filterEndpointForConfig c d = [] \<or> filterEndpointForConfig c d = c"
  "filterEndpointForConfig c False = c"
  by (auto simp: filterEndpointForConfig_def)

lemma normalize_fold:
  "distinct out \<Longrightarrow> (\<forall>x \<in> set out. x \<noteq> [] \<and> normalizeKnownPeerEndpoint x = x) \<Longrightarrow>
   distinct (fold (\<lambda>c out. let norm = normalizeKnownPeerEndpoint c in if norm = [] then out else append_new norm out) cs out)
   \<and> set (fold (\<lambda>c out. let norm = normalizeKnownPeerEndpoint c in if norm = [] then out else append_new norm out) cs out)
     = set out \<union> {c \<in> set cs. c \<noteq> [] \<and> normalizeKnownPeerEndpoint c = c}"
proof (induction cs arbitrary: out)
  case (Cons c cs)
  then show ?case
    using normal_endpoint [of c] by (auto simp: Let_def)
qed simp

lemma normalizeCandidates_set:
  "set (normalizeCandidates cs) = {c \<in> set cs. c \<noteq> [] \<and> normalizeKnownPeerEndpoint c = c}"
  "distinct (normalizeCandidates cs)"
  using normalize_fold [of "[]" cs] by (auto simp: normalizeCandidates_def)

lemma filter_fold:
  "distinct out \<Longrightarrow>
   distinct (fold (\<lambda>c out. let x = filterEndpointForConfig c d in if x = [] then out else append_new x out) cs out)
   \<and> set (fold (\<lambda>c out. let x = filterEndpointForConfig c d in if x = [] then out else append_new x out) cs out)
     = set out \<union> {c \<in> set cs. c \<noteq> [] \<and> \<not> (d \<and> exchange_isIPv6Endpoint c)}"
proof (induction cs arbitrary: out)
  case (Cons c cs)
  then show ?case by (auto simp: Let_def filterEndpointForConfig_def)
qed simp

lemma filterCandidates_set:
  "set (filterCandidatesForConfig cs d) = {c \<in> set cs. c \<noteq> [] \<and> \<not> (d \<and> exchange_isIPv6Endpoint c)}"
  "distinct (filterCandidatesForConfig cs d)"
  using filter_fold [of "[]" d cs] by (auto simp: filterCandidatesForConfig_def)

lemma fold_append_new_set: "set (fold (\<lambda>p. append_new (g p)) ps out) = set out \<union> g ` set ps"
  by (induction ps arbitrary: out) auto

lemma fold_append_new_distinct: "distinct out \<Longrightarrow> distinct (fold (\<lambda>p. append_new (g p)) ps out)"
  by (induction ps arbitrary: out) auto

lemma spread_ports_set: "set (spread_ports port spread) =
    insert port {p. \<bar>p - port\<bar> \<le> spread \<and> p \<noteq> port \<and> (p < port \<longrightarrow> 0 < p) \<and> (p > port \<longrightarrow> p \<le> 65535)}" (is "_ = ?R")
proof -
  have "p \<in> set (spread_ports port spread) \<longleftrightarrow> p \<in> ?R" for p
  proof
    assume "p \<in> ?R"
    then consider "p = port" | "p < port" "0 < p" "port - p \<le> spread" | "p > port" "p \<le> 65535" "p - port \<le> spread"
      by (cases p port rule: linorder_cases) auto
    then show "p \<in> set (spread_ports port spread)"
    proof cases
      case 2
      then show ?thesis by (auto simp: spread_ports_def intro!: bexI [of _ "port - p"])
    next
      case 3
      then show ?thesis by (auto simp: spread_ports_def intro!: bexI [of _ "p - port"])
    qed (simp add: spread_ports_def)
  qed (auto simp: spread_ports_def split: if_splits)
  then show ?thesis by blast
qed

text \<open>The candidates with their neighbours: exactly the ports within the spread.\<close>

definition near_candidates :: "int \<Rightarrow> string \<Rightarrow> string set" where
  "near_candidates spread c =
     (case split_host_port c of None \<Rightarrow> {}
      | Some (host, portStr) \<Rightarrow> (case atoi portStr of None \<Rightarrow> {}
          | Some port \<Rightarrow> (\<lambda>p. join_host_port host (itoa p)) ` set (spread_ports port spread)))"

lemma expand_fold:
  "distinct out \<Longrightarrow>
   distinct (fold (\<lambda>c out. case split_host_port c of None \<Rightarrow> out
        | Some (host, portStr) \<Rightarrow> (case atoi portStr of None \<Rightarrow> out
             | Some port \<Rightarrow> fold (\<lambda>p. append_new (join_host_port host (itoa p))) (spread_ports port spread) out)) cs out)
   \<and> set (fold (\<lambda>c out. case split_host_port c of None \<Rightarrow> out
        | Some (host, portStr) \<Rightarrow> (case atoi portStr of None \<Rightarrow> out
             | Some port \<Rightarrow> fold (\<lambda>p. append_new (join_host_port host (itoa p))) (spread_ports port spread) out)) cs out)
     = set out \<union> (\<Union>c \<in> set cs. near_candidates spread c)"
proof (induction cs arbitrary: out)
  case (Cons c cs)
  then show ?case
    by (cases "split_host_port c"; cases "atoi (snd (the (split_host_port c)))")
      (auto simp: near_candidates_def fold_append_new_set fold_append_new_distinct)
qed simp

lemma expandCandidatePorts_set:
  assumes "0 < spread"
  shows "set (expandCandidatePorts cs spread) = (\<Union>c \<in> set cs. near_candidates spread c)"
    and "distinct (expandCandidatePorts cs spread)"
  using assms expand_fold [of "[]" spread cs] by (auto simp: expandCandidatePorts_def)

lemma pairSeed_sym: "pairSeed a b = pairSeed b a"
  by (auto simp: pairSeed_def)

lemma pairID_sym: "pairIDForPeers a b = pairIDForPeers b a"
  by (simp add: pairIDForPeers_def pairSeed_sym)

lemma hex_nat_length: "0 < k \<Longrightarrow> n < 16 ^ k \<Longrightarrow> length (hex_nat n) \<le> k"
proof (induction k arbitrary: n)
  case (Suc k)
  show ?case
  proof (cases "n < 16")
    case False
    then have "0 < k" using Suc.prems by (cases k) auto
    moreover have "n div 16 < 16 ^ k" using Suc.prems by (simp add: less_mult_imp_div_less mult.commute)
    ultimately show ?thesis using Suc.IH False by (simp add: hex_nat.simps [of n])
  qed (simp add: hex_nat.simps)
qed simp

lemma pairID_length: "length (pairIDForPeers a b) = 16"
proof -
  have "unat (pairSeed a b) < 16 ^ 16" using unsigned_less [of "pairSeed a b", where ?'a = nat] by simp
  then show ?thesis using hex_nat_length [of 16] by (simp add: pairIDForPeers_def Let_def)
qed

lemma control_endpoints_agree: "toControlEndpoint e p = controlEndpointFromPeerEndpoint e p"
proof -
  have "split_host_port [] = None" by (simp add: split_host_port_def)
  then show ?thesis by (auto simp: toControlEndpoint_def controlEndpointFromPeerEndpoint_def)
qed

lemmas ipv6_groups_numeral = ipv6_groups.simps(2) [of "pred_numeral k" for k, folded numeral_eq_Suc]

lemmas ipv6_eval = parse_ip_def parse_addr_def parse_ipv6_def is_hex_def hex_value_def hex_val_def is_digit_def
  ipv6_groups_numeral

lemma parsed_prefixes:
  "parse_ip ''200::'' = Some (0x02 # replicate 15 0)" "parse_ip ''fc00::'' = Some (0xfc # replicate 15 0)"
  "parse_ip ''fd00::'' = Some (0xfd # replicate 15 0)" "parse_ip ''fe80::'' = Some ([0xfe, 0x80] @ replicate 14 0)"
  "parse_ip ''ff00::'' = Some (0xff # replicate 15 0)" "parse_ip ''::1'' = Some (replicate 15 0 @ [1])"
  by (simp add: ipv6_eval, simp add: numeral_eq_Suc)+

lemma specialPrefixes_eval: "specialPrefixes =
   [(Some (0x02 # replicate 15 0), 7), (Some ([0x20, 0x01, 0x0d, 0xb8] @ replicate 12 0), 32),
    (Some (0xfc # replicate 15 0), 7), (Some (0xfd # replicate 15 0), 8), (Some ([0xfe, 0x80] @ replicate 14 0), 10),
    (Some (0xff # replicate 15 0), 8), (Some (replicate 15 0 @ [1]), 128)]"
proof -
  have "parse_ip ''2001:db8::'' = Some ([0x20, 0x01, 0x0d, 0xb8] @ replicate 12 0)" by (simp add: ipv6_eval)
  then show ?thesis unfolding specialPrefixes_def parsed_prefixes by (simp only:)
qed

lemma cidr_masks:
  "cidr_mask 7 16 = 0xfe # replicate 15 0" "cidr_mask 8 16 = 0xff # replicate 15 0"
  "cidr_mask 10 16 = [0xff, 0xc0] @ replicate 14 0" "cidr_mask 32 16 = replicate 4 0xff @ replicate 12 0"
  "cidr_mask 128 16 = replicate 16 0xff"
  by code_simp+

lemma and_ones_byte: "(b :: byte) AND 0xff = b"
proof -
  have "(0xff :: byte) = - 1" by simp
  then show ?thesis by (simp only: and.right_neutral)
qed

lemma length_16: "length xs = 16 \<longleftrightarrow>
   (\<exists>a b c d e f g h i j k l m n p q. xs = [a, b, c, d, e, f, g, h, i, j, k, l, m, n, p, q])"
  by (auto simp: numeral_eq_Suc length_Suc_conv)

section \<open>Properties\<close>

text \<open>
  C34. Which addresses are advertised as public IPv6 endpoints: the loop over the parsed special
  prefixes and their masks decides the same as tests on the bytes. An address is public if and
  only if it has 16 bytes, is not an IPv4 address in disguise, not the unspecified and not the
  loopback address, not in 200::/7, not a documentation address, not a unique local address,
  not link-local and not multicast.
\<close>

theorem public_ipv6_bytes:
  "isPublicIPv6 ip \<longleftrightarrow> length ip = 16 \<and> to4 ip = None \<and> ip \<noteq> replicate 16 0 \<and> ip \<noteq> replicate 15 0 @ [1]
     \<and> ip ! 0 AND 0xfe \<noteq> 0x02 \<and> take 4 ip \<noteq> [0x20, 0x01, 0x0d, 0xb8] \<and> ip ! 0 AND 0xfe \<noteq> 0xfc
     \<and> \<not> (ip ! 0 = 0xfe \<and> ip ! 1 AND 0xc0 = 0x80) \<and> ip ! 0 \<noteq> 0xff"
proof (cases "length ip = 16")
  case True
  then obtain a b c d e f g h i j k l m n p q where ip: "ip = [a, b, c, d, e, f, g, h, i, j, k, l, m, n, p, q]"
    unfolding length_16 by blast
  have prefixes:
    "ip_mask ip (cidr_mask 7 16) = ip_mask (0x02 # replicate 15 0) (cidr_mask 7 16) \<longleftrightarrow> a AND 0xfe = 0x02"
    "ip_mask ip (cidr_mask 7 16) = ip_mask (0xfc # replicate 15 0) (cidr_mask 7 16) \<longleftrightarrow> a AND 0xfe = 0xfc"
    "ip_mask ip (cidr_mask 8 16) = ip_mask (0xfd # replicate 15 0) (cidr_mask 8 16) \<longleftrightarrow> a = 0xfd"
    "ip_mask ip (cidr_mask 8 16) = ip_mask (0xff # replicate 15 0) (cidr_mask 8 16) \<longleftrightarrow> a = 0xff"
    "ip_mask ip (cidr_mask 10 16) = ip_mask ([0xfe, 0x80] @ replicate 14 0) (cidr_mask 10 16)
       \<longleftrightarrow> a = 0xfe \<and> b AND 0xc0 = 0x80"
    "ip_mask ip (cidr_mask 32 16) = ip_mask ([0x20, 0x01, 0x0d, 0xb8] @ replicate 12 0) (cidr_mask 32 16)
       \<longleftrightarrow> take 4 ip = [0x20, 0x01, 0x0d, 0xb8]"
    "ip_mask ip (cidr_mask 128 16) = ip_mask (replicate 15 0 @ [1]) (cidr_mask 128 16) \<longleftrightarrow> ip = replicate 15 0 @ [1]"
    unfolding cidr_masks ip_mask_def by (simp_all add: ip and_ones_byte numeral_eq_Suc)
  have len: "length (ip_mask x (cidr_mask t 16)) = 16" if "length x = 16" for x t
    using that by (simp add: ip_mask_def cidr_mask_def)
  have v4: "ip \<noteq> v4_in_v6 [0, 0, 0, 0]" if "to4 ip = None"
    using that to4_v4_in_v6 [of "[0, 0, 0, 0]"] by auto
  have fd: "a \<noteq> 0xfd" if "a AND 0xfe \<noteq> 0xfc" using that by auto
  have "length (v4_in_v6 [0, 0, 0, 0]) = 16" by (simp add: v4_in_v6_def)
  then have "isPublicIPv6 ip \<longleftrightarrow> to4 ip = None \<and> ip \<noteq> v4_in_v6 [0, 0, 0, 0] \<and> ip \<noteq> replicate 16 0 \<and>
      a AND 0xfe \<noteq> 0x02 \<and> take 4 ip \<noteq> [0x20, 0x01, 0x0d, 0xb8] \<and> a AND 0xfe \<noteq> 0xfc \<and> a \<noteq> 0xfd
      \<and> \<not> (a = 0xfe \<and> b AND 0xc0 = 0x80) \<and> a \<noteq> 0xff \<and> ip \<noteq> replicate 15 0 @ [1]"
    unfolding isPublicIPv6_def specialPrefixes_eval IsUnspecified_def ip_equal_def
    using True by (simp only: len prefixes length_append length_replicate length_Cons list.size(3) list.pred_inject
        prod.case option.case) (simp add: prefixes)
  moreover have "ip ! 0 = a" "ip ! 1 = b" by (simp_all add: ip)
  ultimately show ?thesis using True v4 fd by metis
qed (simp add: isPublicIPv6_def)

end
