(* ===== verification/Exchange.thy ===== *)
theory Exchange
  imports Endpoints Envelope RateLimit
begin

text \<open>
  The peer exchange (pkg/discovery/exchange.go): the encrypted HELLO and REPLY messages by which
  two nodes learn of each other, the reflection of public addresses, the announcements, goodbyes
  and the introduction of two peers that punch their NATs at the same time.

  The clock, the random nonces, name resolution, the outcome of writing to the socket and the
  order of range statements are arguments (\<open>xenv\<close>). An operation reads the clock once. Datagrams
  that are sent and punch jobs that are started are returned as effects. Log output is left out.
\<close>

section \<open>Constants and messages\<close>

definition ExchangeTimeout :: duration where "ExchangeTimeout = 4 * Second"
definition PunchInterval :: duration where "PunchInterval = 100 * Millisecond"
definition RendezvousSessionTTL :: duration where "RendezvousSessionTTL = 20 * Second"
definition RendezvousStartLeadTime :: duration where "RendezvousStartLeadTime = 1800 * Millisecond"
definition RendezvousPunchCooldown :: duration where "RendezvousPunchCooldown = 6 * Second"
definition RendezvousStartCooldown :: duration where "RendezvousStartCooldown = 8 * Second"
definition RendezvousPortSpread :: int where "RendezvousPortSpread = 2"
definition HandshakeWaitTimeout :: duration where "HandshakeWaitTimeout = 10 * Second"
definition HandshakePollInterval :: duration where "HandshakePollInterval = 250 * Millisecond"
definition ExchangeLogCooldown :: duration where "ExchangeLogCooldown = 30 * Second"
definition DHTMethod :: string where "DHTMethod = ''dht''"

record rendezvousOffer =
  of_Protocol :: string
  of_Timestamp :: int
  of_FromPubKey :: string
  of_TargetPubKey :: string
  of_PairID :: string
  of_Candidates :: "string list"
  of_ObservedAddr :: string
  of_IntroducerKey :: string

record rendezvousStart =
  st_Protocol :: string
  st_Timestamp :: int
  st_PairID :: string
  st_PeerPubKey :: string
  st_PeerCandidates :: "string list"
  st_StartAtUnixMs :: int
  st_IntroducerKey :: string

record goodbyeMessage =
  gb_Protocol :: string
  gb_Timestamp :: int
  gb_WGPubKey :: string

text \<open>The JSON of the messages, by the tags of the structs.\<close>

definition offer_json :: "rendezvousOffer \<Rightarrow> json" where
  "offer_json r = JObj
     ([(''protocol'', JStr (of_Protocol r)), (''timestamp'', JNum (itoa (of_Timestamp r))),
       (''from_pubkey'', JStr (of_FromPubKey r)), (''target_pubkey'', JStr (of_TargetPubKey r)),
       (''pair_id'', JStr (of_PairID r))]
      @ opt_arr ''candidates'' (map JStr (of_Candidates r)) @ opt_str ''observed_addr'' (of_ObservedAddr r)
      @ opt_str ''introducer_key'' (of_IntroducerKey r))"

definition start_json :: "rendezvousStart \<Rightarrow> json" where
  "start_json r = JObj
     ([(''protocol'', JStr (st_Protocol r)), (''timestamp'', JNum (itoa (st_Timestamp r))),
       (''pair_id'', JStr (st_PairID r)), (''peer_pubkey'', JStr (st_PeerPubKey r))]
      @ opt_arr ''peer_candidates'' (map JStr (st_PeerCandidates r))
      @ [(''start_at_unix_ms'', JNum (itoa (st_StartAtUnixMs r)))] @ opt_str ''introducer_key'' (st_IntroducerKey r))"

definition goodbye_json :: "goodbyeMessage \<Rightarrow> json" where
  "goodbye_json r = JObj
     [(''protocol'', JStr (gb_Protocol r)), (''timestamp'', JNum (itoa (gb_Timestamp r))),
      (''wg_pubkey'', JStr (gb_WGPubKey r))]"

definition offer_member :: "rendezvousOffer \<Rightarrow> string \<Rightarrow> json \<Rightarrow> rendezvousOffer option" where
  "offer_member r k v =
     (if key_is k ''protocol'' then map_option (\<lambda>x. r\<lparr>of_Protocol := x\<rparr>) (set_string v (of_Protocol r))
      else if key_is k ''timestamp'' then map_option (\<lambda>x. r\<lparr>of_Timestamp := x\<rparr>) (set_int v (of_Timestamp r))
      else if key_is k ''from_pubkey'' then map_option (\<lambda>x. r\<lparr>of_FromPubKey := x\<rparr>) (set_string v (of_FromPubKey r))
      else if key_is k ''target_pubkey'' then map_option (\<lambda>x. r\<lparr>of_TargetPubKey := x\<rparr>) (set_string v (of_TargetPubKey r))
      else if key_is k ''pair_id'' then map_option (\<lambda>x. r\<lparr>of_PairID := x\<rparr>) (set_string v (of_PairID r))
      else if key_is k ''candidates'' then map_option (\<lambda>x. r\<lparr>of_Candidates := x\<rparr>) (set_strings v (of_Candidates r))
      else if key_is k ''observed_addr'' then map_option (\<lambda>x. r\<lparr>of_ObservedAddr := x\<rparr>) (set_string v (of_ObservedAddr r))
      else if key_is k ''introducer_key'' then map_option (\<lambda>x. r\<lparr>of_IntroducerKey := x\<rparr>) (set_string v (of_IntroducerKey r))
      else Some r)"

definition start_member :: "rendezvousStart \<Rightarrow> string \<Rightarrow> json \<Rightarrow> rendezvousStart option" where
  "start_member r k v =
     (if key_is k ''protocol'' then map_option (\<lambda>x. r\<lparr>st_Protocol := x\<rparr>) (set_string v (st_Protocol r))
      else if key_is k ''timestamp'' then map_option (\<lambda>x. r\<lparr>st_Timestamp := x\<rparr>) (set_int v (st_Timestamp r))
      else if key_is k ''pair_id'' then map_option (\<lambda>x. r\<lparr>st_PairID := x\<rparr>) (set_string v (st_PairID r))
      else if key_is k ''peer_pubkey'' then map_option (\<lambda>x. r\<lparr>st_PeerPubKey := x\<rparr>) (set_string v (st_PeerPubKey r))
      else if key_is k ''peer_candidates'' then
        map_option (\<lambda>x. r\<lparr>st_PeerCandidates := x\<rparr>) (set_strings v (st_PeerCandidates r))
      else if key_is k ''start_at_unix_ms'' then map_option (\<lambda>x. r\<lparr>st_StartAtUnixMs := x\<rparr>) (set_int v (st_StartAtUnixMs r))
      else if key_is k ''introducer_key'' then map_option (\<lambda>x. r\<lparr>st_IntroducerKey := x\<rparr>) (set_string v (st_IntroducerKey r))
      else Some r)"

definition goodbye_member :: "goodbyeMessage \<Rightarrow> string \<Rightarrow> json \<Rightarrow> goodbyeMessage option" where
  "goodbye_member r k v =
     (if key_is k ''protocol'' then map_option (\<lambda>x. r\<lparr>gb_Protocol := x\<rparr>) (set_string v (gb_Protocol r))
      else if key_is k ''timestamp'' then map_option (\<lambda>x. r\<lparr>gb_Timestamp := x\<rparr>) (set_int v (gb_Timestamp r))
      else if key_is k ''wg_pubkey'' then map_option (\<lambda>x. r\<lparr>gb_WGPubKey := x\<rparr>) (set_string v (gb_WGPubKey r))
      else Some r)"

definition zero_offer :: rendezvousOffer where
  "zero_offer = \<lparr>of_Protocol = [], of_Timestamp = 0, of_FromPubKey = [], of_TargetPubKey = [], of_PairID = [],
     of_Candidates = [], of_ObservedAddr = [], of_IntroducerKey = []\<rparr>"

definition zero_start :: rendezvousStart where
  "zero_start = \<lparr>st_Protocol = [], st_Timestamp = 0, st_PairID = [], st_PeerPubKey = [], st_PeerCandidates = [],
     st_StartAtUnixMs = 0, st_IntroducerKey = []\<rparr>"

definition zero_goodbye :: goodbyeMessage where
  "zero_goodbye = \<lparr>gb_Protocol = [], gb_Timestamp = 0, gb_WGPubKey = []\<rparr>"

section \<open>State\<close>

record rendezvousState =
  rv_offers :: "(string, rendezvousOffer) gomap"
  rv_endpoints :: "(string, string) gomap"
  rv_createdAt :: gotime

text \<open>
  The handler of announcements is a closure over the configuration, the local node and the peer
  store, which the exchange shares with it; they are its arguments here.
\<close>

type_synonym announce_handler = "gotime \<Rightarrow> Config \<Rightarrow> LocalNode \<Rightarrow> PeerStore \<Rightarrow> PeerAnnouncement \<Rightarrow> UDPAddr option \<Rightarrow> PeerStore go"

text \<open>A reply channel has room for one peer; the channels are in a heap and named by numbers.\<close>

record PeerExchange =
  px_config :: Config
  px_localNode :: LocalNode
  px_peerStore :: PeerStore
  px_port :: int
  px_limiter :: IPRateLimiter
  px_running :: bool
  px_pendingReplies :: "(string, nat) gomap"
  px_replyChans :: "(nat, PeerInfo list) gomap"
  px_nextChan :: nat
  px_announceHandler :: "announce_handler option"
  px_rendezvousSessions :: "(string, rendezvousState) gomap"
  px_activePunches :: "(string, gotime) gomap"
  px_rendezvousStarts :: "(string, gotime) gomap"
  px_lastPacketLog :: "(string, gotime) gomap"

record xenv =
  xe_now :: gotime
  xe_nonce :: "nat \<Rightarrow> byte list option"
  xe_resolve :: "string \<Rightarrow> UDPAddr option"
  xe_write :: "UDPAddr \<Rightarrow> bool"
  xe_order :: range_orders

text \<open>A datagram that was written, or a punch job started in a goroutine of its own.\<close>

datatype xeffect = Sent UDPAddr "byte list" | Punch string string "string list" gotime

definition NewPeerExchange :: "Config \<Rightarrow> LocalNode \<Rightarrow> PeerStore \<Rightarrow> PeerExchange" where
  "NewPeerExchange config localNode peerStore =
     \<lparr>px_config = config, px_localNode = localNode, px_peerStore = peerStore, px_port = 0, px_limiter = Limiter_NewDefault,
      px_running = False, px_pendingReplies = fmempty, px_replyChans = fmempty, px_nextChan = 0,
      px_announceHandler = None, px_rendezvousSessions = fmempty, px_activePunches = fmempty,
      px_rendezvousStarts = fmempty, px_lastPacketLog = fmempty\<rparr>"

datatype exchange_error = AlreadyRunning | BindFailed int | ResolveFailed | SealFailed | SendFailed | ExchangeTimedOut
  | IntroducerRequired

text \<open>Whether the port can be bound is an argument.\<close>

definition Exchange_Start :: "bool \<Rightarrow> PeerExchange \<Rightarrow> exchange_error + PeerExchange" where
  "Exchange_Start bind_ok pe =
     (if px_running pe then Inl AlreadyRunning
      else let port = int (unat (GossipPort (cfg_Keys (px_config pe)))) in
        if \<not> bind_ok then Inl (BindFailed port) else Inr (pe\<lparr>px_port := port, px_running := True\<rparr>))"

definition Exchange_Stop :: "PeerExchange \<Rightarrow> PeerExchange" where
  "Exchange_Stop pe = (if \<not> px_running pe then pe else pe\<lparr>px_running := False\<rparr>)"

definition SetAnnounceHandler :: "PeerExchange \<Rightarrow> announce_handler option \<Rightarrow> PeerExchange" where
  "SetAnnounceHandler pe h = pe\<lparr>px_announceHandler := h\<rparr>"

section \<open>Announcing and recording peers\<close>

definition xgetKnownPeers :: "xenv \<Rightarrow> PeerExchange \<Rightarrow> KnownPeer list" where
  "xgetKnownPeers env pe =
     map (\<lambda>p. \<lparr>kp_WGPubKey = WGPubKey p, kp_Hostname = Hostname p, kp_MeshIP = MeshIP p, kp_MeshIPv6 = MeshIPv6 p,
               kp_WGEndpoint = Endpoint p, kp_Introducer = Introducer p, kp_NATType = NATType p\<rparr>)
       (filter (\<lambda>p. \<not> (WGPubKey p = [] \<or> WGPubKey p = ln_WGPubKey (px_localNode pe)))
         (PeerStore_GetActive (xe_order env 0 (fmdom (peers (px_peerStore pe)))) (xe_now env) (px_peerStore pe)))"

text \<open>The announcement of the local node, with the peers it knows.\<close>

definition local_announcement :: "gotime \<Rightarrow> LocalNode \<Rightarrow> KnownPeer list \<Rightarrow> PeerAnnouncement" where
  "local_announcement now n knownPeers = CreateAnnouncement now (ln_WGPubKey n) (ln_MeshIP n) (GetEndpoint n)
     (ln_Introducer n) (ln_RoutableNetworks n) knownPeers (ln_Hostname n) (ln_MeshIPv6 n) (ln_NATType n)"

text \<open>The peer that an announcement describes and the one that an entry of its list describes.\<close>

definition announced_peer :: "PeerAnnouncement \<Rightarrow> string \<Rightarrow> PeerInfo" where
  "announced_peer a endpoint =
     \<lparr>WGPubKey = pa_WGPubKey a, Hostname = pa_Hostname a, MeshIP = pa_MeshIP a, MeshIPv6 = pa_MeshIPv6 a,
      Endpoint = endpoint, Introducer = pa_Introducer a, RoutableNetworks = pa_RoutableNetworks a,
      LastSeen = zero_time, DiscoveredVia = [], Latency = None, NATType = pa_NATType a, EndpointMethod = []\<rparr>"

definition transitive_peer :: "bool \<Rightarrow> KnownPeer \<Rightarrow> PeerInfo" where
  "transitive_peer disableIPv6 kp =
     \<lparr>WGPubKey = kp_WGPubKey kp, Hostname = kp_Hostname kp, MeshIP = kp_MeshIP kp, MeshIPv6 = kp_MeshIPv6 kp,
      Endpoint = filterEndpointForConfig (normalizeKnownPeerEndpoint (kp_WGEndpoint kp)) disableIPv6,
      Introducer = kp_Introducer kp, RoutableNetworks = [],
      LastSeen = zero_time, DiscoveredVia = [], Latency = None, NATType = kp_NATType kp, EndpointMethod = []\<rparr>"

text \<open>The loop over the known peers of an announcement, the same for the exchange and gossip but for the method.\<close>

fun update_transitive :: "gotime \<Rightarrow> Config \<Rightarrow> LocalNode \<Rightarrow> string \<Rightarrow> PeerStore \<Rightarrow> KnownPeer list \<Rightarrow> PeerStore go" where
  "update_transitive now cfg n m ps [] = Inr ps"
| "update_transitive now cfg n m ps (kp # kps) =
     (if kp_WGPubKey kp = ln_WGPubKey n then update_transitive now cfg n m ps kps
      else and_then (PeerStore_Update now ps (transitive_peer (cfg_DisableIPv6 cfg) kp) m)
             (\<lambda>ps'. update_transitive now cfg n m ps' kps))"

definition updateTransitivePeers :: "gotime \<Rightarrow> PeerExchange \<Rightarrow> KnownPeer list \<Rightarrow> PeerExchange go" where
  "updateTransitivePeers now pe kps =
     and_then (update_transitive now (px_config pe) (px_localNode pe) (DHTMethod @ ''-transitive'') (px_peerStore pe) kps)
       (\<lambda>ps. Inr (pe\<lparr>px_peerStore := ps\<rparr>))"

definition px_update :: "gotime \<Rightarrow> PeerExchange \<Rightarrow> PeerInfo \<Rightarrow> string \<Rightarrow> PeerExchange go" where
  "px_update now pe info m = and_then (PeerStore_Update now (px_peerStore pe) info m) (\<lambda>ps. Inr (pe\<lparr>px_peerStore := ps\<rparr>))"

abbreviation gossip_key :: "PeerExchange \<Rightarrow> byte list" where
  "gossip_key pe \<equiv> GossipKey (cfg_Keys (px_config pe))"

text \<open>Writing a sealed message to the socket.\<close>

definition write_sealed :: "xenv \<Rightarrow> byte list option \<Rightarrow> UDPAddr \<Rightarrow> exchange_error + xeffect list" where
  "write_sealed env sealed addr =
     (case sealed of
        None \<Rightarrow> Inl SealFailed
      | Some data \<Rightarrow> if xe_write env addr then Inr [Sent addr data] else Inl SendFailed)"

definition sendReply :: "xenv \<Rightarrow> PeerExchange \<Rightarrow> UDPAddr \<Rightarrow> exchange_error + xeffect list" where
  "sendReply env pe remoteAddr =
     (let a = (local_announcement (xe_now env) (px_localNode pe) (xgetKnownPeers env pe))
                \<lparr>pa_ObservedEndpoint := udp_string remoteAddr\<rparr>
      in write_sealed env (SealEnvelope (xe_nonce env 0) MessageTypeReply (PeerAnnouncement_json a) (gossip_key pe)) remoteAddr)"

definition SendAnnounce :: "xenv \<Rightarrow> PeerExchange \<Rightarrow> UDPAddr \<Rightarrow> exchange_error + xeffect list" where
  "SendAnnounce env pe remoteAddr =
     (let a = local_announcement (xe_now env) (px_localNode pe) (xgetKnownPeers env pe)
      in write_sealed env (SealEnvelope (xe_nonce env 0) MessageTypeAnnounce (PeerAnnouncement_json a) (gossip_key pe)) remoteAddr)"

definition SendGoodbye :: "xenv \<Rightarrow> PeerExchange \<Rightarrow> string \<Rightarrow> exchange_error + xeffect list" where
  "SendGoodbye env pe addr =
     (case xe_resolve env addr of
        None \<Rightarrow> Inl ResolveFailed
      | Some remoteAddr \<Rightarrow>
          (let msg = \<lparr>gb_Protocol = ProtocolVersion, gb_Timestamp = unix_of (xe_now env),
                      gb_WGPubKey = ln_WGPubKey (px_localNode pe)\<rparr>
           in write_sealed env (SealEnvelope (xe_nonce env 0) MessageTypeGoodbye (goodbye_json msg) (gossip_key pe)) remoteAddr))"

text \<open>An error of sending is logged and dropped by the handlers.\<close>

definition logged :: "exchange_error + xeffect list \<Rightarrow> xeffect list" where
  "logged r = (case r of Inl _ \<Rightarrow> [] | Inr es \<Rightarrow> es)"

section \<open>HELLO and REPLY\<close>

definition sender_endpoint :: "PeerExchange \<Rightarrow> PeerAnnouncement \<Rightarrow> UDPAddr \<Rightarrow> string" where
  "sender_endpoint pe a remoteAddr =
     filterEndpointForConfig (resolvePeerEndpoint (pa_WGEndpoint a) (Some remoteAddr)) (cfg_DisableIPv6 (px_config pe))"

definition handleHello :: "xenv \<Rightarrow> PeerExchange \<Rightarrow> PeerAnnouncement \<Rightarrow> UDPAddr \<Rightarrow> (PeerExchange \<times> xeffect list) go" where
  "handleHello env pe a remoteAddr =
     (if pa_WGPubKey a = ln_WGPubKey (px_localNode pe) then Inr (pe, [])
      else and_then (px_update (xe_now env) pe (announced_peer a (sender_endpoint pe a remoteAddr)) DHTMethod) (\<lambda>pe1.
           and_then (updateTransitivePeers (xe_now env) pe1 (pa_KnownPeers a)) (\<lambda>pe2.
             Inr (pe2, logged (sendReply env pe2 remoteAddr)))))"

definition applyObservedEndpoint :: "PeerExchange \<Rightarrow> string \<Rightarrow> PeerExchange" where
  "applyObservedEndpoint pe observed =
     (if observed = [] then pe
      else case split_host_port observed of
        None \<Rightarrow> pe
      | Some (host, _) \<Rightarrow>
          (case parse_ip host of
             None \<Rightarrow> pe
           | Some ip \<Rightarrow>
               if cfg_DisableIPv6 (px_config pe) \<and> to4 ip = None then pe
               else if IsLoopback ip \<or> IsPrivate ip \<or> IsLinkLocalUnicast ip then pe
               else (let currentEP = GetEndpoint (px_localNode pe) in
                 case split_host_port currentEP of
                   None \<Rightarrow> pe
                 | Some (currentHost, wgPort) \<Rightarrow>
                     if (case parse_ip currentHost of
                           None \<Rightarrow> False
                         | Some cur \<Rightarrow> to4 cur = None \<and> IsGlobalUnicast cur \<and> \<not> IsPrivate cur \<and> to4 ip \<noteq> None)
                     then pe
                     else let newEndpoint = join_host_port (ip_string ip) wgPort in
                       if newEndpoint \<noteq> currentEP
                       then pe\<lparr>px_localNode := SetEndpoint (px_localNode pe) newEndpoint\<rparr> else pe)))"

definition setPendingReplyChannel :: "PeerExchange \<Rightarrow> string \<Rightarrow> nat \<Rightarrow> PeerExchange" where
  "setPendingReplyChannel pe remote ch = pe\<lparr>px_pendingReplies := fmupd remote ch (px_pendingReplies pe)\<rparr>"

definition clearPendingReplyChannel :: "PeerExchange \<Rightarrow> string \<Rightarrow> PeerExchange" where
  "clearPendingReplyChannel pe remote = pe\<lparr>px_pendingReplies := fmdrop remote (px_pendingReplies pe)\<rparr>"

definition getPendingReplyChannel :: "PeerExchange \<Rightarrow> string \<Rightarrow> nat option" where
  "getPendingReplyChannel pe remote = fmlookup (px_pendingReplies pe) remote"

text \<open>A send on a reply channel in a select with a default case.\<close>

definition reply_try_send :: "PeerExchange \<Rightarrow> nat \<Rightarrow> PeerInfo \<Rightarrow> PeerExchange" where
  "reply_try_send pe ch info =
     (case fmlookup (px_replyChans pe) ch of
        Some [] \<Rightarrow> pe\<lparr>px_replyChans := fmupd ch [info] (px_replyChans pe)\<rparr>
      | _ \<Rightarrow> pe)"

text \<open>
  Update writes through the pointer it is given when it stores a peer that is new; this is the
  report as its caller sees it afterwards.
\<close>

definition reported :: "gotime \<Rightarrow> PeerStore \<Rightarrow> PeerInfo \<Rightarrow> string \<Rightarrow> PeerInfo" where
  "reported now ps info m =
     (case fmlookup (peers ps) (WGPubKey info) of
        Some _ \<Rightarrow> info
      | None \<Rightarrow> if go_len (peers ps) \<ge> DefaultMaxPeers then info else new_peer now info m)"

definition handleReply :: "xenv \<Rightarrow> PeerExchange \<Rightarrow> PeerAnnouncement \<Rightarrow> UDPAddr \<Rightarrow> (PeerExchange \<times> xeffect list) go" where
  "handleReply env pe reply remoteAddr =
     (let pe1 = applyObservedEndpoint pe (pa_ObservedEndpoint reply);
          peerInfo = announced_peer reply (sender_endpoint pe1 reply remoteAddr)
      in and_then (updateTransitivePeers (xe_now env) pe1 (pa_KnownPeers reply)) (\<lambda>pe2.
         and_then (px_update (xe_now env) pe2 peerInfo DHTMethod) (\<lambda>pe3.
           case getPendingReplyChannel pe3 (udp_string remoteAddr) of
             Some ch \<Rightarrow> Inr (reply_try_send pe3 ch (reported (xe_now env) (px_peerStore pe2) peerInfo DHTMethod), [])
           | None \<Rightarrow> Inr (pe3, []))))"

section \<open>Rendezvous\<close>

definition unix_milli :: "gotime \<Rightarrow> int" where
  "unix_milli t = t div Millisecond"

definition RequestRendezvous :: "xenv \<Rightarrow> PeerExchange \<Rightarrow> string \<Rightarrow> string \<Rightarrow> string list \<Rightarrow> exchange_error + xeffect list" where
  "RequestRendezvous env pe introducerAddr targetPubKey candidates =
     (if cfg_DisablePunching (px_config pe) then Inr []
      else if introducerAddr = [] \<or> targetPubKey = [] then Inl IntroducerRequired
      else case xe_resolve env introducerAddr of
        None \<Rightarrow> Inl ResolveFailed
      | Some remoteAddr \<Rightarrow>
          (let self = ln_WGPubKey (px_localNode pe);
               offer = \<lparr>of_Protocol = ProtocolVersion, of_Timestamp = unix_of (xe_now env), of_FromPubKey = self,
                 of_TargetPubKey = targetPubKey, of_PairID = pairIDForPeers self targetPubKey,
                 of_Candidates = filterCandidatesForConfig (normalizeCandidates candidates) (cfg_DisableIPv6 (px_config pe)),
                 of_ObservedAddr = [], of_IntroducerKey = []\<rparr>
           in write_sealed env (SealEnvelope (xe_nonce env 0) MessageTypeRendezvousOffer (offer_json offer) (gossip_key pe))
                remoteAddr))"

text \<open>\<open>i\<close> tells the nonces of the two goroutines that send the STARTs of a pair apart.\<close>

definition sendRendezvousStart :: "xenv \<Rightarrow> nat \<Rightarrow> PeerExchange \<Rightarrow> string \<Rightarrow> string \<Rightarrow> string \<Rightarrow> string list \<Rightarrow> gotime \<Rightarrow> xeffect list" where
  "sendRendezvousStart env i pe pairID targetEndpoint peerPubKey peerCandidates startAt =
     (if targetEndpoint = [] \<or> peerPubKey = [] then []
      else case xe_resolve env targetEndpoint of
        None \<Rightarrow> []
      | Some remoteAddr \<Rightarrow>
          (let msg = \<lparr>st_Protocol = ProtocolVersion, st_Timestamp = unix_of (xe_now env), st_PairID = pairID,
                 st_PeerPubKey = peerPubKey,
                 st_PeerCandidates = filterCandidatesForConfig (normalizeCandidates peerCandidates) (cfg_DisableIPv6 (px_config pe)),
                 st_StartAtUnixMs = unix_milli startAt, st_IntroducerKey = ln_WGPubKey (px_localNode pe)\<rparr>
           in logged (write_sealed env (SealEnvelope (xe_nonce env i) MessageTypeRendezvousStart (start_json msg) (gossip_key pe))
                        remoteAddr)))"

text \<open>The entries of a table of times that are not older than a bound.\<close>

definition younger :: "gotime \<Rightarrow> duration \<Rightarrow> (string, gotime) gomap \<Rightarrow> (string, gotime) gomap" where
  "younger now limit m = fmfilter (\<lambda>k. \<not> (case fmlookup m k of None \<Rightarrow> False | Some t \<Rightarrow> time_sub now t > limit)) m"

definition expire_rendezvous :: "gotime \<Rightarrow> PeerExchange \<Rightarrow> PeerExchange" where
  "expire_rendezvous now pe =
     pe\<lparr>px_rendezvousSessions := fmfilter (\<lambda>id. \<not> (case fmlookup (px_rendezvousSessions pe) id of
             None \<Rightarrow> False | Some st \<Rightarrow> time_sub now (rv_createdAt st) > RendezvousSessionTTL)) (px_rendezvousSessions pe),
        px_rendezvousStarts := younger now (RendezvousStartCooldown * 2) (px_rendezvousStarts pe),
        px_activePunches := younger now (RendezvousPunchCooldown * 2) (px_activePunches pe)\<rparr>"

text \<open>The candidates of an offer: those it names and the address it came from, with nearby ports.\<close>

definition offer_candidates :: "PeerExchange \<Rightarrow> rendezvousOffer \<Rightarrow> UDPAddr \<Rightarrow> string list" where
  "offer_candidates pe offer remoteAddr =
     filterCandidatesForConfig
       (expandCandidatePorts (normalizeCandidates (of_Candidates offer @ [udp_string remoteAddr])) RendezvousPortSpread)
       (cfg_DisableIPv6 (px_config pe))"

definition record_offer :: "PeerExchange \<Rightarrow> rendezvousOffer \<Rightarrow> UDPAddr \<Rightarrow> string \<Rightarrow> rendezvousState \<Rightarrow> rendezvousState" where
  "record_offer pe offer remoteAddr pairID st =
     (let offerCopy = offer\<lparr>of_PairID := pairID, of_IntroducerKey := ln_WGPubKey (px_localNode pe),
            of_ObservedAddr := udp_string remoteAddr, of_Candidates := offer_candidates pe offer remoteAddr\<rparr>
      in st\<lparr>rv_offers := fmupd (of_FromPubKey offer) offerCopy (rv_offers st),
            rv_endpoints := fmupd (of_FromPubKey offer) (udp_string remoteAddr) (rv_endpoints st)\<rparr>)"

text \<open>An introducer makes up the offer of a target it knows the endpoint of.\<close>

definition synthesize_target :: "xenv \<Rightarrow> PeerExchange \<Rightarrow> rendezvousOffer \<Rightarrow> string \<Rightarrow> rendezvousState \<Rightarrow> rendezvousState" where
  "synthesize_target env pe offer pairID st =
     (case fmlookup (rv_offers st) (of_TargetPubKey offer) of
        Some _ \<Rightarrow> st
      | None \<Rightarrow>
          (case PeerStore_Get (px_peerStore pe) (of_TargetPubKey offer) of
             None \<Rightarrow> st
           | Some target \<Rightarrow>
               (let targetControl = controlEndpointFromPeerEndpoint (Endpoint target)
                      (int (unat (GossipPort (cfg_Keys (px_config pe)))))
                in if targetControl = [] then st
                   else let b = \<lparr>of_Protocol = ProtocolVersion, of_Timestamp = unix_of (xe_now env),
                            of_FromPubKey = of_TargetPubKey offer, of_TargetPubKey = of_FromPubKey offer, of_PairID = pairID,
                            of_Candidates = expandCandidatePorts (normalizeCandidates [targetControl]) RendezvousPortSpread,
                            of_ObservedAddr = [], of_IntroducerKey = ln_WGPubKey (px_localNode pe)\<rparr>
                        in st\<lparr>rv_offers := fmupd (of_TargetPubKey offer) b (rv_offers st),
                              rv_endpoints := fmupd (of_TargetPubKey offer) targetControl (rv_endpoints st)\<rparr>)))"

text \<open>The part of the handler that holds the lock: the session of the pair and, once both offers are there, the STARTs.\<close>

definition pair_offer :: "xenv \<Rightarrow> PeerExchange \<Rightarrow> rendezvousOffer \<Rightarrow> UDPAddr \<Rightarrow> string \<Rightarrow> PeerExchange \<times> xeffect list" where
  "pair_offer env pe offer remoteAddr pairID =
     (let now = xe_now env;
          pe1 = expire_rendezvous now pe;
          st0 = (case fmlookup (px_rendezvousSessions pe1) pairID of
                   Some st \<Rightarrow> st
                 | None \<Rightarrow> \<lparr>rv_offers = fmempty, rv_endpoints = fmempty, rv_createdAt = now\<rparr>);
          st = synthesize_target env pe offer pairID (record_offer pe offer remoteAddr pairID st0);
          pe2 = pe1\<lparr>px_rendezvousSessions := fmupd pairID st (px_rendezvousSessions pe1)\<rparr>
      in case (fmlookup (rv_offers st) (of_FromPubKey offer), fmlookup (rv_offers st) (of_TargetPubKey offer)) of
           (Some a, Some b) \<Rightarrow>
             if (case fmlookup (px_rendezvousStarts pe2) pairID of
                   None \<Rightarrow> False | Some lastStart \<Rightarrow> time_sub now lastStart < RendezvousStartCooldown)
             then (pe2, [])
             else
               let startAt = now + RendezvousStartLeadTime;
                   ep = (\<lambda>k. go_index [] (rv_endpoints st) k)
               in (pe2\<lparr>px_rendezvousStarts := fmupd pairID now (px_rendezvousStarts pe2),
                       px_rendezvousSessions := fmdrop pairID (px_rendezvousSessions pe2)\<rparr>,
                   sendRendezvousStart env 0 pe pairID (ep (of_FromPubKey a)) (of_FromPubKey b) (of_Candidates b) startAt
                   @ sendRendezvousStart env 1 pe pairID (ep (of_FromPubKey b)) (of_FromPubKey a) (of_Candidates a) startAt)
         | _ \<Rightarrow> (pe2, []))"

definition handleRendezvousOffer :: "xenv \<Rightarrow> PeerExchange \<Rightarrow> rendezvousOffer \<Rightarrow> UDPAddr \<Rightarrow> PeerExchange \<times> xeffect list" where
  "handleRendezvousOffer env pe offer remoteAddr =
     (let self = ln_WGPubKey (px_localNode pe);
          pairID = pairIDForPeers (of_FromPubKey offer) (of_TargetPubKey offer)
      in if cfg_DisablePunching (px_config pe) then (pe, [])
         else if of_FromPubKey offer = [] \<or> of_TargetPubKey offer = [] then (pe, [])
         else if of_FromPubKey offer = self \<or> of_TargetPubKey offer = self then (pe, [])
         else if \<not> ln_Introducer (px_localNode pe) then (pe, [])
         else if of_PairID offer \<noteq> [] \<and> of_PairID offer \<noteq> pairID then (pe, [])
         else pair_offer env pe offer remoteAddr pairID)"

definition beginPunchJob :: "gotime \<Rightarrow> PeerExchange \<Rightarrow> string \<Rightarrow> bool \<times> PeerExchange" where
  "beginPunchJob now pe pairID =
     (if (case fmlookup (px_activePunches pe) pairID of None \<Rightarrow> False | Some prev \<Rightarrow> time_sub now prev < RendezvousPunchCooldown)
      then (False, pe)
      else (True, pe\<lparr>px_activePunches := fmupd pairID now (px_activePunches pe)\<rparr>))"

definition endPunchJob :: "gotime \<Rightarrow> PeerExchange \<Rightarrow> string \<Rightarrow> PeerExchange" where
  "endPunchJob now pe pairID = pe\<lparr>px_activePunches := fmupd pairID now (px_activePunches pe)\<rparr>"

definition handleRendezvousStart :: "xenv \<Rightarrow> PeerExchange \<Rightarrow> rendezvousStart \<Rightarrow> UDPAddr \<Rightarrow> PeerExchange \<times> xeffect list" where
  "handleRendezvousStart env pe start remoteAddr =
     (let pairID = pairIDForPeers (ln_WGPubKey (px_localNode pe)) (st_PeerPubKey start);
          startAt = (if st_StartAtUnixMs start > 0 then st_StartAtUnixMs start * Millisecond
                     else xe_now env + 100 * Millisecond);
          candidates = filterCandidatesForConfig (normalizeCandidates (st_PeerCandidates start)) (cfg_DisableIPv6 (px_config pe))
      in if cfg_DisablePunching (px_config pe) then (pe, [])
         else if st_PeerPubKey start = [] \<or> st_PairID start = [] then (pe, [])
         else if pairID \<noteq> st_PairID start then (pe, [])
         else if candidates = [] then (pe, [])
         else case beginPunchJob (xe_now env) pe pairID of
             (False, pe') \<Rightarrow> (pe', [])
           | (True, pe') \<Rightarrow> (pe', [Punch pairID (st_PeerPubKey start) candidates startAt]))"

section \<open>Incoming messages\<close>

definition logIncomingPacket :: "gotime \<Rightarrow> PeerExchange \<Rightarrow> string \<Rightarrow> UDPAddr \<Rightarrow> PeerExchange" where
  "logIncomingPacket now pe messageType remoteAddr =
     (let key = messageType @ ''|'' @ udp_string remoteAddr in
      if (case fmlookup (px_lastPacketLog pe) key of None \<Rightarrow> False | Some prev \<Rightarrow> time_sub now prev < ExchangeLogCooldown)
      then pe
      else let m = fmupd key now (px_lastPacketLog pe) in
        pe\<lparr>px_lastPacketLog := (if go_len m > 100 then younger now (ExchangeLogCooldown * 2) m else m)\<rparr>)"

definition handleGoodbye :: "gotime \<Rightarrow> PeerExchange \<Rightarrow> goodbyeMessage \<Rightarrow> PeerExchange" where
  "handleGoodbye now pe bye =
     (if gb_WGPubKey bye = [] \<or> gb_WGPubKey bye = ln_WGPubKey (px_localNode pe) then pe
      else if time_sub now (time_unix (gb_Timestamp bye)) > 60 * Second then pe
      else if time_unix (gb_Timestamp bye) > now + 60 * Second then pe
      else pe\<lparr>px_peerStore := PeerStore_Remove (px_peerStore pe) (gb_WGPubKey bye)\<rparr>)"

text \<open>The switch over the type of an opened message.\<close>

definition dispatch :: "xenv \<Rightarrow> PeerExchange \<Rightarrow> string \<Rightarrow> byte list \<Rightarrow> UDPAddr \<Rightarrow> (PeerExchange \<times> xeffect list) go" where
  "dispatch env pe mt plaintext remoteAddr =
     (if mt = MessageTypeHello then
        (case unmarshal PeerAnnouncement_member zero_announcement plaintext of
           None \<Rightarrow> Inr (pe, []) | Some a \<Rightarrow> handleHello env pe a remoteAddr)
      else if mt = MessageTypeReply then
        (case unmarshal PeerAnnouncement_member zero_announcement plaintext of
           None \<Rightarrow> Inr (pe, []) | Some a \<Rightarrow> handleReply env pe a remoteAddr)
      else if mt = MessageTypeAnnounce then
        (case unmarshal PeerAnnouncement_member zero_announcement plaintext of
           None \<Rightarrow> Inr (pe, [])
         | Some a \<Rightarrow>
             (case px_announceHandler pe of
                None \<Rightarrow> Inr (pe, [])
              | Some handler \<Rightarrow>
                  and_then (handler (xe_now env) (px_config pe) (px_localNode pe) (px_peerStore pe) a (Some remoteAddr))
                    (\<lambda>ps. Inr (pe\<lparr>px_peerStore := ps\<rparr>, []))))
      else if mt = MessageTypeRendezvousOffer then
        (case unmarshal offer_member zero_offer plaintext of
           None \<Rightarrow> Inr (pe, []) | Some offer \<Rightarrow> Inr (handleRendezvousOffer env pe offer remoteAddr))
      else if mt = MessageTypeRendezvousStart then
        (case unmarshal start_member zero_start plaintext of
           None \<Rightarrow> Inr (pe, []) | Some start \<Rightarrow> Inr (handleRendezvousStart env pe start remoteAddr))
      else if mt = MessageTypeGoodbye then
        (case unmarshal goodbye_member zero_goodbye plaintext of
           None \<Rightarrow> Inr (pe, []) | Some bye \<Rightarrow> Inr (handleGoodbye (xe_now env) pe bye, []))
      else Inr (pe, []))"

definition handleMessage :: "xenv \<Rightarrow> PeerExchange \<Rightarrow> byte list \<Rightarrow> UDPAddr \<Rightarrow> (PeerExchange \<times> xeffect list) go" where
  "handleMessage env pe data remoteAddr =
     (case OpenEnvelopeRaw (xe_now env) data (gossip_key pe) of
        Inl _ \<Rightarrow> Inr (pe, [])
      | Inr (envelope, plaintext) \<Rightarrow>
          dispatch env (logIncomingPacket (xe_now env) pe (en_MessageType envelope) remoteAddr)
            (en_MessageType envelope) plaintext remoteAddr)"

text \<open>One round of the listener that has read a datagram; \<open>fl\<close> is the rounding of the limiter's arithmetic.\<close>

definition listen_round :: "(rat \<Rightarrow> rat) \<Rightarrow> xenv \<Rightarrow> PeerExchange \<Rightarrow> byte list \<Rightarrow> UDPAddr \<Rightarrow> (PeerExchange \<times> xeffect list) go" where
  "listen_round fl env pe data remoteAddr =
     and_then (Limiter_Allow fl (px_limiter pe) (ip_string (ua_IP remoteAddr)) (xe_now env)) (\<lambda>(ok, l).
       let pe' = pe\<lparr>px_limiter := l\<rparr> in
       if ok then handleMessage env pe' data remoteAddr else Inr (pe', []))"

section \<open>An exchange with a peer\<close>

text \<open>
  A call of ExchangeWithPeer waits in a select. The rest of the program runs meanwhile, so that
  its loop is a function of the list of what happens: a datagram handled by the listener, a tick
  of the punch timer, the reply channel being received from when it has an element, or the
  timeout. The call that has not returned by the end of the list is None.
\<close>

datatype wait_event = Incoming xenv "byte list" UDPAddr | PunchTick xenv | TakeReply | TimedOut

record wait =
  xw_remote :: UDPAddr
  xw_chan :: nat
  xw_data :: "byte list"

definition exchange_begin :: "xenv \<Rightarrow> PeerExchange \<Rightarrow> string \<Rightarrow> (exchange_error + wait) \<times> PeerExchange \<times> xeffect list" where
  "exchange_begin env pe addrStr =
     (case xe_resolve env addrStr of
        None \<Rightarrow> (Inl ResolveFailed, pe, [])
      | Some remoteAddr \<Rightarrow>
          (let ch = px_nextChan pe;
               pe1 = setPendingReplyChannel
                       (pe\<lparr>px_replyChans := fmupd ch [] (px_replyChans pe), px_nextChan := Suc ch\<rparr>) (udp_string remoteAddr) ch;
               a = local_announcement (xe_now env) (px_localNode pe1) (xgetKnownPeers env pe1)
           in case SealEnvelope (xe_nonce env 0) MessageTypeHello (PeerAnnouncement_json a) (gossip_key pe1) of
                None \<Rightarrow> (Inl SealFailed, clearPendingReplyChannel pe1 (udp_string remoteAddr), [])
              | Some data \<Rightarrow>
                  if xe_write env remoteAddr
                  then (Inr \<lparr>xw_remote = remoteAddr, xw_chan = ch, xw_data = data\<rparr>, pe1, [Sent remoteAddr data])
                  else (Inl SendFailed, clearPendingReplyChannel pe1 (udp_string remoteAddr), [])))"

fun exchange_wait :: "wait \<Rightarrow> PeerExchange \<Rightarrow> xeffect list \<Rightarrow> wait_event list \<Rightarrow>
    ((exchange_error + PeerInfo) \<times> PeerExchange \<times> xeffect list) go option" where
  "exchange_wait w pe out [] = None"
| "exchange_wait w pe out (Incoming env data addr # evs) =
     (case handleMessage env pe data addr of
        Inl p \<Rightarrow> Some (Inl p)
      | Inr (pe', es) \<Rightarrow> exchange_wait w pe' (out @ es) evs)"
| "exchange_wait w pe out (PunchTick env # evs) =
     (if cfg_DisablePunching (px_config pe) then exchange_wait w pe out evs
      else exchange_wait w pe (if xe_write env (xw_remote w) then out @ [Sent (xw_remote w) (xw_data w)] else out) evs)"
| "exchange_wait w pe out (TakeReply # evs) =
     (case fmlookup (px_replyChans pe) (xw_chan w) of
        Some (info # rest) \<Rightarrow>
          Some (Inr (Inr info, clearPendingReplyChannel (pe\<lparr>px_replyChans := fmupd (xw_chan w) rest (px_replyChans pe)\<rparr>)
                       (udp_string (xw_remote w)), out))
      | _ \<Rightarrow> exchange_wait w pe out evs)"
| "exchange_wait w pe out (TimedOut # evs) =
     Some (Inr (Inl ExchangeTimedOut, clearPendingReplyChannel pe (udp_string (xw_remote w)), out))"

definition ExchangeWithPeer :: "xenv \<Rightarrow> PeerExchange \<Rightarrow> string \<Rightarrow> wait_event list \<Rightarrow>
    ((exchange_error + PeerInfo) \<times> PeerExchange \<times> xeffect list) go option" where
  "ExchangeWithPeer env pe addrStr evs =
     (case exchange_begin env pe addrStr of
        (Inl e, pe', es) \<Rightarrow> Some (Inr (Inl e, pe', es))
      | (Inr w, pe', es) \<Rightarrow> exchange_wait w pe' es evs)"

section \<open>Punch jobs\<close>

text \<open>A reading of the handshakes of the interface is None when the command fails.\<close>

type_synonym handshakes = "(string, int) gomap option"

definition getLatestHandshake :: "handshakes \<Rightarrow> string \<Rightarrow> int" where
  "getLatestHandshake hs peerPubKey =
     (if peerPubKey = [] then 0 else case hs of None \<Rightarrow> 0 | Some m \<Rightarrow> go_index 0 m peerPubKey)"

text \<open>\<open>polls\<close> are the readings until the deadline, \<open>final\<close> is the one after it.\<close>

definition waitForHandshake :: "handshakes list \<Rightarrow> handshakes \<Rightarrow> string \<Rightarrow> int \<Rightarrow> int" where
  "waitForHandshake polls final peerPubKey baseline =
     (if peerPubKey = [] then 0
      else case find (\<lambda>hs. getLatestHandshake hs peerPubKey > baseline) polls of
        Some hs \<Rightarrow> getLatestHandshake hs peerPubKey
      | None \<Rightarrow> getLatestHandshake final peerPubKey)"

text \<open>What happens while one candidate is tried.\<close>

record attempt =
  at_env :: xenv
  at_events :: "wait_event list"
  at_polls :: "handshakes list"
  at_final :: handshakes
  at_done :: gotime

fun punch_candidates :: "string \<Rightarrow> int \<Rightarrow> PeerExchange \<Rightarrow> xeffect list \<Rightarrow> (string \<times> attempt) list \<Rightarrow>
    (bool \<times> PeerExchange \<times> xeffect list) go option" where
  "punch_candidates peerPubKey baseline pe out [] = Some (Inr (False, pe, out))"
| "punch_candidates peerPubKey baseline pe out ((candidate, att) # rest) =
     (case ExchangeWithPeer (at_env att) pe candidate (at_events att) of
        None \<Rightarrow> None
      | Some (Inl p) \<Rightarrow> Some (Inl p)
      | Some (Inr (Inl _, pe', es)) \<Rightarrow> punch_candidates peerPubKey baseline pe' (out @ es) rest
      | Some (Inr (Inr info, pe', es)) \<Rightarrow>
          if peerPubKey \<noteq> [] \<and> WGPubKey info \<noteq> [] \<and> WGPubKey info \<noteq> peerPubKey
          then punch_candidates peerPubKey baseline pe' (out @ es) rest
          else if waitForHandshake (at_polls att) (at_final att) peerPubKey baseline \<le> baseline
          then punch_candidates peerPubKey baseline pe' (out @ es) rest
          else Some (and_then (px_update (at_done att) pe' info (DHTMethod @ ''-rendezvous''))
                       (\<lambda>pe''. Inr (True, pe'', out @ es))))"

text \<open>
  The job begins when its start time has come; \<open>hs\<close> are the handshakes then, \<open>finished\<close> is the
  time at which it ends.
\<close>

definition runRendezvousPunch :: "handshakes \<Rightarrow> gotime \<Rightarrow> PeerExchange \<Rightarrow> string \<Rightarrow> string \<Rightarrow> (string \<times> attempt) list \<Rightarrow>
    (bool \<times> PeerExchange \<times> xeffect list) go option" where
  "runRendezvousPunch hs finished pe pairID peerPubKey attempts =
     map_option (\<lambda>r. and_then r (\<lambda>(ok, pe', out). Inr (ok, endPunchJob finished pe' pairID, out)))
       (punch_candidates peerPubKey (getLatestHandshake hs peerPubKey) pe [] attempts)"

section \<open>Lemmas on the messages\<close>

lemma exchange_key_folds [simp]:
  "fold_ascii ''from_pubkey'' = ''from_pubkey''" "fold_ascii ''target_pubkey'' = ''target_pubkey''"
  "fold_ascii ''pair_id'' = ''pair_id''" "fold_ascii ''candidates'' = ''candidates''"
  "fold_ascii ''observed_addr'' = ''observed_addr''" "fold_ascii ''introducer_key'' = ''introducer_key''"
  "fold_ascii ''peer_pubkey'' = ''peer_pubkey''" "fold_ascii ''peer_candidates'' = ''peer_candidates''"
  "fold_ascii ''start_at_unix_ms'' = ''start_at_unix_ms''"
  by (simp_all add: fold_ascii_def)

abbreviation int64 :: "int \<Rightarrow> bool" where
  "int64 i \<equiv> - 9223372036854775808 \<le> i \<and> i \<le> 9223372036854775807"

lemma strings_roundtrip: "those (map (\<lambda>v. set_string v []) (map JStr ws)) = Some ws"
  by (rule those_map_Some) simp

lemma atoi_itoa64: "int64 i \<Longrightarrow> atoi (itoa i) = Some i"
  by (simp add: atoi_itoa)

lemma offer_roundtrip:
  assumes "int64 (of_Timestamp r)"
  shows "set_struct offer_member (offer_json r) zero_offer = Some r"
    and "set_struct meta_member (offer_json r) ([], 0) = Some (of_Protocol r, of_Timestamp r)"
  using strings_roundtrip [of "of_Candidates r"] atoi_itoa64 [OF assms]
  by (simp_all add: offer_json_def set_members_append zero_offer_def offer_member_def meta_member_def key_is_def
      opt_str_def opt_arr_def del: map_map)

lemma start_roundtrip:
  assumes "int64 (st_Timestamp r)" "int64 (st_StartAtUnixMs r)"
  shows "set_struct start_member (start_json r) zero_start = Some r"
    and "set_struct meta_member (start_json r) ([], 0) = Some (st_Protocol r, st_Timestamp r)"
  using strings_roundtrip [of "st_PeerCandidates r"] atoi_itoa64 [OF assms(1)] atoi_itoa64 [OF assms(2)]
  by (simp_all add: start_json_def set_members_append zero_start_def start_member_def meta_member_def key_is_def
      opt_str_def opt_arr_def del: map_map)

lemma goodbye_roundtrip:
  assumes "int64 (gb_Timestamp r)"
  shows "set_struct goodbye_member (goodbye_json r) zero_goodbye = Some r"
    and "set_struct meta_member (goodbye_json r) ([], 0) = Some (gb_Protocol r, gb_Timestamp r)"
  using atoi_itoa64 [OF assms]
  by (simp_all add: goodbye_json_def zero_goodbye_def goodbye_member_def meta_member_def key_is_def)

lemma exchange_literal_utf8: "list_all utf8_valid
   [''from_pubkey'', ''target_pubkey'', ''pair_id'', ''candidates'', ''observed_addr'', ''introducer_key'', ''peer_pubkey'',
    ''peer_candidates'', ''start_at_unix_ms'', ''protocol'', ''timestamp'', ''wg_pubkey'']"
  unfolding list_all_iff by (intro ballI ascii_utf8) auto

lemmas message_type_defs = MessageTypeHello_def MessageTypeReply_def MessageTypeAnnounce_def MessageTypeGoodbye_def
  MessageTypeRendezvousOffer_def MessageTypeRendezvousStart_def

lemma message_types_utf8:
  "utf8_valid MessageTypeHello" "utf8_valid MessageTypeReply" "utf8_valid MessageTypeAnnounce" "utf8_valid MessageTypeGoodbye"
  "utf8_valid MessageTypeRendezvousOffer" "utf8_valid MessageTypeRendezvousStart"
  by (rule ascii_utf8; simp add: message_type_defs)+

lemma int_literal_itoa: "int64 i \<Longrightarrow> int_literal (itoa i)"
  using atoi_itoa64 by (simp add: int_literal_def)

lemma offer_json_wf:
  "int64 (of_Timestamp r) \<Longrightarrow> list_all utf8_valid ([of_Protocol r, of_FromPubKey r, of_TargetPubKey r, of_PairID r,
     of_ObservedAddr r, of_IntroducerKey r] @ of_Candidates r) \<Longrightarrow> json_wf (offer_json r)"
  using exchange_literal_utf8
  by (simp add: offer_json_def opt_str_def opt_arr_def int_literal_itoa list_all_iff)

lemma start_json_wf:
  "int64 (st_Timestamp r) \<Longrightarrow> int64 (st_StartAtUnixMs r) \<Longrightarrow> list_all utf8_valid ([st_Protocol r, st_PairID r,
     st_PeerPubKey r, st_IntroducerKey r] @ st_PeerCandidates r) \<Longrightarrow> json_wf (start_json r)"
  using exchange_literal_utf8
  by (simp add: start_json_def opt_str_def opt_arr_def int_literal_itoa list_all_iff)

lemma goodbye_json_wf:
  "int64 (gb_Timestamp r) \<Longrightarrow> list_all utf8_valid [gb_Protocol r, gb_WGPubKey r] \<Longrightarrow> json_wf (goodbye_json r)"
  using exchange_literal_utf8 by (simp add: goodbye_json_def int_literal_itoa)

text \<open>Clocks that are less than ten minutes apart, with a second for the truncation of timestamps.\<close>

definition clocks_close :: "gotime \<Rightarrow> gotime \<Rightarrow> bool" where
  "clocks_close t t' \<longleftrightarrow> \<bar>t - t'\<bar> \<le> MaxMessageAge - Second \<and> int64 (unix_of t) \<and> int64 (unix_of t')"

lemma unix_of_bounds: "t - Second < time_unix (unix_of t)" "time_unix (unix_of t) \<le> t"
  unfolding unix_of_def time_unix_def Second_def by presburger+

lemma clocks_fresh:
  "clocks_close t t' \<Longrightarrow> t' - time_unix (unix_of t) \<le> MaxMessageAge"
  "clocks_close t t' \<Longrightarrow> time_unix (unix_of t) - t' \<le> MaxMessageAge"
  using unix_of_bounds [of t] by (auto simp: clocks_close_def)

section \<open>Lemmas on the handlers\<close>

text \<open>The reports that an announcement gives rise to.\<close>

definition transitive_reports :: "Config \<Rightarrow> LocalNode \<Rightarrow> string \<Rightarrow> gotime \<Rightarrow> KnownPeer list \<Rightarrow> report list" where
  "transitive_reports cfg n m now kps = map (\<lambda>kp. (now, transitive_peer (cfg_DisableIPv6 cfg) kp, m))
     (filter (\<lambda>kp. kp_WGPubKey kp \<noteq> ln_WGPubKey n) kps)"

interpretation transitive: reporter "\<lambda>now ps kps. update_transitive now cfg n m ps kps" "transitive_reports cfg n m" for cfg n m
proof
  fix ps t kps
  show "store_inv ps \<Longrightarrow> \<exists>ps'. update_transitive t cfg n m ps kps = Inr ps' \<and> store_inv ps'
      \<and> peers ps' = peers (feed record_peer ps (transitive_reports cfg n m t kps))"
  proof (induction kps arbitrary: ps)
    case (Cons kp kps)
    show ?case
    proof (cases "kp_WGPubKey kp = ln_WGPubKey n")
      case False
      from store_update [OF Cons.prems] obtain p1 where p1: "store_inv p1"
        "PeerStore_Update t ps (transitive_peer (cfg_DisableIPv6 cfg) kp) m = Inr p1"
        "peers p1 = peers (record_peer t ps (transitive_peer (cfg_DisableIPv6 cfg) kp) m)" by blast
      with Cons.IH [OF p1(1)] feed_peers_cong [OF p1(3)] False show ?thesis
        by (auto simp: transitive_reports_def)
    qed (use Cons in \<open>simp add: transitive_reports_def\<close>)
  qed (simp add: transitive_reports_def)
qed

lemma px_update_ok:
  assumes "store_inv (px_peerStore pe)"
  shows "\<exists>ps. px_update now pe info m = Inr (pe\<lparr>px_peerStore := ps\<rparr>) \<and> store_inv ps
    \<and> peers ps = peers (record_peer now (px_peerStore pe) info m)"
  using store_update [OF assms, of now info m] by (auto simp: px_update_def)

lemma updateTransitive_ok:
  assumes "store_inv (px_peerStore pe)"
  shows "\<exists>ps. updateTransitivePeers now pe kps = Inr (pe\<lparr>px_peerStore := ps\<rparr>) \<and> store_inv ps
    \<and> peers ps = peers (feed record_peer (px_peerStore pe)
        (transitive_reports (px_config pe) (px_localNode pe) (DHTMethod @ ''-transitive'') now kps))"
  using transitive.deliver_feed [OF assms, of now "px_config pe" "px_localNode pe" "DHTMethod @ ''-transitive''" kps]
  by (auto simp: updateTransitivePeers_def)

lemma handleHello_ok:
  assumes "store_inv (px_peerStore pe)" "pa_WGPubKey a \<noteq> ln_WGPubKey (px_localNode pe)"
  shows "\<exists>ps. handleHello env pe a addr =
      Inr (pe\<lparr>px_peerStore := ps\<rparr>, logged (sendReply env (pe\<lparr>px_peerStore := ps\<rparr>) addr)) \<and> store_inv ps
    \<and> peers ps = peers (feed record_peer (px_peerStore pe)
        ((xe_now env, announced_peer a (sender_endpoint pe a addr), DHTMethod)
         # transitive_reports (px_config pe) (px_localNode pe) (DHTMethod @ ''-transitive'') (xe_now env) (pa_KnownPeers a)))"
proof -
  let ?i = "announced_peer a (sender_endpoint pe a addr)"
  obtain p1 where p1: "px_update (xe_now env) pe ?i DHTMethod = Inr (pe\<lparr>px_peerStore := p1\<rparr>)" "store_inv p1"
    "peers p1 = peers (record_peer (xe_now env) (px_peerStore pe) ?i DHTMethod)"
    using px_update_ok [OF assms(1)] by blast
  obtain p2 where "updateTransitivePeers (xe_now env) (pe\<lparr>px_peerStore := p1\<rparr>) (pa_KnownPeers a) = Inr (pe\<lparr>px_peerStore := p2\<rparr>)"
    "store_inv p2" "peers p2 = peers (feed record_peer p1
        (transitive_reports (px_config pe) (px_localNode pe) (DHTMethod @ ''-transitive'') (xe_now env) (pa_KnownPeers a)))"
    using updateTransitive_ok [of "pe\<lparr>px_peerStore := p1\<rparr>" "xe_now env" "pa_KnownPeers a"] p1(2) by auto
  with p1 assms(2) feed_peers_cong [OF p1(3)] show ?thesis by (auto simp: handleHello_def)
qed

lemma applyObserved_frame:
  "applyObservedEndpoint pe observed = pe\<lparr>px_localNode := (px_localNode pe)\<lparr>ln_wgEndpoint :=
     ln_wgEndpoint (px_localNode (applyObservedEndpoint pe observed))\<rparr>\<rparr>"
  by (auto simp: applyObservedEndpoint_def Let_def SetEndpoint_def split: option.splits)

lemma handleReply_ok:
  fixes a :: PeerAnnouncement and addr :: UDPAddr
  assumes "store_inv (px_peerStore pe)"
  defines "pe1 \<equiv> applyObservedEndpoint pe (pa_ObservedEndpoint a)"
  defines "info \<equiv> announced_peer a (sender_endpoint pe1 a addr)"
  shows "\<exists>p2 p3. handleReply env pe a addr =
      Inr ((case fmlookup (px_pendingReplies pe) (udp_string addr) of
              None \<Rightarrow> pe1\<lparr>px_peerStore := p3\<rparr>
            | Some ch \<Rightarrow> reply_try_send (pe1\<lparr>px_peerStore := p3\<rparr>) ch (reported (xe_now env) p2 info DHTMethod)), [])
    \<and> store_inv p2 \<and> store_inv p3
    \<and> peers p2 = peers (feed record_peer (px_peerStore pe)
        (transitive_reports (px_config pe) (px_localNode pe1) (DHTMethod @ ''-transitive'') (xe_now env) (pa_KnownPeers a)))
    \<and> peers p3 = peers (record_peer (xe_now env) p2 info DHTMethod)"
proof -
  have f: "px_peerStore pe1 = px_peerStore pe" "px_config pe1 = px_config pe" "px_pendingReplies pe1 = px_pendingReplies pe"
    unfolding pe1_def by (subst applyObserved_frame, simp)+
  obtain p2 where p2: "updateTransitivePeers (xe_now env) pe1 (pa_KnownPeers a) = Inr (pe1\<lparr>px_peerStore := p2\<rparr>)" "store_inv p2"
    "peers p2 = peers (feed record_peer (px_peerStore pe)
       (transitive_reports (px_config pe) (px_localNode pe1) (DHTMethod @ ''-transitive'') (xe_now env) (pa_KnownPeers a)))"
    using updateTransitive_ok [of pe1 "xe_now env" "pa_KnownPeers a"] assms(1) f by auto
  obtain p3 where "px_update (xe_now env) (pe1\<lparr>px_peerStore := p2\<rparr>) info DHTMethod = Inr (pe1\<lparr>px_peerStore := p3\<rparr>)"
    "store_inv p3" "peers p3 = peers (record_peer (xe_now env) p2 info DHTMethod)"
    using px_update_ok [of "pe1\<lparr>px_peerStore := p2\<rparr>" "xe_now env" info DHTMethod] p2(2) by auto
  with p2 f show ?thesis
    unfolding handleReply_def Let_def pe1_def [symmetric] info_def [symmetric]
    by (intro exI [of _ p2] exI [of _ p3]) (simp add: getPendingReplyChannel_def split: option.splits)
qed

section \<open>Texts of ASCII characters\<close>

text \<open>Keys, addresses and endpoints are ASCII texts, and every operation on them keeps them so.\<close>

definition ascii_str :: "string \<Rightarrow> bool" where
  "ascii_str s \<longleftrightarrow> list_all (\<lambda>c. ord_c c < 128) s"

named_theorems ascii \<open>texts that are ASCII\<close>

lemma ascii_valid: "ascii_str s \<Longrightarrow> utf8_valid s"
  by (simp add: ascii_str_def ascii_utf8)

lemma protocol_utf8: "utf8_valid ProtocolVersion"
  by (rule ascii_utf8) (simp add: ProtocolVersion_def)

lemma ascii_subset: "ascii_str s \<Longrightarrow> set t \<subseteq> set s \<Longrightarrow> ascii_str t"
  by (auto simp: ascii_str_def list_all_iff)

lemma ascii_basic [ascii, simp]: "ascii_str []" "ascii_str (s @ t) \<longleftrightarrow> ascii_str s \<and> ascii_str t"
  "ascii_str (c # s) \<longleftrightarrow> ord_c c < 128 \<and> ascii_str s"
  by (auto simp: ascii_str_def)

lemma ascii_join_with [ascii]: "ascii_str sep \<Longrightarrow> list_all ascii_str ws \<Longrightarrow> ascii_str (join_with sep ws)"
  by (induction sep ws rule: join_with.induct) auto

lemma is_digit_less: "is_digit c \<Longrightarrow> ord_c c < 128"
  by (simp add: is_digit_def)

lemma ascii_itoa_nat [ascii, simp]: "ascii_str (itoa_nat n)"
  using itoa_nat_digits [of n] by (auto simp: ascii_str_def list_all_iff is_digit_less)

lemma ascii_itoa [ascii, simp]: "ascii_str (itoa i)"
  by (simp add: itoa_def)

lemma hex_digit_less: "d < 16 \<Longrightarrow> ord_c (hex_digit d) < 128"
  by (auto simp: hex_digit_def)

lemma ascii_hex_nat [ascii, simp]: "ascii_str (hex_nat n)"
  by (induction n rule: hex_nat.induct) (subst hex_nat.simps, auto simp: hex_digit_less)

lemma ascii_ip_string [ascii, simp]: "ascii_str (ip_string ip)"
  by (auto simp: ip_string_def ipv4_string_def ipv6_string_def Let_def list_all_iff intro!: ascii_join_with
      split: option.splits)

lemma ascii_join_host_port [ascii, simp]: "ascii_str (join_host_port h p) \<longleftrightarrow> ascii_str h \<and> ascii_str p"
  by (auto simp: join_host_port_def)

lemma split_host_port_sets: "split_host_port s = Some (h, p) \<Longrightarrow> set h \<subseteq> set s \<and> set p \<subseteq> set s"
  by (auto simp: split_host_port_def split: option.splits if_splits dest: in_set_takeD in_set_dropD)

lemma ascii_split: "ascii_str s \<Longrightarrow> split_host_port s = Some (h, p) \<Longrightarrow> ascii_str h \<and> ascii_str p"
  using split_host_port_sets ascii_subset by metis

lemma ascii_udp_string [ascii]: "ascii_str (ua_Zone a) \<Longrightarrow> ascii_str (udp_string a)"
  by (auto simp: udp_string_def Let_def)

lemma ascii_resolve [ascii]: "ascii_str adv \<Longrightarrow> ascii_str (resolvePeerEndpoint adv sender)"
proof (cases "split_host_port adv")
  case (Some hp)
  assume "ascii_str adv"
  then have "ascii_str (fst hp) \<and> ascii_str (snd hp)" using Some ascii_split [of adv "fst hp" "snd hp"] by simp
  then show ?thesis using Some by (cases hp) (simp add: resolvePeerEndpoint_def Let_def)
qed (simp add: resolvePeerEndpoint_def Let_def)

lemma ascii_normalize [ascii]: "ascii_str e \<Longrightarrow> ascii_str (normalizeKnownPeerEndpoint e)"
  using normal_endpoint(1) [of e] by auto

lemma ascii_filter [ascii]: "ascii_str e \<Longrightarrow> ascii_str (filterEndpointForConfig e d)"
  using filter_endpoint(1) [of e d] by auto

definition peer_ascii :: "PeerInfo \<Rightarrow> bool" where
  "peer_ascii p \<longleftrightarrow> list_all ascii_str [WGPubKey p, Hostname p, MeshIP p, MeshIPv6 p, Endpoint p, NATType p]"

definition node_ascii :: "LocalNode \<Rightarrow> bool" where
  "node_ascii n \<longleftrightarrow> list_all ascii_str ([ln_WGPubKey n, ln_MeshIP n, ln_MeshIPv6 n, ln_NATType n, ln_Hostname n, ln_wgEndpoint n]
     @ ln_RoutableNetworks n)"

definition store_ascii :: "PeerStore \<Rightarrow> bool" where
  "store_ascii ps \<longleftrightarrow> fmpred (\<lambda>k p. peer_ascii p) (peers ps)"

definition announcement_ascii :: "PeerAnnouncement \<Rightarrow> bool" where
  "announcement_ascii a \<longleftrightarrow> list_all ascii_str ([pa_Protocol a, pa_WGPubKey a, pa_Hostname a, pa_MeshIP a, pa_MeshIPv6 a,
       pa_WGEndpoint a, pa_ObservedEndpoint a, pa_NATType a] @ pa_RoutableNetworks a)
     \<and> list_all (\<lambda>kp. list_all ascii_str [kp_WGPubKey kp, kp_Hostname kp, kp_MeshIP kp, kp_MeshIPv6 kp, kp_WGEndpoint kp,
         kp_NATType kp]) (pa_KnownPeers a)"

lemma announcement_ascii_utf8: "announcement_ascii a \<Longrightarrow> announcement_utf8 a"
  by (auto simp: announcement_ascii_def announcement_utf8_def KnownPeer_utf8_def list_all_iff ascii_valid)

lemma record_peer_ascii: "store_ascii ps \<Longrightarrow> peer_ascii i \<Longrightarrow> store_ascii (record_peer t ps i m)"
  unfolding store_ascii_def fmpred_iff
  by (auto simp: record_peer_lookup peer_ascii_def new_peer_def merge_peer_def merge_seen_def merge_fields_def merge_endpoint_def
      split: if_splits option.splits)

lemma feed_ascii: "store_ascii ps \<Longrightarrow> list_all (\<lambda>(t, i, m). peer_ascii i) rs \<Longrightarrow> store_ascii (feed record_peer ps rs)"
  by (induction rs arbitrary: ps) (auto simp: record_peer_ascii)

lemma announced_peers_ascii:
  assumes "announcement_ascii a"
  shows "peer_ascii (announced_peer a (sender_endpoint pe a addr))"
    and "list_all (\<lambda>(t, i, m). peer_ascii i) (transitive_reports cfg n m now (pa_KnownPeers a))"
  using assms
  by (auto simp: announcement_ascii_def peer_ascii_def announced_peer_def transitive_reports_def transitive_peer_def
      sender_endpoint_def list_all_iff intro!: ascii)

lemma known_peers_ascii:
  assumes "store_ascii (px_peerStore pe)" "kp \<in> set (xgetKnownPeers env pe)"
  shows "list_all ascii_str [kp_WGPubKey kp, kp_Hostname kp, kp_MeshIP kp, kp_MeshIPv6 kp, kp_WGEndpoint kp, kp_NATType kp]"
    and "kp_WGPubKey kp \<noteq> ln_WGPubKey (px_localNode pe)"
  using assms
  by (auto simp: xgetKnownPeers_def PeerStore_GetActive_def range_values_def store_ascii_def peer_ascii_def fmpred_iff
      List.map_filter_def)

lemma local_announcement_ascii:
  assumes "node_ascii (px_localNode pe)" "store_ascii (px_peerStore pe)"
  shows "announcement_ascii (local_announcement now (px_localNode pe) (xgetKnownPeers env pe))"
  using assms known_peers_ascii(1) [OF assms(2), of _ env]
  by (auto simp: announcement_ascii_def local_announcement_def CreateAnnouncement_def node_ascii_def GetEndpoint_def
      ProtocolVersion_def list_all_iff)

section \<open>Lemmas on a whole exchange\<close>

lemma record_peer_len: "go_len (peers (record_peer t ps i m)) \<le> Suc (go_len (peers ps))"
  by (auto simp: record_peer_def update_locked_def Let_def go_len_upd split: option.splits)

lemma feed_len: "go_len (peers (feed record_peer ps rs)) \<le> go_len (peers ps) + length rs"
proof (induction rs arbitrary: ps)
  case (Cons r rs)
  obtain t i m where "r = (t, i, m)" by (cases r)
  then show ?case using Cons.IH [of "record_peer t ps i m"] record_peer_len [of t ps i m] by simp
qed simp

lemma known_peers_len:
  assumes "valid_orders (xe_order env)"
  shows "length (xgetKnownPeers env pe) \<le> go_len (peers (px_peerStore pe))"
proof -
  have "range_order (peers (px_peerStore pe)) (xe_order env 0 (fmdom (peers (px_peerStore pe))))"
    using assms by (rule valid_orders_range)
  then have "length (range_values (peers (px_peerStore pe)) (xe_order env 0 (fmdom (peers (px_peerStore pe)))))
      = go_len (peers (px_peerStore pe))" by (rule range_values_length)
  then show ?thesis
    unfolding xgetKnownPeers_def PeerStore_GetActive_def length_map
    by (intro order_trans [OF length_filter_le] order_trans [OF length_filter_le]) simp
qed

text \<open>A peer that was just heard of with its mesh address.\<close>

definition heard_of :: "PeerStore \<Rightarrow> string \<Rightarrow> string \<Rightarrow> gotime \<Rightarrow> bool" where
  "heard_of ps k ip t \<longleftrightarrow> (case PeerStore_Get ps k of None \<Rightarrow> False | Some p \<Rightarrow> MeshIP p = ip \<and> LastSeen p = t)"

lemma announced_fields [simp]:
  "WGPubKey (announced_peer a e) = pa_WGPubKey a" "MeshIP (announced_peer a e) = pa_MeshIP a"
  "LastSeen (announced_peer a e) = zero_time" "Endpoint (announced_peer a e) = e"
  by (simp_all add: announced_peer_def)

lemma record_heard:
  assumes "go_len (peers ps) < DefaultMaxPeers" "pa_MeshIP a \<noteq> []"
  shows "heard_of (record_peer t ps (announced_peer a e) DHTMethod) (pa_WGPubKey a) (pa_MeshIP a) t"
proof -
  have "shouldRefreshLastSeen DHTMethod" by (simp add: shouldRefreshLastSeen_def isTransitiveMethod_def DHTMethod_def)
  then show ?thesis
    using assms
    by (auto simp: heard_of_def PeerStore_Get_def record_peer_lookup new_peer_def merge_peer_def merge_seen_def merge_fields_def
        merge_endpoint_def is_zero_def split: option.splits)
qed

lemma heard_of_peers: "peers a = peers b \<Longrightarrow> heard_of a k ip t = heard_of b k ip t"
  by (simp add: heard_of_def PeerStore_Get_def)

lemma heard_of_feed:
  "list_all (\<lambda>(t, i, m). WGPubKey i \<noteq> k) rs \<Longrightarrow> heard_of (feed record_peer ps rs) k ip t = heard_of ps k ip t"
  by (simp add: heard_of_def store_sink.feed_other)

lemma transitive_reports_other:
  "\<forall>kp \<in> set kps. kp_WGPubKey kp \<noteq> k \<Longrightarrow> list_all (\<lambda>(t, i, m). WGPubKey i \<noteq> k) (transitive_reports cfg n m now kps)"
  by (auto simp: transitive_reports_def transitive_peer_def list_all_iff)

lemma transitive_reports_len: "length (transitive_reports cfg n m now kps) \<le> length kps"
  by (simp add: transitive_reports_def)

lemma logIncoming_frame:
  "\<exists>m. logIncomingPacket now pe mt addr = pe\<lparr>px_lastPacketLog := m\<rparr>"
proof -
  have "pe = pe\<lparr>px_lastPacketLog := px_lastPacketLog pe\<rparr>" by simp
  then show ?thesis unfolding logIncomingPacket_def Let_def by (metis (full_types))
qed

lemma local_announcement_fields [simp]:
  "pa_WGPubKey (local_announcement now n kps) = ln_WGPubKey n" "pa_MeshIP (local_announcement now n kps) = ln_MeshIP n"
  "pa_KnownPeers (local_announcement now n kps) = kps" "pa_Protocol (local_announcement now n kps) = ProtocolVersion"
  "pa_Timestamp (local_announcement now n kps) = unix_of now" "pa_ObservedEndpoint (local_announcement now n kps) = []"
  by (simp_all add: local_announcement_def CreateAnnouncement_def)

lemma sealed_local:
  assumes "length key = 32" "length nonce = 12" "utf8_valid mt" "announcement_ascii a" "pa_Protocol a = ProtocolVersion"
    and "pa_Timestamp a = unix_of t" "clocks_close t t'"
  shows "\<exists>data env pt. SealEnvelope (Some nonce) mt (PeerAnnouncement_json a) key = Some data
    \<and> OpenEnvelopeRaw t' data key = Inr (env, pt) \<and> en_MessageType env = mt
    \<and> unmarshal PeerAnnouncement_member zero_announcement pt = Some a"
  using assms clocks_fresh [OF assms(7)]
  by (intro sealed_announcement) (auto simp: announcement_ascii_utf8 clocks_close_def)

text \<open>The answer to a HELLO: the sender is recorded and gets a REPLY.\<close>

lemma hello_answered:
  assumes "length (gossip_key B) = 32" "pa_WGPubKey a \<noteq> ln_WGPubKey (px_localNode B)" "pa_MeshIP a \<noteq> []"
    and "OpenEnvelopeRaw (xe_now e) data (gossip_key B) = Inr (env, pt)" "en_MessageType env = MessageTypeHello"
    and "unmarshal PeerAnnouncement_member zero_announcement pt = Some a" "announcement_ascii a"
    and "\<forall>kp \<in> set (pa_KnownPeers a). kp_WGPubKey kp \<noteq> pa_WGPubKey a"
    and "store_inv (px_peerStore B)" "store_ascii (px_peerStore B)" "node_ascii (px_localNode B)" "ascii_str (ua_Zone addr)"
    and "go_len (peers (px_peerStore B)) < DefaultMaxPeers" "valid_orders (xe_order e)"
    and "xe_nonce e 0 = Some nonce" "length nonce = 12" "xe_write e addr" "clocks_close (xe_now e) t'"
  shows "\<exists>B' reply r renv rpt. handleMessage e B data addr = Inr (B', [Sent addr reply])
    \<and> heard_of (px_peerStore B') (pa_WGPubKey a) (pa_MeshIP a) (xe_now e) \<and> px_config B' = px_config B
    \<and> OpenEnvelopeRaw t' reply (gossip_key B) = Inr (renv, rpt) \<and> en_MessageType renv = MessageTypeReply
    \<and> unmarshal PeerAnnouncement_member zero_announcement rpt = Some r \<and> announcement_ascii r
    \<and> pa_WGPubKey r = ln_WGPubKey (px_localNode B) \<and> pa_MeshIP r = ln_MeshIP (px_localNode B)
    \<and> pa_ObservedEndpoint r = udp_string addr
    \<and> (\<forall>kp \<in> set (pa_KnownPeers r). kp_WGPubKey kp \<noteq> pa_WGPubKey r)
    \<and> length (pa_KnownPeers r) \<le> Suc (go_len (peers (px_peerStore B)) + length (pa_KnownPeers a))"
proof -
  obtain lg where lg: "logIncomingPacket (xe_now e) B MessageTypeHello addr = B\<lparr>px_lastPacketLog := lg\<rparr>"
    using logIncoming_frame by blast
  let ?B0 = "B\<lparr>px_lastPacketLog := lg\<rparr>"
  let ?i = "announced_peer a (sender_endpoint ?B0 a addr)"
  let ?tr = "transitive_reports (px_config B) (px_localNode B) (DHTMethod @ ''-transitive'') (xe_now e) (pa_KnownPeers a)"
  obtain ps where ps: "handleHello e ?B0 a addr = Inr (?B0\<lparr>px_peerStore := ps\<rparr>, logged (sendReply e (?B0\<lparr>px_peerStore := ps\<rparr>) addr))"
    "store_inv ps" "peers ps = peers (feed record_peer (px_peerStore B) ((xe_now e, ?i, DHTMethod) # ?tr))"
    using handleHello_ok [of ?B0 a e addr] assms(2,9) by auto
  let ?B' = "?B0\<lparr>px_peerStore := ps\<rparr>"
  have heard: "heard_of ps (pa_WGPubKey a) (pa_MeshIP a) (xe_now e)"
    using record_heard [OF assms(13,3), of "xe_now e" "sender_endpoint ?B0 a addr"]
      heard_of_feed [OF transitive_reports_other [OF assms(8)]] heard_of_peers [OF ps(3)] by simp
  have asc: "store_ascii ps"
    using feed_ascii [OF assms(10), of "(xe_now e, ?i, DHTMethod) # ?tr"] announced_peers_ascii [OF assms(7)] ps(3)
    by (simp add: store_ascii_def)
  let ?r = "(local_announcement (xe_now e) (px_localNode ?B') (xgetKnownPeers e ?B'))\<lparr>pa_ObservedEndpoint := udp_string addr\<rparr>"
  have rasc: "announcement_ascii ?r"
    using local_announcement_ascii [of ?B' "xe_now e" e] asc assms(11) ascii_udp_string [OF assms(12)]
    by (simp add: announcement_ascii_def)
  obtain reply renv rpt where reply: "SealEnvelope (Some nonce) MessageTypeReply (PeerAnnouncement_json ?r) (gossip_key B) = Some reply"
    "OpenEnvelopeRaw t' reply (gossip_key B) = Inr (renv, rpt)" "en_MessageType renv = MessageTypeReply"
    "unmarshal PeerAnnouncement_member zero_announcement rpt = Some ?r"
    using sealed_local [OF assms(1,16) message_types_utf8(2) rasc _ _ assms(18)] by auto
  have "logged (sendReply e ?B' addr) = [Sent addr reply]"
    using reply(1) assms(15,17) by (simp add: sendReply_def Let_def write_sealed_def logged_def)
  then have hm: "handleMessage e B data addr = Inr (?B', [Sent addr reply])"
    using ps(1) lg assms(4-6) by (simp add: handleMessage_def dispatch_def)
  have "length (xgetKnownPeers e ?B') \<le> go_len (peers (px_peerStore ?B'))"
    by (rule known_peers_len [OF assms(14)])
  also have "\<dots> \<le> Suc (go_len (peers (px_peerStore B)) + length (pa_KnownPeers a))"
    using feed_len [of "px_peerStore B" "(xe_now e, ?i, DHTMethod) # ?tr"]
      transitive_reports_len [of "px_config B" "px_localNode B" "DHTMethod @ ''-transitive''" "xe_now e" "pa_KnownPeers a"] ps(3)
    by simp
  finally have len: "length (pa_KnownPeers ?r) \<le> Suc (go_len (peers (px_peerStore B)) + length (pa_KnownPeers a))" by simp
  have "\<forall>kp \<in> set (pa_KnownPeers ?r). kp_WGPubKey kp \<noteq> pa_WGPubKey ?r"
    using known_peers_ascii(2) [of ?B' _ e] asc by simp
  with hm heard reply(2-4) rasc len show ?thesis
    by (intro exI [of _ ?B'] exI [of _ reply] exI [of _ ?r] exI [of _ renv] exI [of _ rpt]) simp
qed

text \<open>A REPLY that is waited for: the sender is recorded and handed to the waiting call.\<close>

lemma reply_delivered:
  assumes "pa_MeshIP r \<noteq> []" "\<forall>kp \<in> set (pa_KnownPeers r). kp_WGPubKey kp \<noteq> pa_WGPubKey r"
    and "OpenEnvelopeRaw (xe_now e) data (gossip_key A) = Inr (env, pt)" "en_MessageType env = MessageTypeReply"
    and "unmarshal PeerAnnouncement_member zero_announcement pt = Some r"
    and "store_inv (px_peerStore A)" "go_len (peers (px_peerStore A)) + length (pa_KnownPeers r) < DefaultMaxPeers"
    and "fmlookup (px_pendingReplies A) (udp_string addr) = Some ch" "fmlookup (px_replyChans A) ch = Some []"
  shows "\<exists>A' info. handleMessage e A data addr = Inr (A', []) \<and> heard_of (px_peerStore A') (pa_WGPubKey r) (pa_MeshIP r) (xe_now e)
    \<and> fmlookup (px_replyChans A') ch = Some [info] \<and> WGPubKey info = pa_WGPubKey r \<and> MeshIP info = pa_MeshIP r"
proof -
  obtain lg where lg: "logIncomingPacket (xe_now e) A MessageTypeReply addr = A\<lparr>px_lastPacketLog := lg\<rparr>"
    using logIncoming_frame by blast
  let ?A0 = "A\<lparr>px_lastPacketLog := lg\<rparr>"
  let ?A1 = "applyObservedEndpoint ?A0 (pa_ObservedEndpoint r)"
  let ?i = "announced_peer r (sender_endpoint ?A1 r addr)"
  let ?tr = "transitive_reports (px_config ?A0) (px_localNode ?A1) (DHTMethod @ ''-transitive'') (xe_now e) (pa_KnownPeers r)"
  obtain p2 p3 where hr: "handleReply e ?A0 r addr = Inr ((case fmlookup (px_pendingReplies ?A0) (udp_string addr) of
              None \<Rightarrow> ?A1\<lparr>px_peerStore := p3\<rparr>
            | Some ch \<Rightarrow> reply_try_send (?A1\<lparr>px_peerStore := p3\<rparr>) ch (reported (xe_now e) p2 ?i DHTMethod)), [])"
    and p2: "peers p2 = peers (feed record_peer (px_peerStore ?A0) ?tr)"
    and p3: "peers p3 = peers (record_peer (xe_now e) p2 ?i DHTMethod)"
    using handleReply_ok [of ?A0 e r addr] assms(6) by auto
  let ?info = "reported (xe_now e) p2 ?i DHTMethod"
  let ?A2 = "reply_try_send (?A1\<lparr>px_peerStore := p3\<rparr>) ch ?info"
  have ch: "fmlookup (px_replyChans ?A1) ch = Some []"
    using assms(9) by (subst applyObserved_frame) simp
  have "handleMessage e A data addr = Inr (?A2, [])"
    using hr lg assms(3-5,8) by (simp add: handleMessage_def dispatch_def message_type_defs)
  moreover have "go_len (peers p2) < DefaultMaxPeers"
    using feed_len [of "px_peerStore A" ?tr] transitive_reports_len [of "px_config ?A0" "px_localNode ?A1" "DHTMethod @ ''-transitive''"
        "xe_now e" "pa_KnownPeers r"] assms(7) p2 by simp
  then have "heard_of p3 (pa_WGPubKey r) (pa_MeshIP r) (xe_now e)"
    using record_heard [OF _ assms(1)] heard_of_peers [OF p3] by simp
  then have "heard_of (px_peerStore ?A2) (pa_WGPubKey r) (pa_MeshIP r) (xe_now e)"
    using ch by (simp add: reply_try_send_def)
  moreover have "fmlookup (px_replyChans ?A2) ch = Some [?info]"
    using ch by (simp add: reply_try_send_def)
  moreover have "WGPubKey ?info = pa_WGPubKey r" "MeshIP ?info = pa_MeshIP r"
    by (auto simp: reported_def new_peer_def split: option.splits)
  ultimately show ?thesis by blast
qed

lemma pending_frame [simp]:
  "px_config (setPendingReplyChannel pe r c) = px_config pe" "px_localNode (setPendingReplyChannel pe r c) = px_localNode pe"
  "px_peerStore (setPendingReplyChannel pe r c) = px_peerStore pe"
  "xgetKnownPeers e (setPendingReplyChannel pe r c) = xgetKnownPeers e pe"
  "xgetKnownPeers e (pe\<lparr>px_replyChans := x, px_nextChan := n\<rparr>) = xgetKnownPeers e pe"
  by (simp_all add: setPendingReplyChannel_def xgetKnownPeers_def)

lemma hello_sent:
  assumes "xe_resolve e target = Some addr" "xe_write e addr" "xe_nonce e 0 = Some nonce" "length nonce = 12"
    and "length (gossip_key A) = 32" "node_ascii (px_localNode A)" "store_ascii (px_peerStore A)" "clocks_close (xe_now e) t'"
  defines "ch \<equiv> px_nextChan A"
  defines "A1 \<equiv> setPendingReplyChannel (A\<lparr>px_replyChans := fmupd ch [] (px_replyChans A), px_nextChan := Suc ch\<rparr>) (udp_string addr) ch"
  defines "a \<equiv> local_announcement (xe_now e) (px_localNode A) (xgetKnownPeers e A)"
  shows "\<exists>hello env pt. exchange_begin e A target =
      (Inr \<lparr>xw_remote = addr, xw_chan = ch, xw_data = hello\<rparr>, A1, [Sent addr hello])
    \<and> OpenEnvelopeRaw t' hello (gossip_key A) = Inr (env, pt) \<and> en_MessageType env = MessageTypeHello
    \<and> unmarshal PeerAnnouncement_member zero_announcement pt = Some a"
proof -
  have a: "announcement_ascii a" unfolding a_def by (rule local_announcement_ascii [OF assms(6,7)])
  from sealed_local [OF assms(5,4) message_types_utf8(1) a _ _ assms(8)] obtain hello env pt where
    h: "SealEnvelope (Some nonce) MessageTypeHello (PeerAnnouncement_json a) (gossip_key A) = Some hello"
    "OpenEnvelopeRaw t' hello (gossip_key A) = Inr (env, pt)" "en_MessageType env = MessageTypeHello"
    "unmarshal PeerAnnouncement_member zero_announcement pt = Some a" by (auto simp: a_def)
  then have "exchange_begin e A target = (Inr \<lparr>xw_remote = addr, xw_chan = ch, xw_data = hello\<rparr>, A1, [Sent addr hello])"
    using assms(1-3) by (simp add: exchange_begin_def Let_def A1_def ch_def a_def)
  with h show ?thesis by blast
qed

section \<open>Lemmas on rendezvous\<close>

text \<open>The source of a datagram over IPv4.\<close>

definition v4_source :: "UDPAddr \<Rightarrow> bool" where
  "v4_source a \<longleftrightarrow> length (ua_IP a) = 4 \<and> ua_IP a \<noteq> [0, 0, 0, 0] \<and> 0 < ua_Port a \<and> ua_Port a \<le> 65535 \<and> ua_Zone a = []"

lemma ipv4_string_chars: "set (ipv4_string q) \<subseteq> {c. is_digit c} \<union> {CHR ''.''}"
proof -
  have "set (join_with ''.'' (map (\<lambda>b. itoa_nat (unat b)) q)) \<subseteq> {c. is_digit c} \<union> {CHR ''.''}"
  proof (induction q)
    case (Cons b q)
    then show ?case using itoa_nat_digits [of "unat b"] by (cases q) (auto simp: list_all_iff)
  qed simp
  then show ?thesis by (simp add: ipv4_string_def)
qed

lemma v4_udp_string:
  assumes "v4_source a"
  shows "udp_string a = join_host_port (ipv4_string (ua_IP a)) (itoa (ua_Port a))"
    and "split_host_port (udp_string a) = Some (ipv4_string (ua_IP a), itoa (ua_Port a))"
    and "parse_ip (ipv4_string (ua_IP a)) = Some (v4_in_v6 (ua_IP a))"
proof -
  have q: "length (ua_IP a) = 4" using assms by (simp add: v4_source_def)
  show u: "udp_string a = join_host_port (ipv4_string (ua_IP a)) (itoa (ua_Port a))"
    using assms by (auto simp: v4_source_def udp_string_def ip_string_def to4_def)
  have no: "c \<notin> set (ipv4_string (ua_IP a))" if "\<not> is_digit c" "c \<noteq> CHR ''.''" for c
    using ipv4_string_chars that by blast
  have nd: "c \<notin> set (itoa (ua_Port a))" if "\<not> is_digit c" for c
    using not_digit_itoa [OF that] assms by (simp add: itoa_def v4_source_def)
  show "split_host_port (udp_string a) = Some (ipv4_string (ua_IP a), itoa (ua_Port a))"
    unfolding u by (rule split_join_host_port) (simp_all add: no nd is_digit_def)
  show "parse_ip (ipv4_string (ua_IP a)) = Some (v4_in_v6 (ua_IP a))"
    by (rule parse_ip_ipv4_string [OF q])
qed

lemma v4_candidate:
  assumes "v4_source a"
  shows "normalizeKnownPeerEndpoint (udp_string a) = udp_string a" "udp_string a \<noteq> []"
    "\<not> exchange_isIPv6Endpoint (udp_string a)" "udp_string a \<in> near_candidates s (udp_string a)"
proof -
  let ?h = "ipv4_string (ua_IP a)"
  note v = v4_udp_string [OF assms]
  have q: "length (ua_IP a) = 4" "ua_IP a \<noteq> [0, 0, 0, 0]" using assms by (simp_all add: v4_source_def)
  have "parse_ip [] = None" "parse_ip ''0.0.0.0'' = Some (v4_in_v6 [0, 0, 0, 0])" "parse_ip ''::'' = Some (replicate 16 0)"
    by (simp_all add: ipv6_eval) code_simp
  moreover have "v4_in_v6 (ua_IP a) \<noteq> v4_in_v6 [0, 0, 0, 0]" using q by (simp add: v4_in_v6_def)
  moreover have "v4_in_v6 (ua_IP a) \<noteq> replicate 16 0"
  proof
    assume "v4_in_v6 (ua_IP a) = replicate 16 0"
    then have "v4_in_v6 (ua_IP a) ! 10 = 0" by simp
    then show False by (simp add: v4_in_v6_def nth_append)
  qed
  ultimately have host: "\<not> unset_host ?h" using v(3) by (intro notI) auto
  show "udp_string a \<noteq> []" using v(1) by (auto simp: join_host_port_def)
  then show "normalizeKnownPeerEndpoint (udp_string a) = udp_string a"
    using v(2) host by (simp add: normalizeKnownPeerEndpoint_def)
  show "\<not> exchange_isIPv6Endpoint (udp_string a)"
    using v(2,3) q by (simp add: exchange_isIPv6Endpoint_def)
  have "atoi (itoa (ua_Port a)) = Some (ua_Port a)" using assms by (intro atoi_itoa64) (simp add: v4_source_def)
  then show "udp_string a \<in> near_candidates s (udp_string a)"
    using v(1,2) by (simp add: near_candidates_def spread_ports_set)
qed

lemma observed_candidate:
  assumes "v4_source a"
  shows "udp_string a \<in> set (offer_candidates pe offer a)"
proof -
  let ?cs = "normalizeCandidates (of_Candidates offer @ [udp_string a])"
  note v = v4_candidate [OF assms]
  have "udp_string a \<in> set ?cs" using v by (simp add: normalizeCandidates_set)
  then have "udp_string a \<in> set (expandCandidatePorts ?cs RendezvousPortSpread)"
    using v(4) expandCandidatePorts_set(1) [of RendezvousPortSpread ?cs] by (auto simp: RendezvousPortSpread_def)
  then show ?thesis using v(2,3) by (simp add: offer_candidates_def filterCandidates_set)
qed

lemma near_candidates_ascii:
  assumes "ascii_str c" "x \<in> near_candidates s c"
  shows "ascii_str x"
proof -
  obtain h p q where "split_host_port c = Some (h, p)" "x = join_host_port h (itoa q)"
    using assms(2) by (auto simp: near_candidates_def split: option.splits)
  then show ?thesis using ascii_split [OF assms(1)] by simp
qed

lemma offer_candidates_ascii:
  assumes "list_all ascii_str (of_Candidates offer)" "ascii_str (ua_Zone a)"
  shows "list_all ascii_str (offer_candidates pe offer a)"
proof -
  have "ascii_str c" if "c \<in> set (normalizeCandidates (of_Candidates offer @ [udp_string a]))" for c
    using that assms ascii_udp_string by (auto simp: normalizeCandidates_set list_all_iff)
  then show ?thesis
    using near_candidates_ascii
    by (auto simp: offer_candidates_def filterCandidates_set expandCandidatePorts_set RendezvousPortSpread_def list_all_iff)
qed

lemma pairID_ascii: "ascii_str (pairIDForPeers k k')"
proof -
  have "ascii_str (replicate n CHR ''0'')" for n by (simp add: ascii_str_def list_all_iff)
  then show ?thesis by (simp add: pairIDForPeers_def Let_def)
qed

text \<open>The offers that an introducer acts on.\<close>

definition introduces :: "PeerExchange \<Rightarrow> rendezvousOffer \<Rightarrow> bool" where
  "introduces pe offer \<longleftrightarrow> \<not> cfg_DisablePunching (px_config pe) \<and> of_FromPubKey offer \<noteq> [] \<and> of_TargetPubKey offer \<noteq> []
     \<and> of_FromPubKey offer \<noteq> ln_WGPubKey (px_localNode pe) \<and> of_TargetPubKey offer \<noteq> ln_WGPubKey (px_localNode pe)
     \<and> ln_Introducer (px_localNode pe)
     \<and> (of_PairID offer = [] \<or> of_PairID offer = pairIDForPeers (of_FromPubKey offer) (of_TargetPubKey offer))"

lemma handleOffer_cases:
  "handleRendezvousOffer e I offer a = (if introduces I offer
     then pair_offer e I offer a (pairIDForPeers (of_FromPubKey offer) (of_TargetPubKey offer)) else (I, []))"
  by (auto simp: handleRendezvousOffer_def introduces_def Let_def)

definition offer_session :: "gotime \<Rightarrow> PeerExchange \<Rightarrow> rendezvousOffer \<Rightarrow> UDPAddr \<Rightarrow> rendezvousState" where
  "offer_session now pe offer a = record_offer pe offer a (pairIDForPeers (of_FromPubKey offer) (of_TargetPubKey offer))
     \<lparr>rv_offers = fmempty, rv_endpoints = fmempty, rv_createdAt = now\<rparr>"

lemma expire_frame:
  "\<exists>ss st ap. expire_rendezvous now pe = pe\<lparr>px_rendezvousSessions := ss, px_rendezvousStarts := st, px_activePunches := ap\<rparr>"
  by (auto simp: expire_rendezvous_def)

lemma expire_lookup:
  "fmlookup (px_rendezvousSessions (expire_rendezvous now pe)) k = (case fmlookup (px_rendezvousSessions pe) k of
     None \<Rightarrow> None | Some st \<Rightarrow> if time_sub now (rv_createdAt st) > RendezvousSessionTTL then None else Some st)"
  "fmlookup (px_rendezvousStarts pe) k = None \<Longrightarrow> fmlookup (px_rendezvousStarts (expire_rendezvous now pe)) k = None"
  by (auto simp: expire_rendezvous_def younger_def split: option.splits)

lemma offer_waits:
  assumes "introduces I offer" "of_FromPubKey offer \<noteq> of_TargetPubKey offer"
    and "fmlookup (px_rendezvousSessions I) (pairIDForPeers (of_FromPubKey offer) (of_TargetPubKey offer)) = None"
    and "PeerStore_Get (px_peerStore I) (of_TargetPubKey offer) = None"
  shows "\<exists>ss st ap. handleRendezvousOffer e I offer a =
      (I\<lparr>px_rendezvousSessions := fmupd (pairIDForPeers (of_FromPubKey offer) (of_TargetPubKey offer))
            (offer_session (xe_now e) I offer a) ss, px_rendezvousStarts := st, px_activePunches := ap\<rparr>, [])
    \<and> (\<forall>k. fmlookup (px_rendezvousStarts I) k = None \<longrightarrow> fmlookup st k = None)"
proof -
  let ?p = "pairIDForPeers (of_FromPubKey offer) (of_TargetPubKey offer)"
  let ?I1 = "expire_rendezvous (xe_now e) I"
  obtain ss st ap where I1: "?I1 = I\<lparr>px_rendezvousSessions := ss, px_rendezvousStarts := st, px_activePunches := ap\<rparr>"
    using expire_frame by blast
  have none: "fmlookup ss ?p = None"
    using expire_lookup(1) [of "xe_now e" I ?p] assms(3) I1 by simp
  have starts: "fmlookup (px_rendezvousStarts I) k = None \<longrightarrow> fmlookup st k = None" for k
    using expire_lookup(2) [of I k "xe_now e"] I1 by simp
  have s: "synthesize_target e I offer ?p (offer_session (xe_now e) I offer a) = offer_session (xe_now e) I offer a"
    using assms(2,4) by (simp add: synthesize_target_def offer_session_def record_offer_def Let_def)
  have t: "fmlookup (rv_offers (offer_session (xe_now e) I offer a)) (of_TargetPubKey offer) = None"
    using assms(2) by (simp add: offer_session_def record_offer_def Let_def)
  have "handleRendezvousOffer e I offer a = (?I1\<lparr>px_rendezvousSessions := fmupd ?p (offer_session (xe_now e) I offer a)
      (px_rendezvousSessions ?I1)\<rparr>, [])"
    using assms(1) s t none unfolding offer_session_def
    by (simp add: handleOffer_cases pair_offer_def Let_def I1 split: option.splits)
  then show ?thesis using I1 starts by (intro exI [of _ ss] exI [of _ st] exI [of _ ap]) simp
qed

text \<open>The offer of the second peer of a pair completes its session.\<close>

lemma offer_completes:
  assumes "introduces I offer" "k \<noteq> k'" "of_FromPubKey offer = k" "of_TargetPubKey offer = k'" "pairIDForPeers k k' = p"
    and "fmlookup (px_rendezvousSessions I) p = Some st"
    and "xe_now e - rv_createdAt st \<le> RendezvousSessionTTL"
    and "fmlookup (rv_offers st) k' = Some b" "of_FromPubKey b = k'"
    and "fmlookup (rv_endpoints st) k' = Some ep"
    and "fmlookup (px_rendezvousStarts I) p = None"
  shows "\<exists>I2. handleRendezvousOffer e I offer a = (I2,
      sendRendezvousStart e 0 I p (udp_string a)
        k' (of_Candidates b) (xe_now e + RendezvousStartLeadTime)
      @ sendRendezvousStart e 1 I p ep
        k (offer_candidates I offer a) (xe_now e + RendezvousStartLeadTime))
    \<and> fmlookup (px_rendezvousSessions I2) p = None
    \<and> fmlookup (px_rendezvousStarts I2) p = Some (xe_now e)"
proof -
  let ?p = p
  let ?I1 = "expire_rendezvous (xe_now e) I"
  have "\<not> time_sub (xe_now e) (rv_createdAt st) > RendezvousSessionTTL"
    using assms(7) by (auto simp: time_sub_def max_duration_def min_duration_def RendezvousSessionTTL_def Second_def)
  then have ses: "fmlookup (px_rendezvousSessions ?I1) ?p = Some st"
    using expire_lookup(1) [of "xe_now e" I ?p] assms(6) by simp
  have starts: "fmlookup (px_rendezvousStarts ?I1) ?p = None"
    by (rule expire_lookup(2) [OF assms(11)])
  let ?st = "record_offer I offer a ?p st"
  have r: "fmlookup (rv_offers ?st) k' = Some b" "go_index [] (rv_endpoints ?st) k' = ep"
    "go_index [] (rv_endpoints ?st) k = udp_string a"
    "map_option (\<lambda>o1. (of_FromPubKey o1, of_Candidates o1)) (fmlookup (rv_offers ?st) k)
       = Some (k, offer_candidates I offer a)"
    using assms(2,3,4,8,10) by (auto simp: record_offer_def Let_def go_index_def)
  then obtain o1 where o1: "fmlookup (rv_offers ?st) k = Some o1" "of_FromPubKey o1 = k"
    "of_Candidates o1 = offer_candidates I offer a" by auto
  have s: "synthesize_target e I offer ?p ?st = ?st" using r(1) assms(4) by (simp add: synthesize_target_def)
  show ?thesis
    using assms(1,3,4,5) ses starts r(1-3) o1 assms(9) s
    by (simp add: handleOffer_cases pair_offer_def Let_def)
qed

definition start_message :: "xenv \<Rightarrow> PeerExchange \<Rightarrow> string \<Rightarrow> string \<Rightarrow> string list \<Rightarrow> gotime \<Rightarrow> rendezvousStart" where
  "start_message e pe pairID peer cands startAt = \<lparr>st_Protocol = ProtocolVersion, st_Timestamp = unix_of (xe_now e), st_PairID = pairID,
     st_PeerPubKey = peer,
     st_PeerCandidates = filterCandidatesForConfig (normalizeCandidates cands) (cfg_DisableIPv6 (px_config pe)),
     st_StartAtUnixMs = unix_milli startAt, st_IntroducerKey = ln_WGPubKey (px_localNode pe)\<rparr>"

lemma start_sent:
  assumes "xe_resolve e ep = Some addr" "ep \<noteq> []" "peer \<noteq> []" "xe_write e addr" "xe_nonce e i = Some nonce" "length nonce = 12"
    and "length (gossip_key pe) = 32" "ascii_str peer" "ascii_str pairID" "list_all ascii_str cands"
    and "ascii_str (ln_WGPubKey (px_localNode pe))" "int64 (unix_milli startAt)" "clocks_close (xe_now e) t'"
  shows "\<exists>data env pt. sendRendezvousStart e i pe pairID ep peer cands startAt = [Sent addr data]
    \<and> OpenEnvelopeRaw t' data (gossip_key pe) = Inr (env, pt) \<and> en_MessageType env = MessageTypeRendezvousStart
    \<and> unmarshal start_member zero_start pt = Some (start_message e pe pairID peer cands startAt)"
proof -
  let ?m = "start_message e pe pairID peer cands startAt"
  have ts: "int64 (st_Timestamp ?m)" "int64 (st_StartAtUnixMs ?m)"
    using assms(12,13) by (simp_all add: start_message_def clocks_close_def)
  have "list_all utf8_valid ([st_Protocol ?m, st_PairID ?m, st_PeerPubKey ?m, st_IntroducerKey ?m] @ st_PeerCandidates ?m)"
    using assms(8-11) protocol_utf8
    by (auto simp: start_message_def filterCandidates_set normalizeCandidates_set list_all_iff intro!: ascii_valid)
  then have wf: "json_wf (start_json ?m)" by (rule start_json_wf [OF ts])
  have meta: "set_struct meta_member (start_json ?m) ([], 0) = Some (ProtocolVersion, unix_of (xe_now e))"
    using start_roundtrip(2) [OF ts] by (simp add: start_message_def)
  from sealed_opens [OF assms(7,6) message_types_utf8(6) wf meta clocks_fresh [OF assms(13)]]
  obtain data env where d: "SealEnvelope (Some nonce) MessageTypeRendezvousStart (start_json ?m) (gossip_key pe) = Some data"
    "OpenEnvelopeRaw t' data (gossip_key pe) = Inr (env, bytes_of (json_text (start_json ?m)))"
    "en_MessageType env = MessageTypeRendezvousStart" by blast
  have "sendRendezvousStart e i pe pairID ep peer cands startAt = [Sent addr data]"
    using assms(1-5) d(1) by (simp add: sendRendezvousStart_def Let_def start_message_def write_sealed_def logged_def)
  moreover have "unmarshal start_member zero_start (bytes_of (json_text (start_json ?m))) = Some ?m"
    by (simp add: unmarshal_text [OF wf] start_roundtrip(1) [OF ts])
  ultimately show ?thesis using d(2,3) by blast
qed

lemma start_accepted:
  assumes "OpenEnvelopeRaw (xe_now e) data (gossip_key N) = Inr (env, pt)" "en_MessageType env = MessageTypeRendezvousStart"
    and "unmarshal start_member zero_start pt = Some start" "\<not> cfg_DisablePunching (px_config N)"
    and "st_PeerPubKey start \<noteq> []" "st_PairID start = pairIDForPeers (ln_WGPubKey (px_localNode N)) (st_PeerPubKey start)"
    and "0 < st_StartAtUnixMs start" "v4_source a" "udp_string a \<in> set (st_PeerCandidates start)"
    and "fmlookup (px_activePunches N) (st_PairID start) = None"
  shows "\<exists>N' cs. handleMessage e N data addr = Inr (N', [Punch (st_PairID start) (st_PeerPubKey start) cs
      (st_StartAtUnixMs start * Millisecond)]) \<and> udp_string a \<in> set cs"
proof -
  obtain lg where lg: "logIncomingPacket (xe_now e) N MessageTypeRendezvousStart addr = N\<lparr>px_lastPacketLog := lg\<rparr>"
    using logIncoming_frame by blast
  let ?N0 = "N\<lparr>px_lastPacketLog := lg\<rparr>"
  let ?cs = "filterCandidatesForConfig (normalizeCandidates (st_PeerCandidates start)) (cfg_DisableIPv6 (px_config N))"
  have cs: "udp_string a \<in> set ?cs"
    using v4_candidate [OF assms(8)] assms(9) by (simp add: filterCandidates_set normalizeCandidates_set)
  have "length (st_PairID start) = 16" by (simp add: assms(6) pairID_length)
  then have ne: "?cs \<noteq> []" "st_PairID start \<noteq> []" using cs by auto
  have "handleRendezvousStart e ?N0 start addr = (?N0\<lparr>px_activePunches := fmupd (st_PairID start) (xe_now e) (px_activePunches N)\<rparr>,
      [Punch (st_PairID start) (st_PeerPubKey start) ?cs (st_StartAtUnixMs start * Millisecond)])"
    using assms(4,5,7,10) ne by (simp add: handleRendezvousStart_def Let_def beginPunchJob_def assms(6) [symmetric])
  then have "handleMessage e N data addr = Inr (?N0\<lparr>px_activePunches := fmupd (st_PairID start) (xe_now e) (px_activePunches N)\<rparr>,
      [Punch (st_PairID start) (st_PeerPubKey start) ?cs (st_StartAtUnixMs start * Millisecond)])"
    using lg assms(1-3) by (simp add: handleMessage_def dispatch_def message_type_defs)
  with cs show ?thesis by blast
qed

section \<open>Frames of the handlers\<close>

lemma unchanged [simp]:
  "\<exists>ps. pe = pe\<lparr>px_peerStore := ps\<rparr>" "\<exists>ap. pe = pe\<lparr>px_activePunches := ap\<rparr>"
  by (rule exI [of _ "px_peerStore pe"], simp) (rule exI [of _ "px_activePunches pe"], simp)

lemma px_update_frame: "px_update now pe info m = Inr pe' \<Longrightarrow> \<exists>ps. pe' = pe\<lparr>px_peerStore := ps\<rparr>"
  by (auto simp: px_update_def and_then_Inr)

lemma updateTransitive_frame: "updateTransitivePeers now pe kps = Inr pe' \<Longrightarrow> \<exists>ps. pe' = pe\<lparr>px_peerStore := ps\<rparr>"
  by (auto simp: updateTransitivePeers_def and_then_Inr)

lemma handleHello_frame:
  assumes "handleHello e pe a addr = Inr (pe', es)"
  shows "\<exists>ps. pe' = pe\<lparr>px_peerStore := ps\<rparr>"
proof (cases "pa_WGPubKey a = ln_WGPubKey (px_localNode pe)")
  case True
  with assms show ?thesis by (simp add: handleHello_def)
next
  case False
  then obtain pe1 where "px_update (xe_now e) pe (announced_peer a (sender_endpoint pe a addr)) DHTMethod = Inr pe1"
    "updateTransitivePeers (xe_now e) pe1 (pa_KnownPeers a) = Inr pe'"
    using assms by (auto simp: handleHello_def and_then_Inr)
  then show ?thesis using px_update_frame updateTransitive_frame by fastforce
qed

lemma handleReply_frame:
  assumes "handleReply e pe a addr = Inr (pe', es)"
  shows "\<exists>ps ep. (case fmlookup (px_pendingReplies pe) (udp_string addr) of
      None \<Rightarrow> pe' = pe\<lparr>px_localNode := (px_localNode pe)\<lparr>ln_wgEndpoint := ep\<rparr>, px_peerStore := ps\<rparr>
    | Some ch \<Rightarrow> \<exists>info. pe' = reply_try_send (pe\<lparr>px_localNode := (px_localNode pe)\<lparr>ln_wgEndpoint := ep\<rparr>, px_peerStore := ps\<rparr>) ch info)"
proof -
  let ?pe1 = "applyObservedEndpoint pe (pa_ObservedEndpoint a)"
  obtain ep where ep: "?pe1 = pe\<lparr>px_localNode := (px_localNode pe)\<lparr>ln_wgEndpoint := ep\<rparr>\<rparr>"
    using applyObserved_frame [of pe "pa_ObservedEndpoint a"] by blast
  obtain pe2 pe3 where h: "updateTransitivePeers (xe_now e) ?pe1 (pa_KnownPeers a) = Inr pe2"
    "px_update (xe_now e) pe2 (announced_peer a (sender_endpoint ?pe1 a addr)) DHTMethod = Inr pe3"
    "(case getPendingReplyChannel pe3 (udp_string addr) of
        Some ch \<Rightarrow> Inr (reply_try_send pe3 ch (reported (xe_now e) (px_peerStore pe2) (announced_peer a (sender_endpoint ?pe1 a addr)) DHTMethod), [])
      | None \<Rightarrow> Inr (pe3, [])) = (Inr (pe', es) :: (PeerExchange \<times> xeffect list) go)"
    using assms unfolding handleReply_def Let_def and_then_Inr by blast
  obtain ps where "pe3 = ?pe1\<lparr>px_peerStore := ps\<rparr>"
    using px_update_frame [OF h(2)] updateTransitive_frame [OF h(1)] by auto
  then have "pe3 = pe\<lparr>px_localNode := (px_localNode pe)\<lparr>ln_wgEndpoint := ep\<rparr>, px_peerStore := ps\<rparr>" using ep by simp
  with h(3) show ?thesis
    by (intro exI [of _ ps] exI [of _ ep]) (auto simp: getPendingReplyChannel_def split: option.splits)
qed

lemma pair_case_fst:
  "fst (case (x, y) of (Some a, Some b) \<Rightarrow> if c then (p, []) else (q, f a b) | _ \<Rightarrow> (p, [])) \<in> {p, q}"
  by (auto split: option.splits)

lemma pair_offer_state:
  "\<exists>ss. fst (pair_offer e pe offer a p) \<in> {(expire_rendezvous (xe_now e) pe)\<lparr>px_rendezvousSessions := ss\<rparr>,
     (expire_rendezvous (xe_now e) pe)\<lparr>px_rendezvousSessions := ss,
        px_rendezvousStarts := fmupd p (xe_now e) (px_rendezvousStarts ((expire_rendezvous (xe_now e) pe)\<lparr>px_rendezvousSessions := ss\<rparr>)),
        px_rendezvousSessions := fmdrop p (px_rendezvousSessions ((expire_rendezvous (xe_now e) pe)\<lparr>px_rendezvousSessions := ss\<rparr>))\<rparr>}"
  unfolding pair_offer_def Let_def by (rule exI, rule pair_case_fst)

lemma offer_frame:
  defines "r \<equiv> \<lambda>e pe offer a. fst (handleRendezvousOffer e pe offer a)"
  shows "px_config (r e pe offer a) = px_config pe" "px_localNode (r e pe offer a) = px_localNode pe"
    "px_peerStore (r e pe offer a) = px_peerStore pe" "px_pendingReplies (r e pe offer a) = px_pendingReplies pe"
    "px_replyChans (r e pe offer a) = px_replyChans pe" "px_nextChan (r e pe offer a) = px_nextChan pe"
    "px_announceHandler (r e pe offer a) = px_announceHandler pe" "px_running (r e pe offer a) = px_running pe"
  using pair_offer_state [of e pe offer a "pairIDForPeers (of_FromPubKey offer) (of_TargetPubKey offer)"]
  by (auto simp: r_def handleOffer_cases expire_rendezvous_def)

lemma start_frame: "\<exists>ap. fst (handleRendezvousStart e pe start a) = pe\<lparr>px_activePunches := ap\<rparr>"
  by (auto simp: handleRendezvousStart_def beginPunchJob_def Let_def split: option.splits)

lemma goodbye_frame: "\<exists>ps. handleGoodbye now pe bye = pe\<lparr>px_peerStore := ps\<rparr>"
  by (auto simp: handleGoodbye_def)

lemma try_send_frame:
  "px_config (reply_try_send pe ch i) = px_config pe" "px_localNode (reply_try_send pe ch i) = px_localNode pe"
  "px_peerStore (reply_try_send pe ch i) = px_peerStore pe" "px_pendingReplies (reply_try_send pe ch i) = px_pendingReplies pe"
  "px_nextChan (reply_try_send pe ch i) = px_nextChan pe" "px_announceHandler (reply_try_send pe ch i) = px_announceHandler pe"
  "px_running (reply_try_send pe ch i) = px_running pe"
  by (simp_all add: reply_try_send_def split: option.splits list.splits)

lemma dispatch_cases:
  "dispatch e pe mt pt addr = Inr (pe', es) \<Longrightarrow>
     pe' = pe \<or> (\<exists>a. handleHello e pe a addr = Inr (pe', es)) \<or> (\<exists>a. handleReply e pe a addr = Inr (pe', es))
     \<or> (\<exists>ps. pe' = pe\<lparr>px_peerStore := ps\<rparr>) \<or> (\<exists>offer. handleRendezvousOffer e pe offer addr = (pe', es))
     \<or> (\<exists>start. handleRendezvousStart e pe start addr = (pe', es)) \<or> (\<exists>bye. pe' = handleGoodbye (xe_now e) pe bye)"
  by (auto simp: dispatch_def and_then_Inr split: if_split_asm option.split_asm)

text \<open>What a message leaves as it is.\<close>

definition same_frame :: "UDPAddr \<Rightarrow> PeerExchange \<Rightarrow> PeerExchange \<Rightarrow> bool" where
  "same_frame addr pe pe' \<longleftrightarrow> px_config pe' = px_config pe \<and> px_pendingReplies pe' = px_pendingReplies pe
    \<and> px_nextChan pe' = px_nextChan pe \<and> (px_localNode pe')\<lparr>ln_wgEndpoint := []\<rparr> = (px_localNode pe)\<lparr>ln_wgEndpoint := []\<rparr>
    \<and> px_announceHandler pe' = px_announceHandler pe \<and> px_running pe' = px_running pe
    \<and> (fmlookup (px_pendingReplies pe) (udp_string addr) = None \<longrightarrow> px_replyChans pe' = px_replyChans pe)"

lemma dispatch_frame:
  assumes "dispatch e pe mt pt addr = Inr (pe', es)"
  shows "same_frame addr pe pe'"
  using dispatch_cases [OF assms]
proof (elim disjE exE)
  fix a assume h: "handleHello e pe a addr = Inr (pe', es)"
  show ?thesis using handleHello_frame [OF h] by (auto simp: same_frame_def)
next
  fix a assume h: "handleReply e pe a addr = Inr (pe', es)"
  show ?thesis using handleReply_frame [OF h]
    by (auto simp: same_frame_def try_send_frame split: option.splits)
next
  fix offer assume "handleRendezvousOffer e pe offer addr = (pe', es)"
  then show ?thesis using offer_frame [of e pe offer addr] by (simp add: same_frame_def)
next
  fix start assume "handleRendezvousStart e pe start addr = (pe', es)"
  then show ?thesis using start_frame [of e pe start addr] by (auto simp: same_frame_def)
next
  fix bye assume "pe' = handleGoodbye (xe_now e) pe bye"
  then show ?thesis using goodbye_frame [of "xe_now e" pe bye] by (auto simp: same_frame_def)
qed (auto simp: same_frame_def)

lemma handleMessage_frame:
  assumes "handleMessage e pe data addr = Inr (pe', es)"
  shows "same_frame addr pe pe'"
proof (cases "OpenEnvelopeRaw (xe_now e) data (gossip_key pe)")
  case (Inr ep)
  obtain lg where "logIncomingPacket (xe_now e) pe (en_MessageType (fst ep)) addr = pe\<lparr>px_lastPacketLog := lg\<rparr>"
    using logIncoming_frame by blast
  then have "dispatch e (pe\<lparr>px_lastPacketLog := lg\<rparr>) (en_MessageType (fst ep)) (snd ep) addr = Inr (pe', es)"
    using assms Inr by (cases ep) (simp add: handleMessage_def)
  from dispatch_frame [OF this] show ?thesis by (simp add: same_frame_def)
qed (use assms in \<open>simp add: handleMessage_def same_frame_def\<close>)

text \<open>A call whose channel is not registered for the address of its peer never returns a reply of that peer.\<close>

definition from_addr :: "UDPAddr \<Rightarrow> wait_event \<Rightarrow> bool" where
  "from_addr addr ev = (case ev of Incoming e data a \<Rightarrow> a = addr | _ \<Rightarrow> True)"

lemma unregistered_wait:
  assumes "list_all (from_addr (xw_remote w)) evs" "fmlookup (px_pendingReplies pe) (udp_string (xw_remote w)) = None"
    and "fmlookup (px_replyChans pe) (xw_chan w) = Some []" "exchange_wait w pe out evs = Some (Inr (r, pe', out'))"
  shows "r = Inl ExchangeTimedOut"
  using assms
proof (induction evs arbitrary: pe out)
  case (Cons ev evs)
  show ?case
  proof (cases ev)
    case (Incoming e data a)
    then have a: "a = xw_remote w" using Cons.prems(1) by (simp add: from_addr_def)
    with Incoming Cons.prems(4) obtain pe1 es where h: "handleMessage e pe data (xw_remote w) = Inr (pe1, es)"
      "exchange_wait w pe1 (out @ es) evs = Some (Inr (r, pe', out'))" by (auto split: sum.splits)
    have "same_frame (xw_remote w) pe pe1" by (rule handleMessage_frame [OF h(1)])
    then show ?thesis using Cons.IH [of pe1 "out @ es"] Cons.prems h(2) by (simp add: same_frame_def)
  next
    case (PunchTick e)
    then show ?thesis using Cons.IH Cons.prems by (auto split: if_splits)
  next
    case TakeReply
    then show ?thesis using Cons.IH Cons.prems by simp
  next
    case TimedOut
    then show ?thesis using Cons.prems by simp
  qed
qed simp

lemma exchange_begin_Inr:
  assumes "exchange_begin e A target = (Inr w, A1, es)"
  shows "xw_chan w = px_nextChan A" "px_nextChan A1 = Suc (px_nextChan A)"
    "fmlookup (px_pendingReplies A1) (udp_string (xw_remote w)) = Some (xw_chan w)"
    "fmlookup (px_replyChans A1) (xw_chan w) = Some []"
  using assms
  by (auto simp: exchange_begin_def Let_def setPendingReplyChannel_def split: option.splits if_splits)

section \<open>Properties\<close>

lemma exchange_both_known:
  assumes "gossip_key A = gossip_key B" "length (gossip_key B) = 32"
    and "ln_WGPubKey (px_localNode A) \<noteq> ln_WGPubKey (px_localNode B)"
    and "ln_MeshIP (px_localNode A) \<noteq> []" "ln_MeshIP (px_localNode B) \<noteq> []"
    and "node_ascii (px_localNode A)" "node_ascii (px_localNode B)"
    and "store_ascii (px_peerStore A)" "store_ascii (px_peerStore B)" "ascii_str (ua_Zone addrA)"
    and "store_inv (px_peerStore A)" "store_inv (px_peerStore B)"
    and "2 * go_len (peers (px_peerStore A)) + go_len (peers (px_peerStore B)) + 1 < DefaultMaxPeers"
    and "valid_orders (xe_order e1)" "valid_orders (xe_order e2)"
    and "xe_resolve e1 target = Some addrB" "xe_write e1 addrB" "xe_write e2 addrA"
    and "xe_nonce e1 0 = Some n1" "length n1 = 12" "xe_nonce e2 0 = Some n2" "length n2 = 12"
    and "clocks_close (xe_now e1) (xe_now e2)" "clocks_close (xe_now e2) (xe_now e3)"
  shows "\<exists>w A1 hello B' reply A' info.
    exchange_begin e1 A target = (Inr w, A1, [Sent addrB hello])
    \<and> handleMessage e2 B hello addrA = Inr (B', [Sent addrA reply])
    \<and> ExchangeWithPeer e1 A target [Incoming e3 reply addrB, TakeReply] = Some (Inr (Inr info, A', [Sent addrB hello]))
    \<and> WGPubKey info = ln_WGPubKey (px_localNode B) \<and> MeshIP info = ln_MeshIP (px_localNode B)
    \<and> heard_of (px_peerStore B') (ln_WGPubKey (px_localNode A)) (ln_MeshIP (px_localNode A)) (xe_now e2)
    \<and> heard_of (px_peerStore A') (ln_WGPubKey (px_localNode B)) (ln_MeshIP (px_localNode B)) (xe_now e3)
    \<and> fmlookup (px_pendingReplies A') (udp_string addrB) = None"
proof -
  let ?ch = "px_nextChan A"
  let ?A1 = "setPendingReplyChannel (A\<lparr>px_replyChans := fmupd ?ch [] (px_replyChans A), px_nextChan := Suc ?ch\<rparr>) (udp_string addrB) ?ch"
  let ?a = "local_announcement (xe_now e1) (px_localNode A) (xgetKnownPeers e1 A)"
  have keyA: "length (gossip_key A) = 32" using assms(1,2) by simp
  from hello_sent [OF assms(16,17,19,20) keyA assms(6,8,23)] obtain hello henv hpt where hello:
    "exchange_begin e1 A target = (Inr \<lparr>xw_remote = addrB, xw_chan = ?ch, xw_data = hello\<rparr>, ?A1, [Sent addrB hello])"
    "OpenEnvelopeRaw (xe_now e2) hello (gossip_key B) = Inr (henv, hpt)" "en_MessageType henv = MessageTypeHello"
    "unmarshal PeerAnnouncement_member zero_announcement hpt = Some ?a" unfolding assms(1) by blast
  have asc: "announcement_ascii ?a" by (rule local_announcement_ascii [OF assms(6,8)])
  have others: "\<forall>kp \<in> set (pa_KnownPeers ?a). kp_WGPubKey kp \<noteq> pa_WGPubKey ?a"
    using known_peers_ascii(2) [OF assms(8)] by simp
  have lenA: "length (pa_KnownPeers ?a) \<le> go_len (peers (px_peerStore A))"
    using known_peers_len [OF assms(14)] by simp
  have room: "go_len (peers (px_peerStore B)) < DefaultMaxPeers" using assms(13) by simp
  from hello_answered [OF assms(2) _ _ hello(2-4) asc others assms(12,9,7,10) room assms(15,21,22,18,24)] assms(3,4)
  obtain B' reply r renv rpt where B': "handleMessage e2 B hello addrA = Inr (B', [Sent addrA reply])"
    "heard_of (px_peerStore B') (ln_WGPubKey (px_localNode A)) (ln_MeshIP (px_localNode A)) (xe_now e2)"
    and r: "OpenEnvelopeRaw (xe_now e3) reply (gossip_key A) = Inr (renv, rpt)" "en_MessageType renv = MessageTypeReply"
    "unmarshal PeerAnnouncement_member zero_announcement rpt = Some r"
    "pa_WGPubKey r = ln_WGPubKey (px_localNode B)" "pa_MeshIP r = ln_MeshIP (px_localNode B)"
    "\<forall>kp \<in> set (pa_KnownPeers r). kp_WGPubKey kp \<noteq> pa_WGPubKey r"
    "length (pa_KnownPeers r) \<le> Suc (go_len (peers (px_peerStore B)) + length (pa_KnownPeers ?a))"
    unfolding assms(1) local_announcement_fields by blast
  have f: "gossip_key ?A1 = gossip_key A" "px_peerStore ?A1 = px_peerStore A"
    "fmlookup (px_pendingReplies ?A1) (udp_string addrB) = Some ?ch" "fmlookup (px_replyChans ?A1) ?ch = Some []"
    by (simp_all add: setPendingReplyChannel_def)
  have room': "go_len (peers (px_peerStore ?A1)) + length (pa_KnownPeers r) < DefaultMaxPeers"
    using assms(13) r(7) lenA f(2) by simp
  have "pa_MeshIP r \<noteq> []" using r(5) assms(5) by simp
  from reply_delivered [OF this r(6) r(1) [folded f(1)] r(2,3) assms(11) [folded f(2)] room' f(3,4)]
  obtain A2 info where A2: "handleMessage e3 ?A1 reply addrB = Inr (A2, [])" "fmlookup (px_replyChans A2) ?ch = Some [info]"
    "heard_of (px_peerStore A2) (pa_WGPubKey r) (pa_MeshIP r) (xe_now e3)" "WGPubKey info = pa_WGPubKey r" "MeshIP info = pa_MeshIP r"
    by blast
  let ?A' = "clearPendingReplyChannel (A2\<lparr>px_replyChans := fmupd ?ch [] (px_replyChans A2)\<rparr>) (udp_string addrB)"
  have "ExchangeWithPeer e1 A target [Incoming e3 reply addrB, TakeReply] = Some (Inr (Inr info, ?A', [Sent addrB hello]))"
    using A2(1,2) by (simp add: ExchangeWithPeer_def hello(1))
  with hello(1) B' A2(3-5) r(4,5) show ?thesis
    by (intro exI conjI) (assumption | simp add: clearPendingReplyChannel_def)+
qed

text \<open>
  C1. An exchange makes two nodes known to each other. When a node contacts another one that
  holds the same gossip key, its HELLO makes the other record it with its mesh address as just
  seen and answer with a REPLY to the address the HELLO came from; the REPLY makes the first
  node record the other in the same way, and the waiting call returns the other's key and mesh
  address and takes its reply channel back. This goes through the JSON and the encryption of
  both messages and the merging of both tables of known peers; it needs clocks that are less than
  ten minutes apart and room in the tables.
\<close>

theorem exchange_mutual:
  assumes "gossip_key A = gossip_key B" "length (gossip_key B) = 32"
    and "ln_WGPubKey (px_localNode A) \<noteq> ln_WGPubKey (px_localNode B)"
    and "ln_MeshIP (px_localNode A) \<noteq> []" "ln_MeshIP (px_localNode B) \<noteq> []"
    and "node_ascii (px_localNode A)" "node_ascii (px_localNode B)"
    and "store_ascii (px_peerStore A)" "store_ascii (px_peerStore B)" "ascii_str (ua_Zone addrA)"
    and "store_inv (px_peerStore A)" "store_inv (px_peerStore B)"
    and "2 * go_len (peers (px_peerStore A)) + go_len (peers (px_peerStore B)) + 1 < DefaultMaxPeers"
    and "valid_orders (xe_order e1)" "valid_orders (xe_order e2)"
    and "xe_resolve e1 target = Some addrB" "xe_write e1 addrB" "xe_write e2 addrA"
    and "xe_nonce e1 0 = Some n1" "length n1 = 12" "xe_nonce e2 0 = Some n2" "length n2 = 12"
    and "clocks_close (xe_now e1) (xe_now e2)" "clocks_close (xe_now e2) (xe_now e3)"
  shows "\<exists>w A1 hello B' reply A' info.
    exchange_begin e1 A target = (Inr w, A1, [Sent addrB hello])
    \<and> handleMessage e2 B hello addrA = Inr (B', [Sent addrA reply])
    \<and> ExchangeWithPeer e1 A target [Incoming e3 reply addrB, TakeReply] = Some (Inr (Inr info, A', [Sent addrB hello]))
    \<and> WGPubKey info = ln_WGPubKey (px_localNode B) \<and> MeshIP info = ln_MeshIP (px_localNode B)
    \<and> heard_of (px_peerStore B') (ln_WGPubKey (px_localNode A)) (ln_MeshIP (px_localNode A)) (xe_now e2)
    \<and> heard_of (px_peerStore A') (ln_WGPubKey (px_localNode B)) (ln_MeshIP (px_localNode B)) (xe_now e3)
    \<and> fmlookup (px_pendingReplies A') (udp_string addrB) = None"
  by (rule exchange_both_known [OF assms])

definition sample_exchange :: "string \<Rightarrow> string \<Rightarrow> PeerExchange" where
  "sample_exchange k ip = NewPeerExchange
     (sample_config\<lparr>cfg_Keys := (cfg_Keys sample_config)\<lparr>GossipKey := replicate 32 9\<rparr>\<rparr>) (sample_node k ip) NewPeerStore"

definition sample_addr :: "byte \<Rightarrow> UDPAddr" where
  "sample_addr b = \<lparr>ua_IP = [8, 8, 4, b], ua_Port = 51821, ua_Zone = []\<rparr>"

definition sample_xenv :: "gotime \<Rightarrow> UDPAddr \<Rightarrow> xenv" where
  "sample_xenv t a = \<lparr>xe_now = t, xe_nonce = (\<lambda>i. Some (replicate 12 (word_of_nat i))), xe_resolve = (\<lambda>_. Some a),
     xe_write = (\<lambda>_. True), xe_order = lex_orders\<rparr>"

lemma sample_exchange_fields [simp]:
  "gossip_key (sample_exchange k ip) = replicate 32 9" "px_localNode (sample_exchange k ip) = sample_node k ip"
  "px_peerStore (sample_exchange k ip) = NewPeerStore" "peers NewPeerStore = fmempty" "store_ascii NewPeerStore"
  "ln_WGPubKey (sample_node k ip) = k" "ln_MeshIP (sample_node k ip) = ip"
  "node_ascii (sample_node k ip) \<longleftrightarrow> ascii_str k \<and> ascii_str ip" "ascii_str (ua_Zone (sample_addr b))"
  by (simp_all add: sample_exchange_def NewPeerExchange_def NewPeerStore_def store_ascii_def sample_node_def node_ascii_def sample_addr_def)

lemma sample_xenv_fields [simp]:
  "xe_now (sample_xenv t a) = t" "xe_nonce (sample_xenv t a) i = Some (replicate 12 (word_of_nat i))"
  "xe_resolve (sample_xenv t a) s = Some a" "xe_write (sample_xenv t a) b" "valid_orders (xe_order (sample_xenv t a))"
  by (simp_all add: sample_xenv_def lex_orders_valid)

lemma clocks_close_sample: "clocks_close (1000 * Second) (1001 * Second)" "clocks_close (1001 * Second) (1002 * Second)"
  by (simp_all add: clocks_close_def MaxMessageAge_def Minute_def Second_def unix_of_def)

theorem exchange_mutual_witness:
  "\<exists>w A1 hello B' reply A' info.
    exchange_begin (sample_xenv (1000 * Second) (sample_addr 2)) (sample_exchange ''A'' ''10.0.0.1'') ''b.example:51821''
      = (Inr w, A1, [Sent (sample_addr 2) hello])
    \<and> handleMessage (sample_xenv (1001 * Second) (sample_addr 1)) (sample_exchange ''B'' ''10.0.0.2'') hello (sample_addr 1)
      = Inr (B', [Sent (sample_addr 1) reply])
    \<and> ExchangeWithPeer (sample_xenv (1000 * Second) (sample_addr 2)) (sample_exchange ''A'' ''10.0.0.1'') ''b.example:51821''
        [Incoming (sample_xenv (1002 * Second) (sample_addr 2)) reply (sample_addr 2), TakeReply]
      = Some (Inr (Inr info, A', [Sent (sample_addr 2) hello]))
    \<and> WGPubKey info = ''B'' \<and> MeshIP info = ''10.0.0.2''
    \<and> heard_of (px_peerStore B') ''A'' ''10.0.0.1'' (1001 * Second) \<and> heard_of (px_peerStore A') ''B'' ''10.0.0.2'' (1002 * Second)"
  using exchange_mutual [of "sample_exchange ''A'' ''10.0.0.1''" "sample_exchange ''B'' ''10.0.0.2''" "sample_addr 1"
      "sample_xenv (1000 * Second) (sample_addr 2)" "sample_xenv (1001 * Second) (sample_addr 1)" "''b.example:51821''" "sample_addr 2"
      "replicate 12 0" "replicate 12 0" "sample_xenv (1002 * Second) (sample_addr 2)"]
  by (simp only: sample_exchange_fields sample_xenv_fields clocks_close_sample) (simp add: store_inv_new DefaultMaxPeers_def, metis)

text \<open>
  C4. An introducer makes two peers punch their NATs at the same instant. When it gets the offer
  of one peer for another that it has no endpoint of, it waits; when the offer of the other comes
  within the twenty seconds of a session, it sends each of the two a START, to the address its
  offer came from. Each accepts its START and begins a punch job for the other peer, under the
  same pair identifier, at the same time, and with candidates that contain the address from which
  the introducer saw the other. The session is then closed.
\<close>

theorem rendezvous_synchronised:
  assumes "introduces I oA" "introduces I oB" "kA \<noteq> kB"
    and "of_FromPubKey oA = kA" "of_TargetPubKey oA = kB" "of_FromPubKey oB = kB" "of_TargetPubKey oB = kA"
    and "fmlookup (px_rendezvousSessions I) (pairIDForPeers kA kB) = None"
    and "fmlookup (px_rendezvousStarts I) (pairIDForPeers kA kB) = None"
    and "PeerStore_Get (px_peerStore I) kB = None"
    and "xe_now e2 - xe_now e1 \<le> RendezvousSessionTTL"
    and "ascii_str kA" "ascii_str kB" "ascii_str (ln_WGPubKey (px_localNode I))"
    and "list_all ascii_str (of_Candidates oA)" "list_all ascii_str (of_Candidates oB)" "v4_source a" "v4_source b"
    and "xe_resolve e2 (udp_string a) = Some a" "xe_resolve e2 (udp_string b) = Some b" "xe_write e2 a" "xe_write e2 b"
    and "xe_nonce e2 0 = Some n0" "length n0 = 12" "xe_nonce e2 1 = Some n1" "length n1 = 12"
    and "length (gossip_key I) = 32" "gossip_key A = gossip_key I" "gossip_key B = gossip_key I"
    and "ln_WGPubKey (px_localNode A) = kA" "ln_WGPubKey (px_localNode B) = kB"
    and "\<not> cfg_DisablePunching (px_config A)" "\<not> cfg_DisablePunching (px_config B)"
    and "fmlookup (px_activePunches A) (pairIDForPeers kA kB) = None" "fmlookup (px_activePunches B) (pairIDForPeers kA kB) = None"
    and "clocks_close (xe_now e2) (xe_now e3)" "clocks_close (xe_now e2) (xe_now e4)"
    and "0 < unix_milli (xe_now e2 + RendezvousStartLeadTime)" "int64 (unix_milli (xe_now e2 + RendezvousStartLeadTime))"
  shows "\<exists>I1 I2 dA dB A' B' csA csB s.
    handleRendezvousOffer e1 I oA a = (I1, []) \<and> handleRendezvousOffer e2 I1 oB b = (I2, [Sent b dB, Sent a dA])
    \<and> handleMessage e3 A dA i = Inr (A', [Punch (pairIDForPeers kA kB) kB csB s])
    \<and> handleMessage e4 B dB i = Inr (B', [Punch (pairIDForPeers kA kB) kA csA s])
    \<and> udp_string b \<in> set csB \<and> udp_string a \<in> set csA
    \<and> s = unix_milli (xe_now e2 + RendezvousStartLeadTime) * Millisecond
    \<and> fmlookup (px_rendezvousSessions I2) (pairIDForPeers kA kB) = None"
proof -
  let ?p = "pairIDForPeers kA kB"
  let ?s = "xe_now e2 + RendezvousStartLeadTime"
  note sym = pairID_sym [of kB kA]
  obtain ss st ap where I1: "handleRendezvousOffer e1 I oA a =
      (I\<lparr>px_rendezvousSessions := fmupd ?p (offer_session (xe_now e1) I oA a) ss, px_rendezvousStarts := st, px_activePunches := ap\<rparr>, [])"
    "fmlookup st ?p = None"
    using offer_waits [OF assms(1), of e1 a] assms(3-5,8-10) by auto
  let ?I1 = "I\<lparr>px_rendezvousSessions := fmupd ?p (offer_session (xe_now e1) I oA a) ss, px_rendezvousStarts := st, px_activePunches := ap\<rparr>"
  let ?ses = "offer_session (xe_now e1) I oA a"
  have ses: "fmlookup (px_rendezvousSessions ?I1) ?p = Some ?ses" "rv_createdAt ?ses = xe_now e1"
    "fmlookup (rv_endpoints ?ses) kA = Some (udp_string a)"
    by (simp_all add: offer_session_def record_offer_def Let_def assms(4))
  obtain bA where bA: "fmlookup (rv_offers ?ses) kA = Some bA" "of_FromPubKey bA = kA" "of_Candidates bA = offer_candidates I oA a"
    by (simp add: offer_session_def record_offer_def Let_def assms(4))
  have int1: "introduces ?I1 oB" using assms(2) by (simp add: introduces_def)
  have le: "xe_now e2 - rv_createdAt ?ses \<le> RendezvousSessionTTL" using ses(2) assms(11) by simp
  have none: "fmlookup (px_rendezvousStarts ?I1) ?p = None" using I1(2) by simp
  obtain I2 where I2: "handleRendezvousOffer e2 ?I1 oB b = (I2,
      sendRendezvousStart e2 0 ?I1 ?p (udp_string b) kA (offer_candidates I oA a) ?s
      @ sendRendezvousStart e2 1 ?I1 ?p (udp_string a) kB (offer_candidates ?I1 oB b) ?s)"
    "fmlookup (px_rendezvousSessions I2) ?p = None"
    using offer_completes [OF int1 assms(3) [symmetric] assms(6,7) sym ses(1) le bA(1,2) ses(3) none, of b] unfolding bA(3) by blast
  have asc: "list_all ascii_str (offer_candidates I oA a)" "list_all ascii_str (offer_candidates ?I1 oB b)" "ascii_str ?p"
    using offer_candidates_ascii [OF assms(15)] offer_candidates_ascii [OF assms(16)] assms(17,18) pairID_ascii
    by (simp_all add: v4_source_def)
  have keys: "kA \<noteq> []" "kB \<noteq> []" "gossip_key ?I1 = gossip_key I" "ascii_str (ln_WGPubKey (px_localNode ?I1))"
    using assms(1,2,4,6,14) by (auto simp: introduces_def)
  obtain dB envB ptB where dB: "sendRendezvousStart e2 0 ?I1 ?p (udp_string b) kA (offer_candidates I oA a) ?s = [Sent b dB]"
    "OpenEnvelopeRaw (xe_now e4) dB (gossip_key I) = Inr (envB, ptB)" "en_MessageType envB = MessageTypeRendezvousStart"
    "unmarshal start_member zero_start ptB = Some (start_message e2 ?I1 ?p kA (offer_candidates I oA a) ?s)"
    using start_sent [OF assms(20) v4_candidate(2) [OF assms(18)] keys(1) assms(22,23,24) _ assms(12) asc(3,1) keys(4) assms(39,37)]
      assms(27) unfolding keys(3) by blast
  obtain dA envA ptA where dA: "sendRendezvousStart e2 1 ?I1 ?p (udp_string a) kB (offer_candidates ?I1 oB b) ?s = [Sent a dA]"
    "OpenEnvelopeRaw (xe_now e3) dA (gossip_key I) = Inr (envA, ptA)" "en_MessageType envA = MessageTypeRendezvousStart"
    "unmarshal start_member zero_start ptA = Some (start_message e2 ?I1 ?p kB (offer_candidates ?I1 oB b) ?s)"
    using start_sent [OF assms(19) v4_candidate(2) [OF assms(17)] keys(2) assms(21,25,26) _ assms(13) asc(3,2) keys(4) assms(39,36)]
      assms(27) unfolding keys(3) by blast
  have inA: "udp_string a \<in> set (st_PeerCandidates (start_message e2 ?I1 ?p kA (offer_candidates I oA a) ?s))"
    using observed_candidate [OF assms(17)] v4_candidate [OF assms(17)]
    by (simp add: start_message_def filterCandidates_set normalizeCandidates_set)
  have inB: "udp_string b \<in> set (st_PeerCandidates (start_message e2 ?I1 ?p kB (offer_candidates ?I1 oB b) ?s))"
    using observed_candidate [OF assms(18)] v4_candidate [OF assms(18)]
    by (simp add: start_message_def filterCandidates_set normalizeCandidates_set)
  obtain A' csB where A': "handleMessage e3 A dA i = Inr (A', [Punch ?p kB csB (unix_milli ?s * Millisecond)])" "udp_string b \<in> set csB"
    using start_accepted [OF dA(2) [folded assms(28)] dA(3,4) assms(32) _ _ _ assms(18) inB, of i] assms(30,34,38) keys(2)
    by (auto simp: start_message_def)
  obtain B' csA where B': "handleMessage e4 B dB i = Inr (B', [Punch ?p kA csA (unix_milli ?s * Millisecond)])" "udp_string a \<in> set csA"
    using start_accepted [OF dB(2) [folded assms(29)] dB(3,4) assms(33) _ _ _ assms(17) inA, of i] assms(31,35,38) keys(1) sym
    by (auto simp: start_message_def)
  have "handleRendezvousOffer e2 ?I1 oB b = (I2, [Sent b dB, Sent a dA])" using I2(1) dA(1) dB(1) by simp
  with I1(1) I2(2) A' B' show ?thesis by blast
qed

definition sample_introducer :: PeerExchange where
  "sample_introducer = (sample_exchange ''I'' ''10.0.0.3'')\<lparr>px_localNode := (sample_node ''I'' ''10.0.0.3'')\<lparr>ln_Introducer := True\<rparr>\<rparr>"

definition sample_offer :: "string \<Rightarrow> string \<Rightarrow> rendezvousOffer" where
  "sample_offer k k' = zero_offer\<lparr>of_FromPubKey := k, of_TargetPubKey := k'\<rparr>"

definition resolving_xenv :: "gotime \<Rightarrow> xenv" where
  "resolving_xenv t = (sample_xenv t (sample_addr 1))\<lparr>xe_resolve := map_of (map (\<lambda>a. (udp_string a, a)) [sample_addr 1, sample_addr 2])\<rparr>"

lemma sample_addr_source: "v4_source (sample_addr 1)" "v4_source (sample_addr 2)"
  by (simp_all add: v4_source_def sample_addr_def)

lemma resolving_fields [simp]:
  "xe_resolve (resolving_xenv t) (udp_string (sample_addr 1)) = Some (sample_addr 1)"
  "xe_resolve (resolving_xenv t) (udp_string (sample_addr 2)) = Some (sample_addr 2)"
  "xe_write (resolving_xenv t) a" "xe_nonce (resolving_xenv t) i = Some (replicate 12 (word_of_nat i))" "xe_now (resolving_xenv t) = t"
proof -
  have "ua_IP (sample_addr 1) \<noteq> ua_IP (sample_addr 2)" by (simp add: sample_addr_def)
  then have "v4_in_v6 (ua_IP (sample_addr 1)) \<noteq> v4_in_v6 (ua_IP (sample_addr 2))" by (simp add: v4_in_v6_def)
  then have "udp_string (sample_addr 1) \<noteq> udp_string (sample_addr 2)"
    using v4_udp_string(2,3) [OF sample_addr_source(1)] v4_udp_string(2,3) [OF sample_addr_source(2)] by auto
  then show "xe_resolve (resolving_xenv t) (udp_string (sample_addr 1)) = Some (sample_addr 1)"
    "xe_resolve (resolving_xenv t) (udp_string (sample_addr 2)) = Some (sample_addr 2)"
    by (simp_all add: resolving_xenv_def)
qed (simp_all add: resolving_xenv_def sample_xenv_def)

lemma sample_exchange_rendezvous [simp]:
  "fmlookup (px_rendezvousSessions (sample_exchange k ip)) p = None" "fmlookup (px_rendezvousStarts (sample_exchange k ip)) p = None"
  "fmlookup (px_activePunches (sample_exchange k ip)) p = None" "\<not> cfg_DisablePunching (px_config (sample_exchange k ip))"
  by (simp_all add: sample_exchange_def NewPeerExchange_def sample_config_def)

lemma sample_introduces: "introduces sample_introducer (sample_offer ''A'' ''B'')" "introduces sample_introducer (sample_offer ''B'' ''A'')"
  by (simp_all add: introduces_def sample_introducer_def sample_offer_def zero_offer_def sample_node_def)

theorem rendezvous_synchronised_witness:
  "\<exists>I1 I2 dA dB A' B' csA csB s.
    handleRendezvousOffer (resolving_xenv (1000 * Second)) sample_introducer (sample_offer ''A'' ''B'') (sample_addr 1) = (I1, [])
    \<and> handleRendezvousOffer (resolving_xenv (1001 * Second)) I1 (sample_offer ''B'' ''A'') (sample_addr 2)
      = (I2, [Sent (sample_addr 2) dB, Sent (sample_addr 1) dA])
    \<and> handleMessage (resolving_xenv (1002 * Second)) (sample_exchange ''A'' ''10.0.0.1'') dA (sample_addr 3)
      = Inr (A', [Punch (pairIDForPeers ''A'' ''B'') ''B'' csB s])
    \<and> handleMessage (resolving_xenv (1002 * Second)) (sample_exchange ''B'' ''10.0.0.2'') dB (sample_addr 3)
      = Inr (B', [Punch (pairIDForPeers ''A'' ''B'') ''A'' csA s])"
proof -
  have s: "px_rendezvousSessions sample_introducer = fmempty" "px_rendezvousStarts sample_introducer = fmempty"
    "px_peerStore sample_introducer = NewPeerStore" "gossip_key sample_introducer = replicate 32 9"
    "ln_WGPubKey (px_localNode sample_introducer) = ''I''"
    by (simp_all add: sample_introducer_def sample_exchange_def NewPeerExchange_def sample_node_def)
  have f: "of_FromPubKey (sample_offer k k') = k" "of_TargetPubKey (sample_offer k k') = k'" "of_Candidates (sample_offer k k') = []" for k k'
    by (simp_all add: sample_offer_def zero_offer_def)
  have t: "0 < unix_milli (1001 * Second + RendezvousStartLeadTime)" "int64 (unix_milli (1001 * Second + RendezvousStartLeadTime))"
    by (simp_all add: unix_milli_def Second_def Millisecond_def RendezvousStartLeadTime_def)
  show ?thesis
    using rendezvous_synchronised [OF sample_introduces, of "''A''" "''B''" "resolving_xenv (1001 * Second)" "resolving_xenv (1000 * Second)"
        "sample_addr 1" "sample_addr 2" "replicate 12 0" "replicate 12 1" "sample_exchange ''A'' ''10.0.0.1''"
        "sample_exchange ''B'' ''10.0.0.2''" "resolving_xenv (1002 * Second)" "resolving_xenv (1002 * Second)" "sample_addr 3"]
      t sample_addr_source
    by (simp only: s f resolving_fields sample_exchange_fields sample_exchange_rendezvous clocks_close_sample)
      (simp add: PeerStore_Get_def RendezvousSessionTTL_def Second_def, metis)
qed

text \<open>
  C33. Two exchanges with one address get in each other's way: the table of waiting calls is keyed
  by the address alone. When a call starts while an earlier one to the same address is still
  waiting, and the earlier one then ends by its timeout, the deferred removal takes the entry of
  the later call away. From then on the later call cannot get a reply: whatever its peer
  answers, and however often it asks again, it ends by its timeout too.
\<close>

theorem overlapping_exchange_lost:
  assumes "exchange_begin e1 A target = (Inr w1, A1, es1)" "exchange_begin e2 A1 target' = (Inr w2, A2, es2)"
    and "xw_remote w2 = xw_remote w1"
  shows "\<exists>A3. exchange_wait w1 A2 [] [TimedOut] = Some (Inr (Inl ExchangeTimedOut, A3, []))
    \<and> (\<forall>evs r A4 out. list_all (from_addr (xw_remote w2)) evs \<and> exchange_wait w2 A3 [] evs = Some (Inr (r, A4, out))
         \<longrightarrow> r = Inl ExchangeTimedOut)"
proof -
  let ?A3 = "clearPendingReplyChannel A2 (udp_string (xw_remote w1))"
  have "fmlookup (px_pendingReplies ?A3) (udp_string (xw_remote w2)) = None" "fmlookup (px_replyChans ?A3) (xw_chan w2) = Some []"
    using exchange_begin_Inr(4) [OF assms(2)] assms(3) by (simp_all add: clearPendingReplyChannel_def)
  with unregistered_wait [of w2 _ ?A3 "[]"] show ?thesis by (intro exI [of _ ?A3]) auto
qed

theorem overlapping_exchange_lost_witness:
  "\<exists>w1 A1 es1 w2 A2 es2 A3.
     exchange_begin (sample_xenv (1000 * Second) (sample_addr 2)) (sample_exchange ''A'' ''10.0.0.1'') ''x'' = (Inr w1, A1, es1)
     \<and> exchange_begin (sample_xenv (1001 * Second) (sample_addr 2)) A1 ''y'' = (Inr w2, A2, es2)
     \<and> exchange_wait w1 A2 [] [TimedOut] = Some (Inr (Inl ExchangeTimedOut, A3, []))
     \<and> (\<forall>evs r A4 out. list_all (from_addr (xw_remote w2)) evs \<and> exchange_wait w2 A3 [] evs = Some (Inr (r, A4, out))
         \<longrightarrow> r = Inl ExchangeTimedOut)"
proof -
  obtain w1 A1 es1 where 1: "exchange_begin (sample_xenv (1000 * Second) (sample_addr 2)) (sample_exchange ''A'' ''10.0.0.1'') ''x''
      = (Inr w1, A1, es1)" "xw_remote w1 = sample_addr 2"
    by (simp add: exchange_begin_def Let_def SealEnvelope_def)
  obtain w2 A2 es2 where 2: "exchange_begin (sample_xenv (1001 * Second) (sample_addr 2)) A1 ''y'' = (Inr w2, A2, es2)"
    "xw_remote w2 = sample_addr 2"
    by (simp add: exchange_begin_def Let_def SealEnvelope_def)
  have "xw_remote w2 = xw_remote w1" using 1(2) 2(2) by simp
  from overlapping_exchange_lost [OF 1(1) 2(1) this] 1(1) 2(1) show ?thesis by blast
qed

end
