(* ===== verification/Gossip.thy ===== *)
theory Gossip
  imports Exchange
begin

text \<open>
  Gossip inside the mesh (pkg/discovery/gossip.go) and discovery on the local network by multicast
  (pkg/discovery/lan.go). Both turn announcements into reports to the peer store. The runs of the
  peer exchange with the gossip handler installed are at the end.
\<close>

section \<open>Gossip\<close>

definition GossipInterval :: duration where "GossipInterval = 10 * Second"
definition GossipMethod :: string where "GossipMethod = ''gossip''"
definition GossipMaxMessageSize :: nat where "GossipMaxMessageSize = 65536"

text \<open>\<open>mg_exchange\<close> tells whether the socket of the peer exchange is used.\<close>

record MeshGossip =
  mg_config :: Config
  mg_localNode :: LocalNode
  mg_peerStore :: PeerStore
  mg_gossipKey :: "byte list"
  mg_port :: "16 word"
  mg_exchange :: bool
  mg_limiter :: IPRateLimiter
  mg_running :: bool

definition NewMeshGossip :: "Config \<Rightarrow> LocalNode \<Rightarrow> PeerStore \<Rightarrow> MeshGossip" where
  "NewMeshGossip config localNode peerStore =
     \<lparr>mg_config = config, mg_localNode = localNode, mg_peerStore = peerStore, mg_gossipKey = GossipKey (cfg_Keys config),
      mg_port = GossipPort (cfg_Keys config), mg_exchange = False, mg_limiter = Limiter_NewDefault, mg_running = False\<rparr>"

definition NewMeshGossipWithExchange :: "Config \<Rightarrow> LocalNode \<Rightarrow> PeerStore \<Rightarrow> MeshGossip" where
  "NewMeshGossipWithExchange config localNode peerStore =
     \<lparr>mg_config = config, mg_localNode = localNode, mg_peerStore = peerStore, mg_gossipKey = GossipKey (cfg_Keys config),
      mg_port = GossipPort (cfg_Keys config), mg_exchange = True, mg_limiter = Limiter_NewDefault, mg_running = False\<rparr>"

text \<open>\<open>bound\<close> is the port of the socket, on the mesh address or else on every address, or None when neither can be bound.\<close>

definition Gossip_Start :: "16 word option \<Rightarrow> MeshGossip \<Rightarrow> exchange_error + MeshGossip" where
  "Gossip_Start bound g =
     (if mg_running g then Inl AlreadyRunning
      else if mg_exchange g then Inr (g\<lparr>mg_running := True\<rparr>)
      else case bound of
        None \<Rightarrow> Inl (BindFailed (int (unat (mg_port g))))
      | Some port \<Rightarrow> Inr (g\<lparr>mg_port := port, mg_running := True\<rparr>))"

definition Gossip_Stop :: "MeshGossip \<Rightarrow> MeshGossip" where
  "Gossip_Stop g = (if \<not> mg_running g then g else g\<lparr>mg_running := False\<rparr>)"

text \<open>
  One round of gossip; \<open>pick n\<close> is the random number below \<open>n\<close>. With the exchange its state is
  the last argument.
\<close>

definition exchangeWithRandomPeer :: "xenv \<Rightarrow> (nat \<Rightarrow> nat) \<Rightarrow> MeshGossip \<Rightarrow> PeerExchange \<Rightarrow> xeffect list" where
  "exchangeWithRandomPeer env pick g pe =
     (let ps = PeerStore_GetActive (xe_order env 0 (fmdom (peers (mg_peerStore g)))) (xe_now env) (mg_peerStore g);
          candidates = filter (\<lambda>p. WGPubKey p \<noteq> ln_WGPubKey (mg_localNode g) \<and> MeshIP p \<noteq> []) ps
      in if candidates = [] then []
         else let target = candidates ! pick (length candidates) in
           case parse_ip (MeshIP target) of
             None \<Rightarrow> []
           | Some ip \<Rightarrow>
               (let targetAddr = \<lparr>ua_IP = ip, ua_Port = int (unat (mg_port g)), ua_Zone = []\<rparr> in
                if mg_exchange g then logged (SendAnnounce env pe targetAddr)
                else
                  let knownPeers = map (\<lambda>p. \<lparr>kp_WGPubKey = WGPubKey p, kp_Hostname = Hostname p, kp_MeshIP = MeshIP p,
                          kp_MeshIPv6 = MeshIPv6 p, kp_WGEndpoint = Endpoint p, kp_Introducer = Introducer p,
                          kp_NATType = NATType p\<rparr>) (filter (\<lambda>p. WGPubKey p \<noteq> WGPubKey target) ps);
                      a = local_announcement (xe_now env) (mg_localNode g) knownPeers
                  in logged (write_sealed env (SealEnvelope (xe_nonce env 0) MessageTypeAnnounce (PeerAnnouncement_json a)
                       (mg_gossipKey g)) targetAddr)))"

definition gossip_handleAnnouncement :: announce_handler where
  "gossip_handleAnnouncement now cfg n ps a sender =
     (if pa_WGPubKey a = ln_WGPubKey n then Inr ps
      else let endpoint = (if sender = None then normalizeKnownPeerEndpoint (pa_WGEndpoint a)
                           else resolvePeerEndpoint (pa_WGEndpoint a) sender)
        in and_then (PeerStore_Update now ps (announced_peer a (filterEndpointForConfig endpoint (cfg_DisableIPv6 cfg))) GossipMethod)
             (\<lambda>ps'. update_transitive now cfg n (GossipMethod @ ''-transitive'') ps' (pa_KnownPeers a)))"

definition HandleAnnounceFrom :: announce_handler where
  "HandleAnnounceFrom = gossip_handleAnnouncement"

text \<open>A round of the standalone listener that has read a datagram, of which the buffer holds 64 KiB.\<close>

definition gossip_listen_round :: "(rat \<Rightarrow> rat) \<Rightarrow> gotime \<Rightarrow> MeshGossip \<Rightarrow> byte list \<Rightarrow> UDPAddr \<Rightarrow> MeshGossip go" where
  "gossip_listen_round fl now g data remoteAddr =
     and_then (Limiter_Allow fl (mg_limiter g) (ip_string (ua_IP remoteAddr)) now) (\<lambda>(ok, l).
       let g' = g\<lparr>mg_limiter := l\<rparr> in
       if \<not> ok then Inr g'
       else case OpenEnvelope now (take GossipMaxMessageSize data) (mg_gossipKey g) of
         Inl _ \<Rightarrow> Inr g'
       | Inr (_, a) \<Rightarrow> and_then (gossip_handleAnnouncement now (mg_config g) (mg_localNode g) (mg_peerStore g) a None)
                        (\<lambda>ps. Inr (g'\<lparr>mg_peerStore := ps\<rparr>)))"

section \<open>Local network\<close>

definition LANMulticastPort :: int where "LANMulticastPort = 51830"
definition LANAnnounceInterval :: duration where "LANAnnounceInterval = 5 * Second"
definition LANMaxMessageSize :: nat where "LANMaxMessageSize = 4096"

record LANDiscovery =
  ld_config :: Config
  ld_localNode :: LocalNode
  ld_peerStore :: PeerStore
  ld_gossipKey :: "byte list"
  ld_multicastAddr :: UDPAddr
  ld_running :: bool

definition NewLANDiscovery :: "Config \<Rightarrow> LocalNode \<Rightarrow> PeerStore \<Rightarrow> LANDiscovery" where
  "NewLANDiscovery config localNode peerStore =
     \<lparr>ld_config = config, ld_localNode = localNode, ld_peerStore = peerStore, ld_gossipKey = GossipKey (cfg_Keys config),
      ld_multicastAddr = \<lparr>ua_IP = v4_in_v6 [239, 192, MulticastID (cfg_Keys config) ! 0, MulticastID (cfg_Keys config) ! 1],
        ua_Port = LANMulticastPort, ua_Zone = []\<rparr>, ld_running = False\<rparr>"

definition LAN_Start :: "bool \<Rightarrow> LANDiscovery \<Rightarrow> exchange_error + LANDiscovery" where
  "LAN_Start joined l =
     (if ld_running l then Inl AlreadyRunning
      else if \<not> joined then Inl (BindFailed LANMulticastPort) else Inr (l\<lparr>ld_running := True\<rparr>))"

definition LAN_Stop :: "LANDiscovery \<Rightarrow> LANDiscovery" where
  "LAN_Stop l = (if \<not> ld_running l then l else l\<lparr>ld_running := False\<rparr>)"

definition LAN_announce :: "xenv \<Rightarrow> LANDiscovery \<Rightarrow> xeffect list" where
  "LAN_announce env l =
     logged (write_sealed env (SealEnvelope (xe_nonce env 0) MessageTypeAnnounce
        (PeerAnnouncement_json (local_announcement (xe_now env) (ld_localNode l) [])) (ld_gossipKey l)) (ld_multicastAddr l))"

text \<open>What the listener does with an opened announcement, and a round of it on a datagram.\<close>

definition lan_receive :: announce_handler where
  "lan_receive now cfg n ps a sender =
     (if pa_WGPubKey a = ln_WGPubKey n then Inr ps
      else PeerStore_Update now ps (announced_peer a (resolveEndpoint (pa_WGEndpoint a) sender)) LANMethod)"

definition lan_listen_round :: "gotime \<Rightarrow> LANDiscovery \<Rightarrow> byte list \<Rightarrow> UDPAddr \<Rightarrow> LANDiscovery go" where
  "lan_listen_round now l data remoteAddr =
     (case OpenEnvelope now (take LANMaxMessageSize data) (ld_gossipKey l) of
        Inl _ \<Rightarrow> Inr l
      | Inr (_, a) \<Rightarrow> and_then (lan_receive now (ld_config l) (ld_localNode l) (ld_peerStore l) a (Some remoteAddr))
                       (\<lambda>ps. Inr (l\<lparr>ld_peerStore := ps\<rparr>)))"

section \<open>The layers as reporters\<close>

definition gossip_reports :: "Config \<Rightarrow> LocalNode \<Rightarrow> gotime \<Rightarrow> PeerAnnouncement \<times> UDPAddr option \<Rightarrow> report list" where
  "gossip_reports cfg n now = (\<lambda>(a, sender).
     if pa_WGPubKey a = ln_WGPubKey n then []
     else let endpoint = (if sender = None then normalizeKnownPeerEndpoint (pa_WGEndpoint a)
                          else resolvePeerEndpoint (pa_WGEndpoint a) sender)
       in (now, announced_peer a (filterEndpointForConfig endpoint (cfg_DisableIPv6 cfg)), GossipMethod)
          # transitive_reports cfg n (GossipMethod @ ''-transitive'') now (pa_KnownPeers a))"

interpretation gossip_layer: reporter "\<lambda>now ps (a, sender). gossip_handleAnnouncement now cfg n ps a sender"
  "gossip_reports cfg n" for cfg n
proof
  fix ps now and msg :: "PeerAnnouncement \<times> UDPAddr option"
  assume inv: "store_inv ps"
  obtain a sender where msg: "msg = (a, sender)" by (cases msg)
  let ?i = "announced_peer a (filterEndpointForConfig (if sender = None then normalizeKnownPeerEndpoint (pa_WGEndpoint a)
      else resolvePeerEndpoint (pa_WGEndpoint a) sender) (cfg_DisableIPv6 cfg))"
  from store_update [OF inv] obtain p1 where p1: "PeerStore_Update now ps ?i GossipMethod = Inr p1" "store_inv p1"
    "peers p1 = peers (record_peer now ps ?i GossipMethod)" by blast
  from transitive.deliver_feed [OF p1(2)] obtain p2 where
    "update_transitive now cfg n (GossipMethod @ ''-transitive'') p1 (pa_KnownPeers a) = Inr p2" "store_inv p2"
    "peers p2 = peers (feed record_peer p1 (transitive_reports cfg n (GossipMethod @ ''-transitive'') now (pa_KnownPeers a)))"
    by blast
  with p1 feed_peers_cong [OF p1(3)] inv
  show "\<exists>ps'. (case msg of (a, sender) \<Rightarrow> gossip_handleAnnouncement now cfg n ps a sender) = Inr ps' \<and> store_inv ps'
      \<and> peers ps' = peers (feed record_peer ps (gossip_reports cfg n now msg))"
    by (auto simp: msg gossip_handleAnnouncement_def gossip_reports_def Let_def)
qed

definition lan_reports :: "Config \<Rightarrow> LocalNode \<Rightarrow> gotime \<Rightarrow> PeerAnnouncement \<times> UDPAddr option \<Rightarrow> report list" where
  "lan_reports cfg n now = (\<lambda>(a, sender). if pa_WGPubKey a = ln_WGPubKey n then []
     else [(now, announced_peer a (resolveEndpoint (pa_WGEndpoint a) sender), LANMethod)])"

interpretation lan_layer: reporter "\<lambda>now ps (a, sender). lan_receive now cfg n ps a sender" "lan_reports cfg n" for cfg n
proof
  fix ps now and msg :: "PeerAnnouncement \<times> UDPAddr option"
  assume inv: "store_inv ps"
  then show "\<exists>ps'. (case msg of (a, sender) \<Rightarrow> lan_receive now cfg n ps a sender) = Inr ps' \<and> store_inv ps'
      \<and> peers ps' = peers (feed record_peer ps (lan_reports cfg n now msg))"
    using store_update [OF inv] by (cases msg) (auto simp: lan_receive_def lan_reports_def)
qed

section \<open>Runs of the exchange\<close>

text \<open>
  The exchange as it runs: datagrams of any content and source arrive, calls begin and end their
  waiting, punch jobs end, and the other layers change the peer store they share with it.
\<close>

inductive exchange_reach :: "PeerExchange \<Rightarrow> bool" where
  created: "store_inv ps \<Longrightarrow> h \<in> {None, Some HandleAnnounceFrom} \<Longrightarrow>
     exchange_reach (SetAnnounceHandler (NewPeerExchange cfg n ps) h)"
| datagram: "exchange_reach pe \<Longrightarrow> listen_round fl env pe data addr = Inr (pe', es) \<Longrightarrow> exchange_reach pe'"
| call_begins: "exchange_reach pe \<Longrightarrow> exchange_begin env pe target = (r, pe', es) \<Longrightarrow> exchange_reach pe'"
| reply_taken: "exchange_reach pe \<Longrightarrow> fmlookup (px_replyChans pe) ch = Some (info # rest) \<Longrightarrow>
     exchange_reach (clearPendingReplyChannel (pe\<lparr>px_replyChans := fmupd ch rest (px_replyChans pe)\<rparr>) remote)"
| call_ends: "exchange_reach pe \<Longrightarrow> exchange_reach (clearPendingReplyChannel pe remote)"
| job_ends: "exchange_reach pe \<Longrightarrow> exchange_reach (endPunchJob now pe pairID)"
| store_changes: "exchange_reach pe \<Longrightarrow> store_inv ps \<Longrightarrow> exchange_reach (pe\<lparr>px_peerStore := ps\<rparr>)"

definition session_ok :: "string \<Rightarrow> rendezvousState \<Rightarrow> bool" where
  "session_ok p st \<longleftrightarrow> fmpred (\<lambda>k o1. of_FromPubKey o1 = k \<and> pairIDForPeers k (of_TargetPubKey o1) = p) (rv_offers st)
     \<and> fmdom (rv_endpoints st) = fmdom (rv_offers st)"

definition exchange_inv :: "PeerExchange \<Rightarrow> bool" where
  "exchange_inv pe \<longleftrightarrow> store_inv (px_peerStore pe) \<and> limiter_inv (px_limiter pe)
     \<and> px_announceHandler pe \<in> {None, Some HandleAnnounceFrom}
     \<and> fmpred (\<lambda>r ch. fmlookup (px_replyChans pe) ch \<noteq> None) (px_pendingReplies pe)
     \<and> fmpred (\<lambda>ch b. ch < px_nextChan pe \<and> length b \<le> 1) (px_replyChans pe)
     \<and> fmpred session_ok (px_rendezvousSessions pe)"

lemma synthesize_session_ok:
  "session_ok p st \<Longrightarrow> pairIDForPeers (of_FromPubKey offer) (of_TargetPubKey offer) = p \<Longrightarrow>
   session_ok p (synthesize_target e pe offer p st)"
  by (auto simp: session_ok_def synthesize_target_def Let_def fmpred_iff pairID_sym split: option.splits)

lemma record_session_ok:
  "session_ok p st \<Longrightarrow> pairIDForPeers (of_FromPubKey offer) (of_TargetPubKey offer) = p \<Longrightarrow>
   session_ok p (record_offer pe offer a p st)"
  by (auto simp: session_ok_def record_offer_def Let_def fmpred_iff)

lemma pair_offer_sessions:
  assumes "fmpred session_ok (px_rendezvousSessions pe)" "pairIDForPeers (of_FromPubKey offer) (of_TargetPubKey offer) = p"
  shows "fmpred session_ok (px_rendezvousSessions (fst (pair_offer e pe offer a p)))"
proof -
  let ?pe1 = "expire_rendezvous (xe_now e) pe"
  let ?st0 = "case fmlookup (px_rendezvousSessions ?pe1) p of Some st \<Rightarrow> st
     | None \<Rightarrow> \<lparr>rv_offers = fmempty, rv_endpoints = fmempty, rv_createdAt = xe_now e\<rparr>"
  let ?ss = "fmupd p (synthesize_target e pe offer p (record_offer pe offer a p ?st0)) (px_rendezvousSessions ?pe1)"
  let ?pe2 = "?pe1\<lparr>px_rendezvousSessions := ?ss\<rparr>"
  have ok1: "fmpred session_ok (px_rendezvousSessions ?pe1)"
    using assms(1) by (simp add: expire_rendezvous_def fmpred_filter)
  have "session_ok p ?st0" using ok1 by (auto simp: fmpred_iff session_ok_def split: option.splits)
  then have "session_ok p (synthesize_target e pe offer p (record_offer pe offer a p ?st0))"
    using assms(2) by (intro synthesize_session_ok record_session_ok)
  then have ss: "fmpred session_ok ?ss" using ok1 by (simp add: fmpred_upd)
  have "fst (pair_offer e pe offer a p) \<in> {?pe2,
      ?pe2\<lparr>px_rendezvousStarts := fmupd p (xe_now e) (px_rendezvousStarts ?pe2), px_rendezvousSessions := fmdrop p (px_rendezvousSessions ?pe2)\<rparr>}"
    unfolding pair_offer_def Let_def by (rule pair_case_fst)
  with ss show ?thesis by (auto simp: fmpred_drop)
qed

lemma offer_inv:
  assumes "exchange_inv pe"
  shows "exchange_inv (fst (handleRendezvousOffer e pe offer a))"
proof -
  have "fmpred session_ok (px_rendezvousSessions (fst (handleRendezvousOffer e pe offer a)))"
    using assms pair_offer_sessions [of pe offer _ e a] by (simp add: handleOffer_cases exchange_inv_def)
  moreover have "px_limiter (fst (handleRendezvousOffer e pe offer a)) = px_limiter pe"
    using pair_offer_state [of e pe offer a "pairIDForPeers (of_FromPubKey offer) (of_TargetPubKey offer)"]
    by (auto simp: handleOffer_cases expire_rendezvous_def)
  ultimately show ?thesis using assms offer_frame [of e pe offer a] by (simp add: exchange_inv_def)
qed

lemma try_send_inv: "exchange_inv pe \<Longrightarrow> exchange_inv (reply_try_send pe ch info)"
  by (auto simp: exchange_inv_def reply_try_send_def fmpred_iff split: option.splits list.splits)

lemma start_inv: "exchange_inv pe \<Longrightarrow> exchange_inv (fst (handleRendezvousStart e pe start a))"
  using start_frame [of e pe start a] by (auto simp: exchange_inv_def)

lemma store_inv_lift: "exchange_inv pe \<Longrightarrow> store_inv ps \<Longrightarrow> exchange_inv (pe\<lparr>px_peerStore := ps\<rparr>)"
  by (simp add: exchange_inv_def)

lemma goodbye_inv: "exchange_inv pe \<Longrightarrow> exchange_inv (handleGoodbye now pe bye)"
  by (simp add: handleGoodbye_def store_inv_lift remove_inv exchange_inv_def)

lemma hello_inv:
  assumes "exchange_inv pe"
  shows "\<exists>pe' es. handleHello e pe a addr = Inr (pe', es) \<and> exchange_inv pe'"
proof (cases "pa_WGPubKey a = ln_WGPubKey (px_localNode pe)")
  case False
  have "store_inv (px_peerStore pe)" using assms by (simp add: exchange_inv_def)
  from handleHello_ok [OF this False, of e addr] show ?thesis using store_inv_lift [OF assms] by blast
qed (use assms in \<open>simp add: handleHello_def\<close>)

lemma reply_inv:
  assumes "exchange_inv pe"
  shows "\<exists>pe' es. handleReply e pe a addr = Inr (pe', es) \<and> exchange_inv pe'"
proof -
  let ?pe1 = "applyObservedEndpoint pe (pa_ObservedEndpoint a)"
  have "store_inv (px_peerStore pe)" using assms by (simp add: exchange_inv_def)
  from handleReply_ok [OF this, of e a addr] obtain p2 p3 where
    h: "handleReply e pe a addr = Inr ((case fmlookup (px_pendingReplies pe) (udp_string addr) of
              None \<Rightarrow> ?pe1\<lparr>px_peerStore := p3\<rparr>
            | Some ch \<Rightarrow> reply_try_send (?pe1\<lparr>px_peerStore := p3\<rparr>) ch (reported (xe_now e) p2 (announced_peer a (sender_endpoint ?pe1 a addr)) DHTMethod)), [])"
    and p3: "store_inv p3" by blast
  have "exchange_inv ?pe1" using assms by (subst applyObserved_frame) (simp add: exchange_inv_def)
  then have "exchange_inv (?pe1\<lparr>px_peerStore := p3\<rparr>)" using p3 by (rule store_inv_lift)
  then show ?thesis using h try_send_inv by (cases "fmlookup (px_pendingReplies pe) (udp_string addr)") auto
qed

definition goes_well :: "(PeerExchange \<times> xeffect list) go \<Rightarrow> bool" where
  "goes_well r \<longleftrightarrow> (\<exists>pe' es. r = Inr (pe', es) \<and> exchange_inv pe')"

lemma goes_well_if: "goes_well a \<Longrightarrow> goes_well b \<Longrightarrow> goes_well (if c then a else b)"
  by simp

lemma goes_well_option: "goes_well a \<Longrightarrow> (\<And>y. goes_well (f y)) \<Longrightarrow> goes_well (case x of None \<Rightarrow> a | Some y \<Rightarrow> f y)"
  by (cases x) simp_all

lemma goes_well_Inr: "goes_well (Inr r) \<longleftrightarrow> exchange_inv (fst r)"
  by (cases r) (simp add: goes_well_def)

lemma announce_inv:
  assumes "exchange_inv pe"
  shows "goes_well (case px_announceHandler pe of None \<Rightarrow> Inr (pe, [])
      | Some handler \<Rightarrow> and_then (handler now (px_config pe) (px_localNode pe) (px_peerStore pe) a (Some addr))
          (\<lambda>ps. Inr (pe\<lparr>px_peerStore := ps\<rparr>, [])))"
proof -
  have "store_inv (px_peerStore pe)" using assms by (simp add: exchange_inv_def)
  from gossip_layer.deliver_feed [OF this, of now "px_config pe" "px_localNode pe" "(a, Some addr)"]
  obtain ps where "HandleAnnounceFrom now (px_config pe) (px_localNode pe) (px_peerStore pe) a (Some addr) = Inr ps" "store_inv ps"
    by (auto simp: HandleAnnounceFrom_def)
  moreover have "px_announceHandler pe = None \<or> px_announceHandler pe = Some HandleAnnounceFrom"
    using assms by (simp add: exchange_inv_def)
  ultimately show ?thesis using assms store_inv_lift [OF assms] by (auto simp: goes_well_def)
qed

lemma dispatch_inv:
  assumes "exchange_inv pe"
  shows "goes_well (dispatch e pe mt pt addr)"
  unfolding dispatch_def
  by (intro goes_well_if announce_inv [OF assms] goes_well_option)
    (simp_all add: assms goes_well_Inr offer_inv start_inv goodbye_inv hello_inv [folded goes_well_def] reply_inv [folded goes_well_def]
      announce_inv)

lemma message_inv:
  assumes "exchange_inv pe"
  shows "\<exists>pe' es. handleMessage e pe data addr = Inr (pe', es) \<and> exchange_inv pe'"
proof (cases "OpenEnvelopeRaw (xe_now e) data (gossip_key pe)")
  case (Inr ep)
  obtain lg where "logIncomingPacket (xe_now e) pe (en_MessageType (fst ep)) addr = pe\<lparr>px_lastPacketLog := lg\<rparr>"
    using logIncoming_frame by blast
  moreover have "exchange_inv (pe\<lparr>px_lastPacketLog := lg\<rparr>)" using assms by (simp add: exchange_inv_def)
  ultimately show ?thesis
    using Inr dispatch_inv [of "pe\<lparr>px_lastPacketLog := lg\<rparr>" e "en_MessageType (fst ep)" "snd ep" addr]
    by (cases ep) (simp add: handleMessage_def goes_well_def)
qed (use assms in \<open>simp add: handleMessage_def\<close>)

lemma listen_inv:
  assumes "exchange_inv pe"
  shows "\<exists>pe' es. listen_round fl e pe data addr = Inr (pe', es) \<and> exchange_inv pe'"
proof -
  have "limiter_inv (px_limiter pe)" using assms by (simp add: exchange_inv_def)
  from consume_implements_table [OF this, of fl "ip_string (ua_IP addr)" "xe_now e"] obtain res l where
    c: "consume fl (px_limiter pe) (ip_string (ua_IP addr)) (xe_now e) = Inr (res, l)" "limiter_inv l" by blast
  then have "exchange_inv (pe\<lparr>px_limiter := l\<rparr>)" using assms by (simp add: exchange_inv_def)
  then show ?thesis
    using c(1) message_inv [of "pe\<lparr>px_limiter := l\<rparr>" e data addr] by (cases res) (simp add: listen_round_def Limiter_Allow_def Let_def)
qed

lemma begin_inv:
  assumes "exchange_inv pe" "exchange_begin e pe target = (r, pe', es)"
  shows "exchange_inv pe'"
proof -
  have "exchange_inv (setPendingReplyChannel (pe\<lparr>px_replyChans := fmupd (px_nextChan pe) [] (px_replyChans pe),
      px_nextChan := Suc (px_nextChan pe)\<rparr>) rem (px_nextChan pe))" (is "exchange_inv (?p rem)") for rem
    using assms(1) by (auto simp: exchange_inv_def setPendingReplyChannel_def fmpred_iff less_SucI)
  moreover have "exchange_inv (clearPendingReplyChannel (?p rem) rem)" for rem
    using calculation [of rem] by (simp add: exchange_inv_def clearPendingReplyChannel_def fmpred_drop)
  ultimately show ?thesis
    using assms by (auto simp: exchange_begin_def Let_def split: option.splits if_splits)
qed

lemma reach_inv: "exchange_reach pe \<Longrightarrow> exchange_inv pe"
proof (induction rule: exchange_reach.induct)
  case (created ps h cfg n)
  then show ?case
    by (auto simp: exchange_inv_def SetAnnounceHandler_def NewPeerExchange_def Limiter_NewDefault_def limiter_new_inv)
next
  case (datagram pe fl env data addr pe' es)
  then show ?case using listen_inv [of pe fl env data addr] by auto
next
  case (call_begins pe env target r pe' es)
  then show ?case using begin_inv by blast
next
  case (reply_taken pe ch info rest remote)
  then have "length (info # rest) \<le> 1" unfolding exchange_inv_def fmpred_iff by blast
  with reply_taken show ?case by (auto simp: exchange_inv_def clearPendingReplyChannel_def fmpred_iff)
next
  case (call_ends pe remote)
  then show ?case by (simp add: exchange_inv_def clearPendingReplyChannel_def fmpred_drop)
next
  case (job_ends pe now pairID)
  then show ?case by (simp add: exchange_inv_def endPunchJob_def)
qed (simp add: store_inv_lift)

section \<open>Properties\<close>

text \<open>
  C2. No datagram can break the exchange. In every state that it reaches, from whatever bytes
  from whatever sources and with calls, punch jobs and the other layers in between, the peer
  store and the rate limiter satisfy their invariants, every waiting call has a reply channel
  with at most one reply, and every offer of a rendezvous session belongs to the pair of its
  session. In each such state the next datagram is handled without a panic. A datagram that is
  not sealed under the gossip key changes nothing but the rate limiter and is not answered.
\<close>

theorem exchange_never_breaks:
  assumes "exchange_reach pe"
  shows "exchange_inv pe \<and> (\<exists>pe' es. listen_round fl env pe data addr = Inr (pe', es) \<and> exchange_reach pe'
    \<and> (\<forall>err. OpenEnvelopeRaw (xe_now env) data (gossip_key pe) = Inl err \<longrightarrow> es = [] \<and> pe' = pe\<lparr>px_limiter := px_limiter pe'\<rparr>))"
proof -
  have inv: "exchange_inv pe" by (rule reach_inv [OF assms])
  from listen_inv [OF inv, of fl env data addr] obtain pe' es where l: "listen_round fl env pe data addr = Inr (pe', es)" by blast
  have "es = [] \<and> pe' = pe\<lparr>px_limiter := px_limiter pe'\<rparr>" if "OpenEnvelopeRaw (xe_now env) data (gossip_key pe) = Inl err" for err
    using l that by (auto simp: listen_round_def and_then_Inr handleMessage_def Let_def split: if_splits)
  with inv l exchange_reach.datagram [OF assms l] show ?thesis by blast
qed

theorem exchange_never_breaks_witness:
  "exchange_inv (SetAnnounceHandler (NewPeerExchange sample_config (sample_node ''A'' ''10.0.0.1'') NewPeerStore) (Some HandleAnnounceFrom))
   \<and> (\<exists>pe' es. listen_round (\<lambda>x. x) (sample_xenv (1000 * Second) (sample_addr 1))
        (SetAnnounceHandler (NewPeerExchange sample_config (sample_node ''A'' ''10.0.0.1'') NewPeerStore) (Some HandleAnnounceFrom))
        [1, 2, 3] (sample_addr 2) = Inr (pe', es) \<and> exchange_reach pe')"
proof -
  have "exchange_reach (SetAnnounceHandler (NewPeerExchange sample_config (sample_node ''A'' ''10.0.0.1'') NewPeerStore) (Some HandleAnnounceFrom))"
    by (rule exchange_reach.created) (simp_all add: store_inv_new)
  from exchange_never_breaks [OF this] show ?thesis by blast
qed

end
