(* ===== verification/Dht.thy ===== *)
theory Dht
  imports Gossip Stun "HOL-Library.Product_Lexorder"
begin

text \<open>
  Discovery over the DHT (pkg/discovery/dht.go), which owns the peer exchange, the gossip and the
  LAN layer: starting and stopping them, the external endpoint of the node, contacting addresses
  that the DHT returns, and the rendezvous with peers behind NATs: time slots and introducers
  that both sides compute independently, throttling of contacts, and backoff. The server of the
  DHT is a library; what it answers is an argument.
\<close>

section \<open>State\<close>

definition DHTQueryInterval :: duration where "DHTQueryInterval = 30 * Second"
definition DHTQueryIntervalStable :: duration where "DHTQueryIntervalStable = 60 * Second"
definition DHTBootstrapInitialDelay :: duration where "DHTBootstrapInitialDelay = 5 * Second"
definition DHTBootstrapMaxDelay :: duration where "DHTBootstrapMaxDelay = 60 * Second"
definition RendezvousWindow :: duration where "RendezvousWindow = 20 * Second"
definition RendezvousPhase :: duration where "RendezvousPhase = 4 * Second"
definition RendezvousMaxIntroducers :: int where "RendezvousMaxIntroducers = 3"
definition RendezvousMinBackoff :: duration where "RendezvousMinBackoff = 3 * Second"
definition RendezvousMaxBackoff :: duration where "RendezvousMaxBackoff = 30 * Second"
definition RendezvousStaleCheck :: duration where "RendezvousStaleCheck = 10 * Second"
definition IPv6SyncWindow :: duration where "IPv6SyncWindow = 8 * Second"
definition IPv6SyncPhase :: duration where "IPv6SyncPhase = 2 * Second"

record backoffEntry =
  be_nextAttempt :: gotime
  be_duration :: duration

definition DHTBootstrapNodes :: "string list" where
  "DHTBootstrapNodes = [''router.bittorrent.com:6881'', ''router.utorrent.com:6881'', ''dht.transmissionbt.com:6881'',
     ''dht.libtorrent.org:25401'']"

text \<open>
  The configuration, the local node and the peer store are shared with the exchange, in whose
  record they are; the copies in the records of the gossip and LAN layers stand for the same
  objects.
\<close>

record DHTDiscovery =
  dd_exchange :: PeerExchange
  dd_gossip :: "MeshGossip option"
  dd_lan :: "LANDiscovery option"
  dd_server :: bool
  dd_dhtPort :: int
  dd_running :: bool
  dd_cancelled :: bool
  dd_contactedPeers :: "(string, gotime) gomap"
  dd_controlPeers :: "(string, string) gomap"
  dd_rendezvousBackoff :: "(string, backoffEntry) gomap"

abbreviation dd_config :: "DHTDiscovery \<Rightarrow> Config" where "dd_config d \<equiv> px_config (dd_exchange d)"
abbreviation dd_localNode :: "DHTDiscovery \<Rightarrow> LocalNode" where "dd_localNode d \<equiv> px_localNode (dd_exchange d)"
abbreviation dd_peerStore :: "DHTDiscovery \<Rightarrow> PeerStore" where "dd_peerStore d \<equiv> px_peerStore (dd_exchange d)"

abbreviation control_port :: "DHTDiscovery \<Rightarrow> int" where
  "control_port d \<equiv> int (unat (GossipPort (cfg_Keys (dd_config d))))"

abbreviation set_node :: "DHTDiscovery \<Rightarrow> LocalNode \<Rightarrow> DHTDiscovery" where
  "set_node d n \<equiv> d\<lparr>dd_exchange := (dd_exchange d)\<lparr>px_localNode := n\<rparr>\<rparr>"

definition NewDHTDiscovery :: "Config \<Rightarrow> LocalNode \<Rightarrow> PeerStore \<Rightarrow> DHTDiscovery" where
  "NewDHTDiscovery config localNode peerStore =
     \<lparr>dd_exchange = NewPeerExchange config localNode peerStore, dd_gossip = None, dd_lan = None, dd_server = False,
      dd_dhtPort = 0, dd_running = False, dd_cancelled = False, dd_contactedPeers = fmempty, dd_controlPeers = fmempty,
      dd_rendezvousBackoff = fmempty\<rparr>"

section \<open>The external endpoint\<close>

text \<open>
  An interface has its flags up and loopback and its addresses; an address that is not a network
  is None, and a list that cannot be read is None.
\<close>

type_synonym iface = "bool \<times> bool \<times> byte list option list option"

definition ipv6_candidates :: "iface list \<Rightarrow> byte list list" where
  "ipv6_candidates ifaces = concat (map (\<lambda>(up, loopback, addrs).
     if \<not> up \<or> loopback then []
     else case addrs of
       None \<Rightarrow> []
     | Some as \<Rightarrow> filter (\<lambda>ip. ip \<noteq> [] \<and> to4 ip = None \<and> \<not> IsLinkLocalUnicast ip \<and> \<not> IsLinkLocalMulticast ip
         \<and> IsGlobalUnicast ip \<and> isPublicIPv6 ip) (List.map_filter (\<lambda>a. a) as)) ifaces)"

text \<open>The addresses are sorted by score, highest first, and then by their text.\<close>

definition discoverIPv6Endpoint :: "iface list option \<Rightarrow> DHTDiscovery \<Rightarrow> string" where
  "discoverIPv6Endpoint ifaces d =
     (case ifaces of
        None \<Rightarrow> []
      | Some ifs \<Rightarrow>
          (case sort_key (\<lambda>ip. (- scoreIPv6 ip, ip_string ip)) (ipv6_candidates ifs) of
             [] \<Rightarrow> []
           | ip # _ \<Rightarrow> join_host_port (ip_string ip) (itoa (cfg_WGListenPort (dd_config d)))))"

text \<open>
  The outcome of detecting the NAT with the first two servers, or with a query of one server when
  there are fewer: the type and the address. None is a query that does not return.
\<close>

definition stun_probe :: "bool \<Rightarrow> (string \<Rightarrow> address stun option) \<Rightarrow> (string option \<times> byte list) stun option" where
  "stun_probe bound query =
     (if length DefaultSTUNServers < 2
      then map_option (\<lambda>r. and_then r (\<lambda>q. Inr (case q of Inl e \<Rightarrow> Inl e | Inr a \<Rightarrow> Inr (None, fst a))))
             (DiscoverExternalEndpoint query)
      else map_option (\<lambda>r. and_then r (\<lambda>q. Inr (case q of Inl e \<Rightarrow> Inl e | Inr (t, a) \<Rightarrow> Inr (Some t, fst a))))
             (DetectNATType bound query (DefaultSTUNServers ! 0) (DefaultSTUNServers ! 1)))"

definition discoverExternalEndpoint :: "iface list option \<Rightarrow> bool \<Rightarrow> (string \<Rightarrow> address stun option) \<Rightarrow> DHTDiscovery \<Rightarrow>
    DHTDiscovery go option" where
  "discoverExternalEndpoint ifaces bound query d =
     (let ep6 = (if cfg_DisableIPv6 (dd_config d) then [] else discoverIPv6Endpoint ifaces d) in
      if ep6 \<noteq> [] then Some (Inr (set_node d ((SetEndpoint (dd_localNode d) ep6)\<lparr>ln_NATType := NATUnknown\<rparr>)))
      else map_option (\<lambda>r. and_then r (\<lambda>q. Inr (case q of
          Inl _ \<Rightarrow> d
        | Inr (t, ip) \<Rightarrow> set_node d ((SetEndpoint (dd_localNode d)
              (join_host_port (ip_string ip) (itoa (cfg_WGListenPort (dd_config d)))))
              \<lparr>ln_NATType := (case t of Some t \<Rightarrow> t | None \<Rightarrow> NATUnknown)\<rparr>)))) (stun_probe bound query))"

text \<open>A tick of the refresh loop. With a single server it does not touch the type of the NAT.\<close>

definition stun_refresh :: "iface list option \<Rightarrow> bool \<Rightarrow> (string \<Rightarrow> address stun option) \<Rightarrow> DHTDiscovery \<Rightarrow>
    DHTDiscovery go option" where
  "stun_refresh ifaces bound query d =
     (let ep6 = (if cfg_DisableIPv6 (dd_config d) then [] else discoverIPv6Endpoint ifaces d);
          renew = (\<lambda>n ep. if ep \<noteq> GetEndpoint n then SetEndpoint n ep else n) in
      if ep6 \<noteq> [] then Some (Inr (set_node d ((renew (dd_localNode d) ep6)\<lparr>ln_NATType := NATUnknown\<rparr>)))
      else map_option (\<lambda>r. and_then r (\<lambda>q. Inr (case q of
          Inl _ \<Rightarrow> d
        | Inr (t, ip) \<Rightarrow>
            (let n = renew (dd_localNode d) (join_host_port (ip_string ip) (itoa (cfg_WGListenPort (dd_config d))))
             in set_node d (case t of Some t \<Rightarrow> n\<lparr>ln_NATType := t\<rparr> | None \<Rightarrow> n))))) (stun_probe bound query))"

section \<open>Control endpoints\<close>

definition setControlEndpoint :: "DHTDiscovery \<Rightarrow> string \<Rightarrow> string \<Rightarrow> DHTDiscovery" where
  "setControlEndpoint d peerPubKey endpoint =
     (if peerPubKey = [] then d
      else let normalized = filterEndpointForConfig (normalizeKnownPeerEndpoint endpoint) (cfg_DisableIPv6 (dd_config d)) in
        if normalized = [] then d
        else d\<lparr>dd_controlPeers := fmupd peerPubKey normalized (dd_controlPeers d)\<rparr>)"

definition controlEndpointForPeer :: "DHTDiscovery \<Rightarrow> PeerInfo \<Rightarrow> string" where
  "controlEndpointForPeer d peer =
     (if WGPubKey peer = [] then []
      else if WGPubKey peer = ln_WGPubKey (dd_localNode d) then []
      else case fmlookup (dd_controlPeers d) (WGPubKey peer) of
        Some endpoint \<Rightarrow> endpoint
      | None \<Rightarrow>
          (let endpoint = toControlEndpoint (Endpoint peer) (control_port d) in
           if endpoint \<noteq> [] then (if cfg_DisableIPv6 (dd_config d) \<and> exchange_isIPv6Endpoint endpoint then [] else endpoint)
           else []))"

section \<open>Throttling and backoff\<close>

definition markContacted :: "gotime \<Rightarrow> DHTDiscovery \<Rightarrow> string \<Rightarrow> duration \<Rightarrow> bool \<times> DHTDiscovery" where
  "markContacted now d addr minInterval =
     (if (case fmlookup (dd_contactedPeers d) addr of
            None \<Rightarrow> False | Some lastContact \<Rightarrow> time_sub now lastContact < minInterval)
      then (False, d)
      else (True, d\<lparr>dd_contactedPeers := fmupd addr now (dd_contactedPeers d)\<rparr>))"

definition canAttemptRendezvous :: "gotime \<Rightarrow> DHTDiscovery \<Rightarrow> string \<Rightarrow> bool" where
  "canAttemptRendezvous now d pubKey =
     (case fmlookup (dd_rendezvousBackoff d) pubKey of
        None \<Rightarrow> True
      | Some entry \<Rightarrow> now > be_nextAttempt entry)"

definition recordRendezvousAttempt :: "gotime \<Rightarrow> DHTDiscovery \<Rightarrow> string \<Rightarrow> bool \<Rightarrow> DHTDiscovery" where
  "recordRendezvousAttempt now d pubKey success =
     (if success then d\<lparr>dd_rendezvousBackoff := fmdrop pubKey (dd_rendezvousBackoff d)\<rparr>
      else let nextBackoff = (case fmlookup (dd_rendezvousBackoff d) pubKey of
                 None \<Rightarrow> RendezvousMinBackoff
               | Some existing \<Rightarrow>
                   (let b = be_duration existing * 2;
                        b = (if b < RendezvousMinBackoff then RendezvousMinBackoff else b)
                    in if b > RendezvousMaxBackoff then RendezvousMaxBackoff else b))
        in d\<lparr>dd_rendezvousBackoff := fmupd pubKey \<lparr>be_nextAttempt = now + nextBackoff, be_duration = nextBackoff\<rparr>
               (dd_rendezvousBackoff d)\<rparr>)"

section \<open>Time slots\<close>

text \<open>Whether an instant is in the slot of a pair, for a window and a phase in seconds.\<close>

definition in_slot :: "int \<Rightarrow> int \<Rightarrow> 64 word \<Rightarrow> gotime \<Rightarrow> bool" where
  "in_slot windowSeconds phaseSeconds seed now =
     (let offset = int (unat (seed mod of_int windowSeconds));
          position = go_rem (unix_of now) windowSeconds;
          delta = position - offset;
          delta = (if delta < 0 then delta + windowSeconds else delta)
      in delta < phaseSeconds)"

definition shouldAttemptRendezvous :: "DHTDiscovery \<Rightarrow> string \<Rightarrow> gotime \<Rightarrow> bool" where
  "shouldAttemptRendezvous d remoteKey now =
     (if remoteKey = [] then False
      else let windowSeconds = go_quot RendezvousWindow Second; phaseSeconds = go_quot RendezvousPhase Second in
        if windowSeconds \<le> 0 then True
        else in_slot windowSeconds (if phaseSeconds \<le> 0 then 1 else phaseSeconds)
               (pairSeed (ln_WGPubKey (dd_localNode d)) remoteKey) now)"

definition shouldAttemptIPv6Sync :: "DHTDiscovery \<Rightarrow> string \<Rightarrow> gotime \<Rightarrow> bool" where
  "shouldAttemptIPv6Sync d remoteKey now =
     (if remoteKey = [] then False
      else let windowSeconds = go_quot IPv6SyncWindow Second; phaseSeconds = go_quot IPv6SyncPhase Second in
        if windowSeconds \<le> 0 then True
        else in_slot windowSeconds (if phaseSeconds \<le> 0 then 1 else phaseSeconds)
               (pairSeed (ln_WGPubKey (dd_localNode d)) remoteKey) now)"

section \<open>Introducers\<close>

record introducerCandidate =
  ic_pubKey :: string
  ic_endpoint :: string
  ic_controlEndpoint :: string
  ic_isExplicit :: bool

record rendezvousIntroducer =
  ri_WGPubKey :: string
  ri_Endpoint :: string
  ri_ControlEndpoint :: string

definition discovery_hasDiscoveryMethod :: "string list \<Rightarrow> string \<Rightarrow> bool" where
  "discovery_hasDiscoveryMethod methods m = list_ex (\<lambda>x. x = m) methods"

definition hasAnyDHTReachability :: "string list \<Rightarrow> bool" where
  "hasAnyDHTReachability methods = list_ex (\<lambda>m. has_prefix m DHTMethod) methods"

definition isAutoIntroducerCandidate :: "gotime \<Rightarrow> DHTDiscovery \<Rightarrow> PeerInfo \<Rightarrow> handshakes \<Rightarrow> bool" where
  "isAutoIntroducerCandidate now d p hs =
     (if time_sub now (LastSeen p) > 2 * Minute then False
      else if fmlookup (dd_controlPeers d) (WGPubKey p) = None then False
      else case Option.bind hs (\<lambda>m. fmlookup m (WGPubKey p)) of
        Some ts \<Rightarrow> ts > 0 \<and> time_sub now (time_unix ts) < 2 * Minute
      | None \<Rightarrow> False)"

definition introducer_candidate :: "gotime \<Rightarrow> DHTDiscovery \<Rightarrow> handshakes \<Rightarrow> string \<Rightarrow> PeerInfo \<Rightarrow> introducerCandidate option" where
  "introducer_candidate now d hs remoteKey p =
     (let controlEndpoint = controlEndpointForPeer d p in
      if WGPubKey p = [] \<or> WGPubKey p = ln_WGPubKey (dd_localNode d) \<or> WGPubKey p = remoteKey then None
      else if \<not> hasAnyDHTReachability (DiscoveredVia p) then None
      else if Endpoint p = [] \<or> \<not> isLikelyPublicEndpoint (Endpoint p) then None
      else if cfg_DisableIPv6 (dd_config d) \<and> exchange_isIPv6Endpoint (Endpoint p) then None
      else if controlEndpoint = [] \<or> \<not> isLikelyPublicEndpoint controlEndpoint then None
      else if \<not> Introducer p \<and> \<not> (\<not> Introducer p \<and> isAutoIntroducerCandidate now d p hs) then None
      else Some \<lparr>ic_pubKey = WGPubKey p, ic_endpoint = Endpoint p, ic_controlEndpoint = controlEndpoint,
                 ic_isExplicit = Introducer p\<rparr>)"

text \<open>Explicit introducers first, then by key and endpoint.\<close>

definition candidate_key :: "introducerCandidate \<Rightarrow> bool \<times> string \<times> string" where
  "candidate_key c = (\<not> ic_isExplicit c, ic_pubKey c, ic_endpoint c)"

definition to_introducer :: "introducerCandidate \<Rightarrow> rendezvousIntroducer" where
  "to_introducer c = \<lparr>ri_WGPubKey = ic_pubKey c, ri_Endpoint = ic_endpoint c, ri_ControlEndpoint = ic_controlEndpoint c\<rparr>"

definition selectRendezvousIntroducers :: "gotime \<Rightarrow> handshakes \<Rightarrow> DHTDiscovery \<Rightarrow> string \<Rightarrow> PeerInfo list \<Rightarrow> int \<Rightarrow>
    rendezvousIntroducer list" where
  "selectRendezvousIntroducers now hs d remoteKey ps maxCount =
     (let candidates = List.map_filter (introducer_candidate now d hs remoteKey) ps in
      if candidates = [] \<or> maxCount \<le> 0 then []
      else let cs = sort_key candidate_key candidates;
               start = unat (pairSeed (ln_WGPubKey (dd_localNode d)) remoteKey mod of_nat (length cs));
               n = (if maxCount > int (length cs) then length cs else nat maxCount)
        in map (\<lambda>i. to_introducer (cs ! ((start + i) mod length cs))) [0..<n])"

section \<open>Rendezvous with a peer\<close>

text \<open>
  What one operation observes besides what the exchange does: the handshakes of the interface and
  whether a route to the IPv6 internet exists.
\<close>

record denv =
  de_x :: xenv
  de_handshakes :: handshakes
  de_ipv6route :: bool

abbreviation de_now :: "denv \<Rightarrow> gotime" where "de_now e \<equiv> xe_now (de_x e)"

definition hasIPv6Route :: "denv \<Rightarrow> DHTDiscovery \<Rightarrow> bool" where
  "hasIPv6Route e d = (if cfg_DisableIPv6 (dd_config d) then False else de_ipv6route e)"

definition getPeerHandshakeTS :: "handshakes \<Rightarrow> string \<Rightarrow> string \<Rightarrow> int" where
  "getPeerHandshakeTS hs iface peerPubKey =
     (if iface = [] \<or> peerPubKey = [] then 0 else case hs of None \<Rightarrow> 0 | Some m \<Rightarrow> go_index 0 m peerPubKey)"

definition waitForPeerHandshake :: "handshakes list \<Rightarrow> handshakes \<Rightarrow> string \<Rightarrow> string \<Rightarrow> int \<Rightarrow> int" where
  "waitForPeerHandshake polls final iface peerPubKey baseline =
     (case find (\<lambda>hs. getPeerHandshakeTS hs iface peerPubKey > baseline) polls of
        Some hs \<Rightarrow> getPeerHandshakeTS hs iface peerPubKey
      | None \<Rightarrow> getPeerHandshakeTS final iface peerPubKey)"

text \<open>The goroutines that a rendezvous starts; their bodies follow below.\<close>

datatype dht_job = ExchangeJob string string | OfferJob string string | PunchJob string string

fun contact_introducers :: "gotime \<Rightarrow> DHTDiscovery \<Rightarrow> string \<Rightarrow> rendezvousIntroducer list \<Rightarrow> DHTDiscovery \<times> dht_job list" where
  "contact_introducers now d target [] = (d, [])"
| "contact_introducers now d target (i # rest) =
     (if ri_ControlEndpoint i = [] then contact_introducers now d target rest
      else case markContacted now d (ri_ControlEndpoint i) (20 * Second) of
        (False, d') \<Rightarrow> contact_introducers now d' target rest
      | (True, d') \<Rightarrow>
          (let (d'', js) = contact_introducers now d' target rest in (d'', OfferJob (ri_ControlEndpoint i) target # js)))"

definition direct_route :: "denv \<Rightarrow> DHTDiscovery \<Rightarrow> PeerInfo \<Rightarrow> bool" where
  "direct_route e d peer \<longleftrightarrow> Endpoint peer \<noteq> []
     \<and> \<not> (cfg_DisableIPv6 (dd_config d) \<and> exchange_isIPv6Endpoint (Endpoint peer))
     \<and> \<not> (has_prefix (Endpoint peer) ''['' \<and> \<not> hasIPv6Route e d)"

definition ipv6_sync :: "denv \<Rightarrow> DHTDiscovery \<Rightarrow> PeerInfo \<Rightarrow> DHTDiscovery \<times> dht_job list" where
  "ipv6_sync e d peer =
     (let own = GetEndpoint (dd_localNode d); target = controlEndpointForPeer d peer in
      if own \<noteq> [] \<and> exchange_isIPv6Endpoint own \<and> shouldAttemptIPv6Sync d (WGPubKey peer) (de_now e) \<and> target \<noteq> []
      then case markContacted (de_now e) d (''ipv6-sync:'' @ target) (3 * Second) of
             (True, d') \<Rightarrow> (d', [ExchangeJob target (DHTMethod @ ''-ipv6-sync'')])
           | (False, d') \<Rightarrow> (d', [])
      else (d, []))"

definition via_introducers :: "denv \<Rightarrow> DHTDiscovery \<Rightarrow> PeerInfo \<Rightarrow> DHTDiscovery \<times> dht_job list" where
  "via_introducers e d peer =
     (let active = PeerStore_GetActive (xe_order (de_x e) 1 (fmdom (peers (dd_peerStore d)))) (de_now e) (dd_peerStore d);
          introducers = selectRendezvousIntroducers (de_now e) (de_handshakes e) d (WGPubKey peer) active RendezvousMaxIntroducers;
          target = controlEndpointForPeer d peer
      in if introducers \<noteq> [] then contact_introducers (de_now e) d (WGPubKey peer) introducers
         else if \<not> direct_route e d peer then (d, [])
         else if target = [] then (d, [])
         else case markContacted (de_now e) d target (20 * Second) of
           (False, d') \<Rightarrow> (d', [])
         | (True, d') \<Rightarrow> (d', [PunchJob target (WGPubKey peer)]))"

definition tryRendezvousForPeer :: "denv \<Rightarrow> DHTDiscovery \<Rightarrow> PeerInfo \<Rightarrow> DHTDiscovery \<times> dht_job list" where
  "tryRendezvousForPeer e d peer =
     (let hs = getPeerHandshakeTS (de_handshakes e) (cfg_InterfaceName (dd_config d)) (WGPubKey peer);
          age = time_sub (de_now e) (time_unix hs);
          direct6 = (direct_route e d peer \<and> exchange_isIPv6Endpoint (Endpoint peer))
      in if cfg_DisablePunching (dd_config d) then (d, [])
         else if WGPubKey peer = [] then (d, [])
         else if hs > 0 \<and> age < 2 * Minute then (d, [])
         else if direct6 \<and> hs > 0 \<and> age < 90 * Second then (d, [])
         else let (d1, js1) = (if direct6 then ipv6_sync e d peer else (d, []));
                  (d2, js2) = via_introducers e d1 peer
           in (d2, js1 @ js2))"

fun try_peers :: "denv \<Rightarrow> (DHTDiscovery \<Rightarrow> PeerInfo \<Rightarrow> bool) \<Rightarrow> DHTDiscovery \<Rightarrow> PeerInfo list \<Rightarrow> DHTDiscovery \<times> dht_job list" where
  "try_peers e ok d [] = (d, [])"
| "try_peers e ok d (p # ps) =
     (if WGPubKey p = [] \<or> WGPubKey p = ln_WGPubKey (dd_localNode d) \<or> Endpoint p = []
         \<or> \<not> canAttemptRendezvous (de_now e) d (WGPubKey p) \<or> \<not> ok d p
      then try_peers e ok d ps
      else let (d1, js1) = tryRendezvousForPeer e d p; (d2, js2) = try_peers e ok d1 ps in (d2, js1 @ js2))"

definition tryTransitivePeersWithBackoff :: "denv \<Rightarrow> DHTDiscovery \<Rightarrow> DHTDiscovery \<times> dht_job list" where
  "tryTransitivePeersWithBackoff e d = try_peers e (\<lambda>_ _. True) d
     (PeerStore_GetActive (xe_order (de_x e) 0 (fmdom (peers (dd_peerStore d)))) (de_now e) (dd_peerStore d))"

definition checkStaleHandshakes :: "denv \<Rightarrow> DHTDiscovery \<Rightarrow> DHTDiscovery \<times> dht_job list" where
  "checkStaleHandshakes e d = try_peers e (\<lambda>d p. shouldAttemptRendezvous d (WGPubKey p) (de_now e)) d
     (PeerStore_GetActive (xe_order (de_x e) 0 (fmdom (peers (dd_peerStore d)))) (de_now e) (dd_peerStore d))"

definition handlePeerEvent :: "denv \<Rightarrow> DHTDiscovery \<Rightarrow> PeerEvent \<Rightarrow> DHTDiscovery \<times> dht_job list" where
  "handlePeerEvent e d ev =
     (if PubKey ev = [] \<or> PubKey ev = ln_WGPubKey (dd_localNode d) then (d, [])
      else case PeerStore_Get (dd_peerStore d) (PubKey ev) of
        None \<Rightarrow> (d, [])
      | Some peer \<Rightarrow>
          if discovery_hasDiscoveryMethod (DiscoveredVia peer) ''dht-rendezvous'' \<and> time_sub (de_now e) (LastSeen peer) < 2 * Minute
          then (d, [])
          else if \<not> canAttemptRendezvous (de_now e) d (PubKey ev) then (d, [])
          else tryRendezvousForPeer e d peer)"

section \<open>The goroutines\<close>

text \<open>
  An exchange with an address waits for the events \<open>evs\<close> and records its result at \<open>finished\<close>.
  The log line slices the first eight bytes of the key.
\<close>

definition exchangeWithAddress :: "xenv \<Rightarrow> gotime \<Rightarrow> wait_event list \<Rightarrow> DHTDiscovery \<Rightarrow> string \<Rightarrow> string \<Rightarrow>
    (DHTDiscovery \<times> xeffect list) go option" where
  "exchangeWithAddress env finished evs d addrStr discoveryMethod =
     (if cfg_DisableIPv6 (dd_config d) \<and> exchange_isIPv6Endpoint addrStr then Some (Inr (d, []))
      else map_option (\<lambda>r. and_then r (\<lambda>(res, pe, es).
        let d1 = d\<lparr>dd_exchange := pe\<rparr> in
        case res of
          Inl _ \<Rightarrow> Inr (d1, es)
        | Inr peerInfo \<Rightarrow>
            if length (WGPubKey peerInfo) < 8 then Inl SliceOutOfRange
            else let d2 = setControlEndpoint d1 (WGPubKey peerInfo) addrStr in
              and_then (px_update finished pe peerInfo discoveryMethod) (\<lambda>pe'. Inr (d2\<lparr>dd_exchange := pe'\<rparr>, es))))
        (ExchangeWithPeer env (dd_exchange d) addrStr evs))"

definition contactPeer :: "xenv \<Rightarrow> gotime \<Rightarrow> wait_event list \<Rightarrow> DHTDiscovery \<Rightarrow> string \<Rightarrow>
    (DHTDiscovery \<times> xeffect list) go option" where
  "contactPeer env finished evs d addrStr =
     (if cfg_DisableIPv6 (dd_config d) \<and> exchange_isIPv6Endpoint addrStr then Some (Inr (d, []))
      else if addrStr = GetEndpoint (dd_localNode d) then Some (Inr (d, []))
      else case markContacted (xe_now env) d addrStr (60 * Second) of
        (False, d') \<Rightarrow> Some (Inr (d', []))
      | (True, d') \<Rightarrow> exchangeWithAddress env finished evs d' addrStr DHTMethod)"

definition offer_job :: "xenv \<Rightarrow> DHTDiscovery \<Rightarrow> string \<Rightarrow> string \<Rightarrow> DHTDiscovery \<times> xeffect list" where
  "offer_job env d endpoint target =
     (case RequestRendezvous env (dd_exchange d) endpoint target [] of
        Inl _ \<Rightarrow> (recordRendezvousAttempt (xe_now env) d target False, [])
      | Inr es \<Rightarrow> (d, es))"

text \<open>\<open>hs\<close> are the handshakes before the exchange, the rest of what happens is the attempt.\<close>

definition punch_job :: "handshakes \<Rightarrow> attempt \<Rightarrow> DHTDiscovery \<Rightarrow> string \<Rightarrow> string \<Rightarrow>
    (DHTDiscovery \<times> xeffect list) go option" where
  "punch_job hs att d endpoint target =
     (let iface = cfg_InterfaceName (dd_config d); baseline = getPeerHandshakeTS hs iface target in
      map_option (\<lambda>r. and_then r (\<lambda>(res, pe, es).
        let d1 = d\<lparr>dd_exchange := pe\<rparr> in
        case res of
          Inl _ \<Rightarrow> Inr (recordRendezvousAttempt (at_done att) d1 target False, es)
        | Inr peerInfo \<Rightarrow>
            if waitForPeerHandshake (at_polls att) (at_final att) iface target baseline \<le> baseline
            then Inr (recordRendezvousAttempt (at_done att) d1 target False, es)
            else let d2 = setControlEndpoint d1 (WGPubKey peerInfo) endpoint in
              and_then (px_update (at_done att) pe peerInfo (DHTMethod @ ''-transitive'')) (\<lambda>pe'.
                Inr (recordRendezvousAttempt (at_done att) (d2\<lparr>dd_exchange := pe'\<rparr>) target True, es))))
        (ExchangeWithPeer (at_env att) (dd_exchange d) endpoint (at_events att)))"

section \<open>The DHT\<close>

text \<open>The identifiers that are announced to and queried: the one of this hour, and of the last one while they differ.\<close>

definition network_ids :: "gotime \<Rightarrow> DHTDiscovery \<Rightarrow> byte list list" where
  "network_ids now d = (let (current, previous) = GetCurrentAndPreviousNetworkIDs (cfg_Secret (dd_config d)) now in
     current # (if current \<noteq> previous then [previous] else []))"

text \<open>The calls of the server: an identifier with a port, which is 0 for a query.\<close>

definition announce :: "gotime \<Rightarrow> DHTDiscovery \<Rightarrow> (byte list \<times> int) list" where
  "announce now d = map (\<lambda>i. (i, px_port (dd_exchange d))) (network_ids now d)"

definition queryPeers :: "gotime \<Rightarrow> DHTDiscovery \<Rightarrow> (byte list \<times> int) list" where
  "queryPeers now d = map (\<lambda>i. (i, 0)) (network_ids now d)"

definition next_query_interval :: "DHTDiscovery \<Rightarrow> duration \<Rightarrow> duration" where
  "next_query_interval d interval =
     (if PeerStore_Count (dd_peerStore d) \<ge> 3 \<and> interval = DHTQueryInterval then DHTQueryIntervalStable else interval)"

definition nodesFilePath :: "DHTDiscovery \<Rightarrow> string" where
  "nodesFilePath d = ''/var/lib/wgmesh/'' @ cfg_InterfaceName (dd_config d) @ ''-''
     @ hex_bytes (take 8 (NetworkID (cfg_Keys (dd_config d)))) @ ''-dht.nodes''"

text \<open>
  \<open>r\<close> is the random number between 0 and 1, and \<open>fl\<close> rounds the results of the floating point
  operations.
\<close>

definition dhtBackoffDelay :: "(rat \<Rightarrow> rat) \<Rightarrow> rat \<Rightarrow> duration \<Rightarrow> duration" where
  "dhtBackoffDelay fl r delay =
     (let jitter = fl (fl (r - 1/2) * (1/2)) in trunc_rat (fl (fl (of_int delay) * fl (1 + jitter))))"

definition attemptBootstrapLookup :: "bool \<Rightarrow> bool \<Rightarrow> int \<Rightarrow> bool" where
  "attemptBootstrapLookup cancelled announced numNodes = (if cancelled then False else if \<not> announced then False else numNodes > 0)"

text \<open>
  The retry loop: for every attempt the random number of its delay, whether the context is
  cancelled before the lookup, and the outcome of the lookup. The result are the delays that were
  waited for and whether the table was populated, None when the attempts do not end the loop.
\<close>

fun bootstrap_loop :: "(rat \<Rightarrow> rat) \<Rightarrow> duration \<Rightarrow> nat \<Rightarrow> duration list \<Rightarrow> (rat \<times> bool \<times> bool) list \<Rightarrow> (bool \<times> duration list) option" where
  "bootstrap_loop fl delay attempt waited [] = None"
| "bootstrap_loop fl delay attempt waited ((r, cancelled, found) # rest) =
     (let waited = (if attempt > 0 then waited @ [dhtBackoffDelay fl r delay] else waited) in
      if cancelled then Some (False, waited)
      else if found then Some (True, waited)
      else let doubled = delay * 2 in
        bootstrap_loop fl (if doubled > DHTBootstrapMaxDelay then DHTBootstrapMaxDelay else doubled) (Suc attempt) waited rest)"

definition bootstrapWithRetry :: "(rat \<Rightarrow> rat) \<Rightarrow> (rat \<times> bool \<times> bool) list \<Rightarrow> (bool \<times> duration list) option" where
  "bootstrapWithRetry fl attempts = bootstrap_loop fl DHTBootstrapInitialDelay 0 [] attempts"

section \<open>Starting and stopping\<close>

datatype dht_error = DHTAlreadyRunning | ExchangeFailed exchange_error | GossipFailed exchange_error
  | DHTBindFailed | NoBootstrapNodes | ServerFailed

text \<open>
  What starting depends on: the sockets that can be bound, the names that resolve, and the
  library that creates the server.
\<close>

record start_env =
  se_ifaces :: "iface list option"
  se_stun_bound :: bool
  se_stun :: "string \<Rightarrow> address stun option"
  se_exchange_bound :: bool
  se_lan_joined :: bool
  se_dht_bind :: "int \<Rightarrow> int option"
  se_resolve :: "string \<Rightarrow> UDPAddr option"
  se_server :: bool

definition initDHTServer :: "start_env \<Rightarrow> DHTDiscovery \<Rightarrow> dht_error option \<times> DHTDiscovery" where
  "initDHTServer se d =
     (case (case se_dht_bind se (px_port (dd_exchange d) + 1) of Some p \<Rightarrow> Some p | None \<Rightarrow> se_dht_bind se 0) of
        None \<Rightarrow> (Some DHTBindFailed, d)
      | Some p \<Rightarrow>
          (let d1 = d\<lparr>dd_dhtPort := p\<rparr> in
           if List.map_filter (se_resolve se) DHTBootstrapNodes = [] then (Some NoBootstrapNodes, d1)
           else if \<not> se_server se then (Some ServerFailed, d1)
           else (None, d1\<lparr>dd_server := True\<rparr>)))"

definition start_lan :: "start_env \<Rightarrow> DHTDiscovery \<Rightarrow> DHTDiscovery" where
  "start_lan se d =
     (if cfg_LANDiscovery (dd_config d)
      then d\<lparr>dd_lan := (case LAN_Start (se_lan_joined se) (NewLANDiscovery (dd_config d) (dd_localNode d) (dd_peerStore d)) of
               Inl _ \<Rightarrow> None | Inr l \<Rightarrow> Some l)\<rparr>
      else d)"

definition create_gossip :: "DHTDiscovery \<Rightarrow> DHTDiscovery" where
  "create_gossip d =
     (if cfg_Gossip (dd_config d)
      then d\<lparr>dd_gossip := Some (NewMeshGossipWithExchange (dd_config d) (dd_localNode d) (dd_peerStore d)),
             dd_exchange := SetAnnounceHandler (dd_exchange d) (Some HandleAnnounceFrom)\<rparr>
      else d)"

text \<open>After the external endpoint is known.\<close>

definition start_layers :: "start_env \<Rightarrow> DHTDiscovery \<Rightarrow> dht_error option \<times> DHTDiscovery" where
  "start_layers se d =
     (let d1 = create_gossip d in
      case Exchange_Start (se_exchange_bound se) (dd_exchange d1) of
        Inl e \<Rightarrow> (Some (ExchangeFailed e), d1)
      | Inr pe \<Rightarrow>
          (let d2 = start_lan se (d1\<lparr>dd_exchange := pe\<rparr>) in
           case (case dd_gossip d2 of None \<Rightarrow> Inr None | Some g \<Rightarrow> (case Gossip_Start None g of Inl e \<Rightarrow> Inl e | Inr g' \<Rightarrow> Inr (Some g'))) of
             Inl e \<Rightarrow> (Some (GossipFailed e), d2\<lparr>dd_exchange := Exchange_Stop (dd_exchange d2)\<rparr>)
           | Inr g \<Rightarrow>
               (case initDHTServer se (d2\<lparr>dd_gossip := g\<rparr>) of
                  (None, d3) \<Rightarrow> (None, d3)
                | (Some e, d3) \<Rightarrow> (Some e, d3\<lparr>dd_gossip := map_option Gossip_Stop (dd_gossip d3),
                                              dd_exchange := Exchange_Stop (dd_exchange d3)\<rparr>))))"

definition DHT_Start :: "start_env \<Rightarrow> DHTDiscovery \<Rightarrow> (dht_error option \<times> DHTDiscovery) go option" where
  "DHT_Start se d =
     (if dd_running d then Some (Inr (Some DHTAlreadyRunning, d))
      else map_option (\<lambda>r. and_then r (\<lambda>d1. Inr (start_layers se d1)))
             (discoverExternalEndpoint (se_ifaces se) (se_stun_bound se) (se_stun se) (d\<lparr>dd_running := True\<rparr>)))"

definition goodbye_targets :: "xenv \<Rightarrow> DHTDiscovery \<Rightarrow> string list" where
  "goodbye_targets env d =
     List.map_filter (\<lambda>p.
       if WGPubKey p = [] \<or> WGPubKey p = ln_WGPubKey (dd_localNode d) then None
       else let endpoint = controlEndpointForPeer d p; other = toControlEndpoint (Endpoint p) (control_port d) in
         if endpoint \<noteq> [] then Some endpoint else if other \<noteq> [] then Some other else None)
       (PeerStore_GetAll (xe_order env 0 (fmdom (peers (dd_peerStore d)))) (dd_peerStore d))"

text \<open>The targets are a set; the \<open>i\<close>-th message takes the \<open>i\<close>-th nonce.\<close>

definition broadcastGoodbye :: "xenv \<Rightarrow> DHTDiscovery \<Rightarrow> xeffect list" where
  "broadcastGoodbye env d =
     concat (map (\<lambda>(i, endpoint). logged (SendGoodbye (env\<lparr>xe_nonce := \<lambda>j. xe_nonce env (i + j)\<rparr>) (dd_exchange d) endpoint))
       (enumerate 0 (xe_order env 1 (fset_of_list (goodbye_targets env d)))))"

definition DHT_Stop :: "xenv \<Rightarrow> DHTDiscovery \<Rightarrow> DHTDiscovery \<times> xeffect list" where
  "DHT_Stop env d =
     (if \<not> dd_running d then (d, [])
      else (d\<lparr>dd_running := False, dd_cancelled := True, dd_lan := map_option LAN_Stop (dd_lan d),
              dd_gossip := map_option Gossip_Stop (dd_gossip d), dd_exchange := Exchange_Stop (dd_exchange d)\<rparr>,
            broadcastGoodbye env (d\<lparr>dd_running := False\<rparr>)))"

section \<open>Lemmas on slots and introducers\<close>

lemma unat_mod_64:
  assumes "0 < w" "w < 18446744073709551616"
  shows "int (unat (seed mod (of_int w :: 64 word))) = int (unat seed) mod w"
proof -
  have "unat (of_int w :: 64 word) = nat w"
    using assms by (simp add: unat_eq_nat_uint uint_word_of_int take_bit_int_eq_self)
  then show ?thesis using assms(1) by (simp add: unat_mod zmod_int)
qed

lemma go_rem_nonneg: "0 \<le> a \<Longrightarrow> 0 < b \<Longrightarrow> go_rem a b = a mod b"
  by (cases "a = 0") (simp_all add: go_rem_def go_quot_def minus_mult_div_eq_mod)

lemma in_slot_mod:
  assumes "0 < w" "w < 18446744073709551616" "0 \<le> now"
  shows "in_slot w ph seed now \<longleftrightarrow> (unix_of now - int (unat seed)) mod w < ph"
proof -
  have pos: "go_rem (unix_of now) w = unix_of now mod w"
    using assms by (intro go_rem_nonneg) (simp_all add: unix_of_def Second_def pos_imp_zdiv_nonneg_iff)
  define x where "x = unix_of now mod w"
  define y where "y = int (unat seed) mod w"
  have b: "0 \<le> x" "x < w" "0 \<le> y" "y < w" using assms(1) by (simp_all add: x_def y_def)
  have "(unix_of now - int (unat seed)) mod w = (x - y) mod w" by (simp add: x_def y_def mod_diff_eq)
  also have "\<dots> = (if x - y < 0 then x - y + w else x - y)"
  proof (cases "x - y < 0")
    case True
    have "(x - y) mod w = (x - y + w) mod w" by simp
    also have "\<dots> = x - y + w" using True b by (intro mod_pos_pos_trivial) auto
    finally show ?thesis using True by simp
  qed (use b in auto)
  finally show ?thesis
    unfolding in_slot_def Let_def pos unat_mod_64 [OF assms(1,2)] x_def [symmetric] y_def [symmetric] by simp
qed

lemma rendezvous_slot:
  assumes "k \<noteq> []" "0 \<le> now"
  shows "shouldAttemptRendezvous d k now \<longleftrightarrow>
    (unix_of now - int (unat (pairSeed (ln_WGPubKey (dd_localNode d)) k))) mod 20 < 4"
proof -
  have "go_quot RendezvousWindow Second = 20" "go_quot RendezvousPhase Second = 4"
    by (simp_all add: go_quot_def RendezvousWindow_def RendezvousPhase_def Second_def)
  then show ?thesis using assms in_slot_mod [OF _ _ assms(2), of 20 4] by (simp add: shouldAttemptRendezvous_def)
qed

lemma sort_key_unique:
  assumes "set xs = set ys" "distinct xs" "distinct ys" "inj_on f (set xs)"
  shows "sort_key f xs = sort_key f ys"
proof -
  have "set (map f (sort_key f xs)) = set (map f (sort_key f ys))" using assms(1) by simp
  moreover have "distinct (map f (sort_key f xs))" "distinct (map f (sort_key f ys))"
    using assms by (simp_all add: distinct_map)
  ultimately have "map f (sort_key f xs) = map f (sort_key f ys)"
    by (intro sorted_distinct_set_unique) (simp_all add: sorted_sort_key)
  then show ?thesis using assms(1,4) by (auto intro: map_inj_on)
qed

lemma map_filter_distinct:
  assumes "distinct (map g xs)" "\<And>x y. x \<in> set xs \<Longrightarrow> f x = Some y \<Longrightarrow> h y = g x"
  shows "distinct (map h (List.map_filter f xs))"
  using assms
proof (induction xs)
  case (Cons x xs)
  have IH: "distinct (map h (List.map_filter f xs))" using Cons by simp
  have "h y \<notin> h ` set (List.map_filter f xs)" if "f x = Some y" for y
  proof
    assume "h y \<in> h ` set (List.map_filter f xs)"
    then obtain z y' where z: "z \<in> set xs" "f z = Some y'" "h y = h y'" by (auto simp: List.map_filter_def)
    then have "g x = g z" using Cons.prems(2) [of x y] Cons.prems(2) [of z y'] that by simp
    with z(1) Cons.prems(1) show False by (auto simp: image_iff)
  qed
  with IH show ?case by (cases "f x") (simp_all add: map_filter_simps)
qed (simp add: map_filter_simps)

text \<open>The candidates of a node for the rendezvous with a peer, and the rotation that both sides make.\<close>

abbreviation candidates_of :: "gotime \<Rightarrow> handshakes \<Rightarrow> DHTDiscovery \<Rightarrow> string \<Rightarrow> PeerInfo list \<Rightarrow> introducerCandidate list" where
  "candidates_of now hs d k ps \<equiv> List.map_filter (introducer_candidate now d hs k) ps"

lemma candidate_fields:
  assumes "introducer_candidate now d hs k p = Some c"
  shows "ic_pubKey c = WGPubKey p" "ic_controlEndpoint c \<noteq> []" "WGPubKey p \<noteq> []"
    "WGPubKey p \<noteq> ln_WGPubKey (dd_localNode d)" "WGPubKey p \<noteq> k" "isLikelyPublicEndpoint (ic_controlEndpoint c)"
  using assms by (auto simp: introducer_candidate_def Let_def split: if_splits)

lemma candidates_distinct:
  assumes "distinct (map WGPubKey ps)"
  shows "distinct (map ic_pubKey (candidates_of now hs d k ps))"
  using assms by (rule map_filter_distinct) (rule candidate_fields)

definition rotated :: "64 word \<Rightarrow> 'a list \<Rightarrow> nat \<Rightarrow> 'a list" where
  "rotated seed cs n = map (\<lambda>i. cs ! ((unat (seed mod of_nat (length cs)) + i) mod length cs)) [0..<n]"

lemma select_rotated:
  "selectRendezvousIntroducers now hs d k ps m =
     (let cs = sort_key candidate_key (candidates_of now hs d k ps) in
      map to_introducer (rotated (pairSeed (ln_WGPubKey (dd_localNode d)) k) cs (min (length cs) (nat m))))"
proof (cases "candidates_of now hs d k ps = [] \<or> m \<le> 0")
  case True
  then show ?thesis by (auto simp: selectRendezvousIntroducers_def rotated_def Let_def)
next
  case False
  have "(if int l < m then l else nat m) = min l (nat m)" for l by auto
  with False show ?thesis by (simp add: selectRendezvousIntroducers_def rotated_def Let_def)
qed

lemma mod_add_inj:
  fixes s i j l :: nat
  assumes "i < l" "j < l" "(s + i) mod l = (s + j) mod l"
  shows "i = j"
proof -
  have le: "a = b" if "a \<le> b" "b < l" "(s + b) mod l = (s + a) mod l" for a b
  proof -
    have "l dvd (s + b) - (s + a)" using that by (subst mod_eq_dvd_iff_nat [symmetric]) simp_all
    then have "l dvd b - a" by simp
    then show ?thesis using that(1,2) by (auto dest: dvd_imp_le)
  qed
  show ?thesis using le [of i j] le [of j i] assms by (cases "i \<le> j") simp_all
qed

lemma rotated_distinct:
  assumes "distinct cs" "n \<le> length cs"
  shows "distinct (rotated seed cs n)" "set (rotated seed cs n) \<subseteq> set cs" "length (rotated seed cs n) = n"
proof -
  define s where "s = unat (seed mod of_nat (length cs))"
  have "i = j" if "i < n" "j < n" "(s + i) mod length cs = (s + j) mod length cs" for i j
    using mod_add_inj [OF _ _ that(3)] that(1,2) assms(2) by simp
  moreover have "cs ! ((s + i) mod length cs) = cs ! ((s + j) mod length cs) \<longleftrightarrow> (s + i) mod length cs = (s + j) mod length cs"
    if "i < n" for i j
  proof -
    have "0 < length cs" using that assms(2) by linarith
    then show ?thesis using assms(1) by (intro nth_eq_iff_index_eq) simp_all
  qed
  ultimately show "distinct (rotated seed cs n)" by (auto simp: rotated_def distinct_map inj_on_def s_def [symmetric])
  show "set (rotated seed cs n) \<subseteq> set cs" using assms(2) by (auto simp: rotated_def intro!: nth_mem mod_less_divisor)
qed (simp add: rotated_def)

lemma introducers_same:
  assumes "ln_WGPubKey (dd_localNode a) = ka" "ln_WGPubKey (dd_localNode b) = kb"
    and "distinct (map WGPubKey psa)" "distinct (map WGPubKey psb)"
    and "set (candidates_of now hs a kb psa) = set (candidates_of now' hs' b ka psb)"
  shows "selectRendezvousIntroducers now hs a kb psa m = selectRendezvousIntroducers now' hs' b ka psb m"
proof -
  let ?ca = "candidates_of now hs a kb psa" and ?cb = "candidates_of now' hs' b ka psb"
  have d: "distinct (map ic_pubKey ?ca)" "distinct (map ic_pubKey ?cb)" using assms(3,4) by (simp_all add: candidates_distinct)
  then have "inj_on candidate_key (set ?ca)" by (auto simp: distinct_map inj_on_def candidate_key_def)
  with d assms(5) have "sort_key candidate_key ?ca = sort_key candidate_key ?cb"
    by (intro sort_key_unique) (auto simp: distinct_map)
  then show ?thesis unfolding select_rotated Let_def assms(1,2) pairSeed_sym [of ka] by simp
qed

lemma introducers_wellformed:
  fixes now :: gotime and hs :: handshakes and d :: DHTDiscovery and k :: string and m :: int
  assumes "distinct (map WGPubKey ps)"
  defines "out \<equiv> selectRendezvousIntroducers now hs d k ps m"
  shows "distinct (map ri_WGPubKey out)" "length out = min (length (candidates_of now hs d k ps)) (nat m)"
    "list_all (\<lambda>i. ri_WGPubKey i \<notin> {[], k, ln_WGPubKey (dd_localNode d)} \<and> isLikelyPublicEndpoint (ri_ControlEndpoint i)) out"
proof -
  let ?cs = "sort_key candidate_key (candidates_of now hs d k ps)"
  let ?n = "min (length ?cs) (nat m)"
  let ?r = "rotated (pairSeed (ln_WGPubKey (dd_localNode d)) k) ?cs ?n"
  have out: "out = map to_introducer ?r" by (simp add: out_def select_rotated Let_def)
  have dk: "distinct (map ic_pubKey ?cs)" using candidates_distinct [OF assms(1), of now d hs k] by (simp add: distinct_map)
  then have "distinct ?cs" by (simp add: distinct_map)
  from rotated_distinct [OF this, of ?n "pairSeed (ln_WGPubKey (dd_localNode d)) k"]
  have r: "distinct ?r" "set ?r \<subseteq> set ?cs" "length ?r = ?n" by simp_all
  have "distinct (map ic_pubKey ?r)" using r(1,2) dk by (auto simp: distinct_map intro: inj_on_subset)
  then show "distinct (map ri_WGPubKey out)" by (simp add: out to_introducer_def o_def)
  show "length out = min (length (candidates_of now hs d k ps)) (nat m)" using r(3) by (simp add: out)
  have "ic_pubKey c \<notin> {[], k, ln_WGPubKey (dd_localNode d)} \<and> isLikelyPublicEndpoint (ic_controlEndpoint c)" if "c \<in> set ?r" for c
  proof -
    from that r(2) obtain p where "introducer_candidate now d hs k p = Some c" by (auto simp: List.map_filter_def)
    from candidate_fields [OF this] show ?thesis by simp
  qed
  then show "list_all (\<lambda>i. ri_WGPubKey i \<notin> {[], k, ln_WGPubKey (dd_localNode d)} \<and> isLikelyPublicEndpoint (ri_ControlEndpoint i)) out"
    by (auto simp: out list_all_iff to_introducer_def)
qed

section \<open>Lemmas on the jobs\<close>

fun job_target :: "dht_job \<Rightarrow> string option" where
  "job_target (ExchangeJob a m) = None"
| "job_target (OfferJob a k) = Some k"
| "job_target (PunchJob a k) = Some k"

text \<open>A rendezvous only marks addresses as contacted, and its jobs are for the peer.\<close>

definition only_contacts :: "DHTDiscovery \<Rightarrow> string \<Rightarrow> DHTDiscovery \<times> dht_job list \<Rightarrow> bool" where
  "only_contacts d k r \<longleftrightarrow> (\<exists>c. fst r = d\<lparr>dd_contactedPeers := c\<rparr>) \<and> (\<forall>j \<in> set (snd r). job_target j \<in> {None, Some k})"

lemma contacts_self [simp]: "\<exists>c. d = d\<lparr>dd_contactedPeers := c\<rparr>"
  by (rule exI [of _ "dd_contactedPeers d"]) simp

lemma markContacted_frame: "markContacted now d a i = (ok, d') \<Longrightarrow> \<exists>c. d' = d\<lparr>dd_contactedPeers := c\<rparr>"
  by (auto simp: markContacted_def split: if_splits)

lemma contact_introducers_frame: "only_contacts d k (contact_introducers now d k iss)"
proof (induction now d k iss rule: contact_introducers.induct)
  case (2 now d k i rest)
  show ?case
  proof (cases "ri_ControlEndpoint i = []")
    case False
    obtain ok d' where m: "markContacted now d (ri_ControlEndpoint i) (20 * Second) = (ok, d')" by (cases "markContacted now d (ri_ControlEndpoint i) (20 * Second)")
    then obtain c where "d' = d\<lparr>dd_contactedPeers := c\<rparr>" using markContacted_frame by blast
    then show ?thesis using False 2(2,3) m
      by (cases ok) (force simp: only_contacts_def case_prod_beta)+
  qed (use 2(1) in simp)
qed (auto simp: only_contacts_def)

lemma via_introducers_frame: "only_contacts d (WGPubKey p) (via_introducers e d p)"
  using contact_introducers_frame [of d "WGPubKey p"]
  by (auto simp: via_introducers_def Let_def only_contacts_def markContacted_def split: if_splits)

lemma ipv6_sync_frame: "only_contacts d (WGPubKey p) (ipv6_sync e d p)"
  by (auto simp: ipv6_sync_def Let_def only_contacts_def markContacted_def)

lemma only_contacts_if: "only_contacts d k a \<Longrightarrow> only_contacts d k b \<Longrightarrow> only_contacts d k (if c then a else b)"
  by simp

lemma tryRendezvous_frame: "only_contacts d (WGPubKey p) (tryRendezvousForPeer e d p)"
proof -
  have none: "only_contacts d (WGPubKey p) (d, [])" by (auto simp: only_contacts_def)
  have "only_contacts d (WGPubKey p) (case (if c then ipv6_sync e d p else (d, [])) of
      (d1, js1) \<Rightarrow> case via_introducers e d1 p of (d2, js2) \<Rightarrow> (d2, js1 @ js2))" for c
    using via_introducers_frame [of d p e] via_introducers_frame [of "fst (ipv6_sync e d p)" p e] ipv6_sync_frame [of d p e]
    by (force simp: only_contacts_def case_prod_beta)
  then show ?thesis unfolding tryRendezvousForPeer_def Let_def by (intro only_contacts_if none)
qed

lemma try_peers_frame:
  assumes "\<And>d c p. ok (d\<lparr>dd_contactedPeers := c\<rparr>) p = ok d p"
  shows "(\<exists>c. fst (try_peers e ok d ps) = d\<lparr>dd_contactedPeers := c\<rparr>)
    \<and> (\<forall>j \<in> set (snd (try_peers e ok d ps)). \<forall>k. job_target j = Some k \<longrightarrow> (\<exists>p \<in> set ps. WGPubKey p = k \<and> ok d p))"
proof (induction ps arbitrary: d)
  case (Cons p ps)
  show ?case
  proof (cases "WGPubKey p = [] \<or> WGPubKey p = ln_WGPubKey (dd_localNode d) \<or> Endpoint p = []
         \<or> \<not> canAttemptRendezvous (de_now e) d (WGPubKey p) \<or> \<not> ok d p")
    case True
    then have "try_peers e ok d (p # ps) = try_peers e ok d ps" by auto
    then show ?thesis using Cons.IH [of d] by auto
  next
    case False
    obtain c where c: "fst (tryRendezvousForPeer e d p) = d\<lparr>dd_contactedPeers := c\<rparr>"
      "\<forall>j \<in> set (snd (tryRendezvousForPeer e d p)). job_target j \<in> {None, Some (WGPubKey p)}"
      using tryRendezvous_frame [of d p e] by (auto simp: only_contacts_def)
    show ?thesis using False c Cons.IH [of "d\<lparr>dd_contactedPeers := c\<rparr>"] by (auto simp: Let_def case_prod_beta assms)
  qed
qed simp

section \<open>Lemmas on the exchange within the discovery\<close>

lemma px_update_inv:
  assumes "exchange_inv pe" "px_update now pe info m = Inr pe'"
  shows "exchange_inv pe' \<and> (\<exists>ps. pe' = pe\<lparr>px_peerStore := ps\<rparr>)"
proof -
  have "store_inv (px_peerStore pe)" using assms(1) by (simp add: exchange_inv_def)
  from store_update [OF this, of now info m] show ?thesis
    using assms by (auto simp: px_update_def and_then_Inr store_inv_lift)
qed

lemma clear_inv: "exchange_inv pe \<Longrightarrow> exchange_inv (clearPendingReplyChannel pe r)"
  by (simp add: exchange_inv_def clearPendingReplyChannel_def fmpred_drop)

lemma take_inv:
  assumes "exchange_inv pe" "fmlookup (px_replyChans pe) ch = Some (info # rest)"
  shows "exchange_inv (pe\<lparr>px_replyChans := fmupd ch rest (px_replyChans pe)\<rparr>)"
proof -
  have "length (info # rest) \<le> 1" using assms unfolding exchange_inv_def fmpred_iff by blast
  with assms show ?thesis by (auto simp: exchange_inv_def fmpred_iff)
qed

text \<open>What an exchange leaves as it is in the record of the exchange.\<close>

definition same_setup :: "PeerExchange \<Rightarrow> PeerExchange \<Rightarrow> bool" where
  "same_setup pe pe' \<longleftrightarrow> px_config pe' = px_config pe \<and> px_running pe' = px_running pe
     \<and> ln_WGPubKey (px_localNode pe') = ln_WGPubKey (px_localNode pe)"

lemma same_frame_setup: "same_frame addr pe pe' \<Longrightarrow> same_setup pe pe'"
  by (metis (no_types, lifting) same_frame_def same_setup_def LocalNode.select_convs(1) LocalNode.surjective LocalNode.update_convs(9))

lemma wait_inv:
  assumes "exchange_inv pe" "exchange_wait w pe out evs = Some (Inr (r, pe', out'))"
  shows "exchange_inv pe' \<and> same_setup pe pe'"
  using assms
proof (induction evs arbitrary: pe out)
  case (Cons ev evs)
  show ?case
  proof (cases ev)
    case (Incoming e data a)
    from message_inv [OF Cons.prems(1), of e data a] obtain pe1 es where
      h: "handleMessage e pe data a = Inr (pe1, es)" "exchange_inv pe1" by blast
    have "same_setup pe pe1" using handleMessage_frame [OF h(1)] by (rule same_frame_setup)
    then show ?thesis using Cons.IH [OF h(2)] Cons.prems(2) h(1) Incoming by (auto simp: same_setup_def)
  next
    case (PunchTick e)
    then show ?thesis using Cons.IH Cons.prems by (auto split: if_splits)
  next
    case TakeReply
    show ?thesis
    proof (cases "\<exists>info rest. fmlookup (px_replyChans pe) (xw_chan w) = Some (info # rest)")
      case True
      then obtain info rest where c: "fmlookup (px_replyChans pe) (xw_chan w) = Some (info # rest)" by blast
      have "exchange_inv (clearPendingReplyChannel (pe\<lparr>px_replyChans := fmupd (xw_chan w) rest (px_replyChans pe)\<rparr>) (udp_string (xw_remote w)))"
        by (rule clear_inv [OF take_inv [OF Cons.prems(1) c]])
      then show ?thesis using Cons.prems(2) TakeReply c by (auto simp: same_setup_def clearPendingReplyChannel_def)
    next
      case False
      then show ?thesis using Cons TakeReply by (auto split: option.splits list.splits)
    qed
  next
    case TimedOut
    then show ?thesis using Cons.prems clear_inv [OF Cons.prems(1)] by (auto simp: same_setup_def clearPendingReplyChannel_def)
  qed
qed simp

lemma begin_setup: "exchange_begin e pe target = (r, pe', es) \<Longrightarrow> same_setup pe pe'"
  by (auto simp: exchange_begin_def Let_def same_setup_def setPendingReplyChannel_def clearPendingReplyChannel_def
      split: option.splits if_splits)

lemma exchange_call_inv:
  assumes "exchange_inv pe" "ExchangeWithPeer e pe target evs = Some (Inr (r, pe', es))"
  shows "exchange_inv pe' \<and> same_setup pe pe'"
proof -
  obtain b p1 es1 where b: "exchange_begin e pe target = (b, p1, es1)" by (cases "exchange_begin e pe target")
  have i: "exchange_inv p1" "same_setup pe p1" using begin_inv [OF assms(1) b] begin_setup [OF b] by auto
  show ?thesis
  proof (cases b)
    case (Inr w)
    then show ?thesis using assms(2) b i wait_inv [OF i(1), of w es1 evs r pe' es] by (simp add: ExchangeWithPeer_def same_setup_def)
  qed (use assms(2) b i in \<open>auto simp: ExchangeWithPeer_def\<close>)
qed

lemma listen_setup: "listen_round fl e pe data addr = Inr (pe', es) \<Longrightarrow> same_setup pe pe'"
  using same_frame_setup [OF handleMessage_frame]
  by (fastforce simp: listen_round_def and_then_Inr Let_def same_setup_def split: if_splits)

section \<open>Runs of the discovery\<close>

text \<open>
  The discovery as it runs: it is started and stopped, reacts to peer events and ticks, its
  goroutines end, and datagrams and the other layers change the exchange and the store.
\<close>

inductive dht_reach :: "DHTDiscovery \<Rightarrow> bool" where
  created: "store_inv ps \<Longrightarrow> dht_reach (NewDHTDiscovery cfg n ps)"
| started: "dht_reach d \<Longrightarrow> DHT_Start se d = Some (Inr (err, d')) \<Longrightarrow> dht_reach d'"
| stopped: "dht_reach d \<Longrightarrow> DHT_Stop env d = (d', es) \<Longrightarrow> dht_reach d'"
| refreshed: "dht_reach d \<Longrightarrow> stun_refresh ifaces bound query d = Some (Inr d') \<Longrightarrow> dht_reach d'"
| peer_event: "dht_reach d \<Longrightarrow> handlePeerEvent e d ev = (d', js) \<Longrightarrow> dht_reach d'"
| stale_tick: "dht_reach d \<Longrightarrow> checkStaleHandshakes e d = (d', js) \<Longrightarrow> dht_reach d'"
| backfill: "dht_reach d \<Longrightarrow> tryTransitivePeersWithBackoff e d = (d', js) \<Longrightarrow> dht_reach d'"
| contacted: "dht_reach d \<Longrightarrow> contactPeer env t evs d a = Some (Inr (d', es)) \<Longrightarrow> dht_reach d'"
| exchanged: "dht_reach d \<Longrightarrow> exchangeWithAddress env t evs d a m = Some (Inr (d', es)) \<Longrightarrow> dht_reach d'"
| offered: "dht_reach d \<Longrightarrow> offer_job env d a k = (d', es) \<Longrightarrow> dht_reach d'"
| punched: "dht_reach d \<Longrightarrow> punch_job hs att d a k = Some (Inr (d', es)) \<Longrightarrow> dht_reach d'"
| datagram: "dht_reach d \<Longrightarrow> listen_round fl env (dd_exchange d) bs addr = Inr (pe, es) \<Longrightarrow> dht_reach (d\<lparr>dd_exchange := pe\<rparr>)"
| store_changes: "dht_reach d \<Longrightarrow> store_inv ps \<Longrightarrow> dht_reach (d\<lparr>dd_exchange := (dd_exchange d)\<lparr>px_peerStore := ps\<rparr>\<rparr>)"

definition control_ok :: "Config \<Rightarrow> string \<Rightarrow> string \<Rightarrow> bool" where
  "control_ok cfg k ep \<longleftrightarrow> k \<noteq> [] \<and> ep \<noteq> [] \<and> \<not> (cfg_DisableIPv6 cfg \<and> exchange_isIPv6Endpoint ep)"

definition stopped_layers :: "DHTDiscovery \<Rightarrow> bool" where
  "stopped_layers d \<longleftrightarrow> \<not> px_running (dd_exchange d) \<and> pred_option (\<lambda>g. \<not> mg_running g) (dd_gossip d)
     \<and> pred_option (\<lambda>l. \<not> ld_running l) (dd_lan d)"

definition dht_inv :: "DHTDiscovery \<Rightarrow> bool" where
  "dht_inv d \<longleftrightarrow> exchange_inv (dd_exchange d) \<and> fmpred (control_ok (dd_config d)) (dd_controlPeers d)
     \<and> fmpred (\<lambda>_ b. RendezvousMinBackoff \<le> be_duration b \<and> be_duration b \<le> RendezvousMaxBackoff) (dd_rendezvousBackoff d)
     \<and> (dd_running d \<or> stopped_layers d)"

lemma dht_inv_contacts: "dht_inv d \<Longrightarrow> only_contacts d k r \<Longrightarrow> dht_inv (fst r)"
  by (auto simp: dht_inv_def only_contacts_def stopped_layers_def)

lemma dht_inv_exchange:
  "dht_inv d \<Longrightarrow> exchange_inv pe \<Longrightarrow> same_setup (dd_exchange d) pe \<Longrightarrow> dht_inv (d\<lparr>dd_exchange := pe\<rparr>)"
  by (auto simp: dht_inv_def same_setup_def stopped_layers_def)

lemma dht_inv_node: "dht_inv d \<Longrightarrow> dht_inv (set_node d n)"
  by (auto simp: dht_inv_def exchange_inv_def stopped_layers_def)

lemma filter_allowed: "filterEndpointForConfig ep b \<noteq> [] \<Longrightarrow> \<not> (b \<and> exchange_isIPv6Endpoint (filterEndpointForConfig ep b))"
  by (auto simp: filterEndpointForConfig_def split: if_splits)

lemma dht_inv_control: "dht_inv d \<Longrightarrow> dht_inv (setControlEndpoint d k ep)"
  using filter_allowed
  by (auto simp: setControlEndpoint_def Let_def dht_inv_def stopped_layers_def control_ok_def fmpred_upd)

lemma dht_inv_backoff: "dht_inv d \<Longrightarrow> dht_inv (recordRendezvousAttempt now d k ok)"
  by (auto simp: recordRendezvousAttempt_def Let_def dht_inv_def stopped_layers_def fmpred_upd fmpred_drop fmpred_iff
      RendezvousMinBackoff_def RendezvousMaxBackoff_def Second_def split: option.splits)

lemma dht_inv_mark: "dht_inv d \<Longrightarrow> markContacted now d a i = (ok, d') \<Longrightarrow> dht_inv d'"
  using markContacted_frame by (fastforce simp: dht_inv_def stopped_layers_def)

lemma dht_inv_peers: "dht_inv d \<Longrightarrow> \<exists>c. d' = d\<lparr>dd_contactedPeers := c\<rparr> \<Longrightarrow> dht_inv d'"
  by (auto simp: dht_inv_def stopped_layers_def)

lemma event_inv: "dht_inv d \<Longrightarrow> dht_inv (fst (handlePeerEvent e d ev))"
  using dht_inv_contacts [OF _ tryRendezvous_frame] by (auto simp: handlePeerEvent_def split: option.splits)

lemma slot_contacts [simp]: "shouldAttemptRendezvous (d\<lparr>dd_contactedPeers := c\<rparr>) k now = shouldAttemptRendezvous d k now"
  by (simp add: shouldAttemptRendezvous_def)

lemma stale_inv: "dht_inv d \<Longrightarrow> dht_inv (fst (checkStaleHandshakes e d))"
  unfolding checkStaleHandshakes_def by (erule dht_inv_peers, rule conjunct1, rule try_peers_frame, simp)

lemma backfill_inv: "dht_inv d \<Longrightarrow> dht_inv (fst (tryTransitivePeersWithBackoff e d))"
  unfolding tryTransitivePeersWithBackoff_def by (erule dht_inv_peers, rule conjunct1, rule try_peers_frame, simp)

lemma stun_inv:
  assumes "dht_inv d" "stun_refresh ifaces bound query d = Some (Inr d')"
  shows "dht_inv d'"
proof -
  have "d' = d \<or> (\<exists>n. d' = set_node d n)"
    using assms(2) by (auto simp: stun_refresh_def Let_def and_then_Inr split: if_splits sum.splits)
  then show ?thesis using assms(1) dht_inv_node by auto
qed

lemma map_call_Inr: "map_option (\<lambda>r. and_then r f) x = Some (Inr y) \<Longrightarrow> \<exists>v. x = Some (Inr v) \<and> f v = Inr y"
  by (auto simp: and_then_Inr)

text \<open>A successful call that ends by recording its peer, its endpoint and perhaps the outcome.\<close>

lemma recorded_inv:
  assumes "dht_inv d" "exchange_inv pe" "same_setup (dd_exchange d) pe" "px_update t pe info m = Inr pe'"
  shows "dht_inv ((setControlEndpoint (d\<lparr>dd_exchange := pe\<rparr>) k a)\<lparr>dd_exchange := pe'\<rparr>)"
proof (rule dht_inv_exchange)
  show "dht_inv (setControlEndpoint (d\<lparr>dd_exchange := pe\<rparr>) k a)"
    by (rule dht_inv_control [OF dht_inv_exchange [OF assms(1-3)]])
  show "exchange_inv pe'" using px_update_inv [OF assms(2,4)] by simp
  have "dd_exchange (setControlEndpoint (d\<lparr>dd_exchange := pe\<rparr>) k a) = pe" by (simp add: setControlEndpoint_def Let_def)
  then show "same_setup (dd_exchange (setControlEndpoint (d\<lparr>dd_exchange := pe\<rparr>) k a)) pe'"
    using px_update_inv [OF assms(2,4)] by (auto simp: same_setup_def)
qed

lemma address_inv:
  assumes "dht_inv d" "exchangeWithAddress env t evs d a m = Some (Inr (d', es))"
  shows "dht_inv d'"
proof (cases "cfg_DisableIPv6 (dd_config d) \<and> exchange_isIPv6Endpoint a")
  case False
  from map_call_Inr [OF assms(2) [unfolded exchangeWithAddress_def if_not_P [OF False]]] obtain v where v: "ExchangeWithPeer env (dd_exchange d) a evs = Some (Inr v)"
    "(case v of (res, pe, es1) \<Rightarrow> let d1 = d\<lparr>dd_exchange := pe\<rparr> in
        case res of Inl _ \<Rightarrow> Inr (d1, es1) | Inr info \<Rightarrow>
        if length (WGPubKey info) < 8 then Inl SliceOutOfRange
        else let d2 = setControlEndpoint d1 (WGPubKey info) a in
          and_then (px_update t pe info m) (\<lambda>pe'. Inr (d2\<lparr>dd_exchange := pe'\<rparr>, es1))) = (Inr (d', es) :: (DHTDiscovery \<times> xeffect list) go)"
    by blast
  obtain res pe es1 where vv: "v = (res, pe, es1)" by (cases v)
  have ex: "exchange_inv (dd_exchange d)" using assms(1) by (simp add: dht_inv_def)
  from exchange_call_inv [OF ex v(1) [unfolded vv]] have pe: "exchange_inv pe" "same_setup (dd_exchange d) pe" by auto
  show ?thesis
  proof (cases res)
    case (Inl err)
    then show ?thesis using v(2) vv dht_inv_exchange [OF assms(1) pe] by simp
  next
    case (Inr info)
    with v(2) vv show ?thesis using recorded_inv [OF assms(1) pe]
      by (auto simp: and_then_Inr split: if_splits)
  qed
qed (use assms in \<open>auto simp: exchangeWithAddress_def\<close>)

lemma contact_inv:
  assumes "dht_inv d" "contactPeer env t evs d a = Some (Inr (d', es))"
  shows "dht_inv d'"
proof -
  obtain ok d1 where m: "markContacted (xe_now env) d a (60 * Second) = (ok, d1)" by (cases "markContacted (xe_now env) d a (60 * Second)")
  show ?thesis using assms(2) assms(1) dht_inv_mark [OF assms(1) m] address_inv [OF dht_inv_mark [OF assms(1) m], of env t evs a DHTMethod d' es]
    by (cases ok) (auto simp: contactPeer_def m split: if_splits)
qed

lemma offer_job_inv: "dht_inv d \<Longrightarrow> dht_inv (fst (offer_job env d a k))"
  by (simp add: offer_job_def dht_inv_backoff split: sum.split)

lemma punch_inv:
  assumes "dht_inv d" "punch_job hs att d a k = Some (Inr (d', es))"
  shows "dht_inv d'"
proof -
  from map_call_Inr [OF assms(2) [unfolded punch_job_def Let_def]] obtain v where
    x: "ExchangeWithPeer (at_env att) (dd_exchange d) a (at_events att) = Some (Inr v)" and
    r: "(case v of (res, pe, es1) \<Rightarrow> case res of
          Inl _ \<Rightarrow> Inr (recordRendezvousAttempt (at_done att) (d\<lparr>dd_exchange := pe\<rparr>) k False, es1)
        | Inr info \<Rightarrow>
            if waitForPeerHandshake (at_polls att) (at_final att) (cfg_InterfaceName (dd_config d)) k
                 (getPeerHandshakeTS hs (cfg_InterfaceName (dd_config d)) k)
                 \<le> getPeerHandshakeTS hs (cfg_InterfaceName (dd_config d)) k
            then Inr (recordRendezvousAttempt (at_done att) (d\<lparr>dd_exchange := pe\<rparr>) k False, es1)
            else and_then (px_update (at_done att) pe info (DHTMethod @ ''-transitive'')) (\<lambda>pe'.
                Inr (recordRendezvousAttempt (at_done att) ((setControlEndpoint (d\<lparr>dd_exchange := pe\<rparr>) (WGPubKey info) a)\<lparr>dd_exchange := pe'\<rparr>) k True, es1)))
      = (Inr (d', es) :: (DHTDiscovery \<times> xeffect list) go)" by blast
  obtain res pe es1 where vv: "v = (res, pe, es1)" by (cases v)
  have ex: "exchange_inv (dd_exchange d)" using assms(1) by (simp add: dht_inv_def)
  from exchange_call_inv [OF ex x [unfolded vv]] have pe: "exchange_inv pe" "same_setup (dd_exchange d) pe" by auto
  have failed: "dht_inv (recordRendezvousAttempt (at_done att) (d\<lparr>dd_exchange := pe\<rparr>) k False)"
    by (rule dht_inv_backoff [OF dht_inv_exchange [OF assms(1) pe]])
  show ?thesis
  proof (cases res)
    case (Inr info)
    with r vv failed show ?thesis using dht_inv_backoff [OF recorded_inv [OF assms(1) pe]]
      by (auto simp: and_then_Inr split: if_splits)
  qed (use r vv failed in auto)
qed

lemma external_inv:
  assumes "dht_inv d" "discoverExternalEndpoint ifaces bound query d = Some (Inr d')"
  shows "dht_inv d' \<and> dd_running d' = dd_running d"
proof -
  have "d' = d \<or> (\<exists>n. d' = set_node d n)"
    using assms(2) by (auto simp: discoverExternalEndpoint_def Let_def and_then_Inr split: if_splits sum.splits)
  then show ?thesis using assms(1) dht_inv_node by auto
qed

lemma exchange_inv_running: "exchange_inv (pe\<lparr>px_running := b\<rparr>) = exchange_inv pe" "exchange_inv (pe\<lparr>px_port := p, px_running := b\<rparr>) = exchange_inv pe"
  by (simp_all add: exchange_inv_def)

text \<open>While the discovery counts as running, the invariant is about the exchange and the two tables alone.\<close>

definition tables_inv :: "DHTDiscovery \<Rightarrow> bool" where
  "tables_inv d \<longleftrightarrow> exchange_inv (dd_exchange d) \<and> fmpred (control_ok (dd_config d)) (dd_controlPeers d)
     \<and> fmpred (\<lambda>_ b. RendezvousMinBackoff \<le> be_duration b \<and> be_duration b \<le> RendezvousMaxBackoff) (dd_rendezvousBackoff d)"

lemma create_gossip_inv: "tables_inv d \<Longrightarrow> tables_inv (create_gossip d) \<and> dd_running (create_gossip d) = dd_running d"
  by (simp add: create_gossip_def tables_inv_def exchange_inv_def SetAnnounceHandler_def)

lemma start_lan_inv: "tables_inv d \<Longrightarrow> tables_inv (start_lan se d) \<and> dd_running (start_lan se d) = dd_running d"
  by (simp add: start_lan_def tables_inv_def)

lemma init_server_inv:
  "tables_inv d \<Longrightarrow> initDHTServer se d = (err, d') \<Longrightarrow> tables_inv d' \<and> dd_running d' = dd_running d"
  by (auto simp: initDHTServer_def tables_inv_def Let_def split: option.splits if_splits)

lemma exchange_stop_tables: "tables_inv d \<Longrightarrow> tables_inv (d\<lparr>dd_gossip := g, dd_exchange := Exchange_Stop (dd_exchange d)\<rparr>)"
  "tables_inv d \<Longrightarrow> tables_inv (d\<lparr>dd_exchange := Exchange_Stop (dd_exchange d)\<rparr>)"
  by (simp_all add: tables_inv_def Exchange_Stop_def exchange_inv_running)

lemma start_layers_inv:
  assumes "tables_inv d" "start_layers se d = (err, d')"
  shows "tables_inv d' \<and> dd_running d' = dd_running d"
proof (cases "Exchange_Start (se_exchange_bound se) (dd_exchange (create_gossip d))")
  case (Inl e)
  then show ?thesis using assms create_gossip_inv by (auto simp: start_layers_def)
next
  case (Inr pe)
  let ?d1 = "(create_gossip d)\<lparr>dd_exchange := pe\<rparr>"
  let ?d2 = "start_lan se ?d1"
  let ?g = "case dd_gossip ?d2 of None \<Rightarrow> Inr None | Some g \<Rightarrow> (case Gossip_Start None g of Inl e \<Rightarrow> Inl e | Inr g' \<Rightarrow> Inr (Some g'))"
  have "tables_inv ?d1" using Inr create_gossip_inv [OF assms(1)]
    by (auto simp: Exchange_Start_def Let_def tables_inv_def exchange_inv_def split: if_splits)
  from start_lan_inv [OF this] have d2: "tables_inv ?d2" "dd_running ?d2 = dd_running d"
    using create_gossip_inv [OF assms(1)] by auto
  show ?thesis
  proof (cases ?g)
    case (Inl e)
    then show ?thesis using assms(2) \<open>Exchange_Start _ _ = Inr pe\<close> d2 exchange_stop_tables(2) [OF d2(1)] by (auto simp: start_layers_def Let_def)
  next
    case (Inr g)
    obtain r d3 where d3: "initDHTServer se (?d2\<lparr>dd_gossip := g\<rparr>) = (r, d3)" by (cases "initDHTServer se (?d2\<lparr>dd_gossip := g\<rparr>)")
    have "tables_inv (?d2\<lparr>dd_gossip := g\<rparr>)" using d2(1) by (simp add: tables_inv_def)
    from init_server_inv [OF this d3] show ?thesis
      using assms(2) \<open>Exchange_Start _ _ = Inr pe\<close> Inr d3 d2(2) exchange_stop_tables(1) [of d3]
      by (cases r) (auto simp: start_layers_def Let_def)
  qed
qed

lemma start_inv_dht:
  assumes "dht_inv d" "DHT_Start se d = Some (Inr (err, d'))"
  shows "dht_inv d'"
proof (cases "dd_running d")
  case False
  from map_call_Inr [OF assms(2) [unfolded DHT_Start_def if_not_P [OF False]]] obtain d1 where
    d1: "discoverExternalEndpoint (se_ifaces se) (se_stun_bound se) (se_stun se) (d\<lparr>dd_running := True\<rparr>) = Some (Inr d1)"
    "start_layers se d1 = (err, d')" by auto
  have "dht_inv (d\<lparr>dd_running := True\<rparr>)" using assms(1) by (simp add: dht_inv_def)
  from external_inv [OF this d1(1)] have "tables_inv d1" "dd_running d1" by (simp_all add: dht_inv_def tables_inv_def)
  with start_layers_inv [OF _ d1(2)] show ?thesis by (simp add: dht_inv_def tables_inv_def)
qed (use assms in \<open>simp add: DHT_Start_def\<close>)

lemma stop_layers:
  "\<not> px_running (Exchange_Stop pe)" "pred_option (\<lambda>g. \<not> mg_running g) (map_option Gossip_Stop g)"
  "pred_option (\<lambda>l. \<not> ld_running l) (map_option LAN_Stop l)"
  by (simp add: Exchange_Stop_def, cases g, simp_all add: Gossip_Stop_def, cases l, simp_all add: LAN_Stop_def)

lemma stop_inv_dht:
  assumes "dht_inv d"
  shows "dht_inv (fst (DHT_Stop env d))"
proof -
  have "exchange_inv (Exchange_Stop (dd_exchange d))" "px_config (Exchange_Stop (dd_exchange d)) = dd_config d"
    using assms by (simp_all add: dht_inv_def Exchange_Stop_def exchange_inv_running)
  then show ?thesis using assms stop_layers by (auto simp: DHT_Stop_def dht_inv_def stopped_layers_def)
qed

lemma dht_reach_dht_inv: "dht_reach d \<Longrightarrow> dht_inv d"
proof (induction rule: dht_reach.induct)
  case (created ps cfg n)
  have "exchange_inv (NewPeerExchange cfg n ps)"
    using reach_inv [OF exchange_reach.created [OF created, of None]] by (simp add: SetAnnounceHandler_def NewPeerExchange_def)
  then show ?case by (simp add: NewDHTDiscovery_def dht_inv_def stopped_layers_def) (simp add: NewPeerExchange_def)
next
  case (datagram d fl env bs addr pe es)
  have "exchange_inv (dd_exchange d)" using datagram.IH by (simp add: dht_inv_def)
  from listen_inv [OF this, of fl env bs addr] datagram.hyps(2) have "exchange_inv pe" by auto
  then show ?case using dht_inv_exchange [OF datagram.IH] listen_setup [OF datagram.hyps(2)] by blast
next
  case (store_changes d ps)
  have "exchange_inv ((dd_exchange d)\<lparr>px_peerStore := ps\<rparr>)"
    using store_changes by (intro store_inv_lift) (simp_all add: dht_inv_def)
  then show ?case using store_changes.IH by (intro dht_inv_exchange) (simp_all add: same_setup_def)
next
  case (stopped d env d' es)
  then show ?case using stop_inv_dht [of d env] by simp
next
  case (peer_event d e ev d' js)
  then show ?case using event_inv [of d e ev] by simp
next
  case (stale_tick d e d' js)
  then show ?case using stale_inv [of d e] by simp
next
  case (backfill d e d' js)
  then show ?case using backfill_inv [of d e] by simp
next
  case (offered d env a k d' es)
  then show ?case using offer_job_inv [of d env a k] by simp
qed (rule start_inv_dht stun_inv contact_inv address_inv punch_inv; assumption)+

section \<open>Lemmas on the schedule\<close>

lemma unix_of_add: "unix_of (t + i * Second) = unix_of t + i"
  by (simp add: unix_of_def Second_def)

lemma stale_tick_slot:
  assumes "k \<noteq> []" "0 \<le> t0"
  shows "shouldAttemptRendezvous d k (t0 + int n * RendezvousStaleCheck) \<longleftrightarrow>
    (unix_of t0 - int (unat (pairSeed (ln_WGPubKey (dd_localNode d)) k)) + int n * 10) mod 20 < 4"
proof -
  have "t0 + int n * RendezvousStaleCheck = t0 + (int n * 10) * Second" by (simp add: RendezvousStaleCheck_def)
  moreover have "0 \<le> t0 + int n * RendezvousStaleCheck" using assms(2) by (simp add: RendezvousStaleCheck_def Second_def)
  ultimately show ?thesis using rendezvous_slot [OF assms(1), of "t0 + (int n * 10) * Second" d]
    by (simp only: unix_of_add) (simp add: algebra_simps)
qed

lemma mod_10_20: "(x :: int) mod 10 = x mod 20 mod 10"
  by (simp add: mod_mod_cancel)

lemma ticks_in_window: "(\<exists>n::nat. (x + int n * 10) mod 20 < 4) \<longleftrightarrow> x mod 10 < (4 :: int)"
proof
  assume "\<exists>n::nat. (x + int n * 10) mod 20 < 4"
  then obtain n :: nat where n: "(x + int n * 10) mod 20 < 4" by blast
  define y where "y = (x + int n * 10) mod 20"
  have "0 \<le> y" "y < 4" using n by (simp_all add: y_def)
  moreover have "x mod 10 = y mod 10" using mod_10_20 [of "x + int n * 10"] by (simp add: y_def)
  ultimately show "x mod 10 < 4" by simp
next
  assume x: "x mod 10 < 4"
  define q where "q = nat (x div 10 mod 2)"
  have q: "int q = x div 10 mod 2" by (simp add: q_def)
  obtain a r where a: "x = 10 * a + r" "a = x div 10" "r = x mod 10" by (metis mult_div_mod_eq)
  obtain b where b: "a = 2 * b + int q" using q a(2) by (metis mult_div_mod_eq)
  have "x + int q * 10 = 20 * (b + int q) + r" using a(1) b by simp
  then have "(x + int q * 10) mod 20 = (x mod 10) mod 20" unfolding a(3) by (simp only: mod_mult_self4)
  moreover have "\<dots> = x mod 10" by (rule mod_pos_pos_trivial) (simp_all add: order.strict_trans [OF pos_mod_bound])
  ultimately have "(x + int q * 10) mod 20 < 4" using x by simp
  then show "\<exists>n::nat. (x + int n * 10) mod 20 < 4" by blast
qed

lemma slot_in_window: "\<exists>s \<in> {0..<20}. \<forall>i \<in> {0..<4}. (x + s + i) mod 20 < (4 :: int)"
proof (intro bexI ballI)
  show "(- x) mod 20 \<in> {0..<20 :: int}" by simp
  fix i :: int assume i: "i \<in> {0..<4}"
  have "(x + (- x) mod 20 + i) mod 20 = (x + - x + i) mod 20"
    by (metis (no_types, opaque_lifting) add.assoc add.commute mod_add_left_eq)
  then show "(x + (- x) mod 20 + i) mod 20 < 4" using i by simp
qed

lemma stale_job_slot:
  assumes "j \<in> set (snd (checkStaleHandshakes e d))" "job_target j = Some k"
  shows "shouldAttemptRendezvous d k (de_now e)"
proof -
  let ?ok = "\<lambda>d p. shouldAttemptRendezvous d (WGPubKey p) (de_now e)"
  let ?ps = "PeerStore_GetActive (xe_order (de_x e) 0 (fmdom (peers (dd_peerStore d)))) (de_now e) (dd_peerStore d)"
  have "\<forall>j \<in> set (snd (try_peers e ?ok d ?ps)). \<forall>k. job_target j = Some k \<longrightarrow> (\<exists>p \<in> set ?ps. WGPubKey p = k \<and> ?ok d p)"
    by (rule conjunct2 [OF try_peers_frame]) simp
  with assms obtain p :: PeerInfo where "WGPubKey p = k" "?ok d p" unfolding checkStaleHandshakes_def by blast
  then show ?thesis by simp
qed

section \<open>Properties\<close>

text \<open>
  C7. In every state that the discovery reaches, by starting, stopping, peer events, ticks, the
  goroutines it started and datagrams of any content, the exchange satisfies its invariant, every
  control endpoint is one that the configuration allows, every backoff is between three and
  thirty seconds, and when the discovery is not running none of its layers is.
\<close>

theorem dht_reach_inv:
  assumes "dht_reach d"
  shows "dht_inv d"
  using assms by (rule dht_reach_dht_inv)

theorem dht_reach_inv_witness:
  "dht_inv (fst (offer_job ((sample_xenv 0 (sample_addr 1))\<lparr>xe_resolve := \<lambda>_. None\<rparr>)
     (NewDHTDiscovery sample_config (sample_node ''A'' ''10.0.0.1'') NewPeerStore) ''8.8.4.1:51821'' ''B''))
   \<and> dd_rendezvousBackoff (fst (offer_job ((sample_xenv 0 (sample_addr 1))\<lparr>xe_resolve := \<lambda>_. None\<rparr>)
     (NewDHTDiscovery sample_config (sample_node ''A'' ''10.0.0.1'') NewPeerStore) ''8.8.4.1:51821'' ''B''))
     = fmupd ''B'' \<lparr>be_nextAttempt = 3 * Second, be_duration = 3 * Second\<rparr> fmempty"
proof
  show "dht_inv (fst (offer_job ((sample_xenv 0 (sample_addr 1))\<lparr>xe_resolve := \<lambda>_. None\<rparr>)
     (NewDHTDiscovery sample_config (sample_node ''A'' ''10.0.0.1'') NewPeerStore) ''8.8.4.1:51821'' ''B''))"
    by (rule dht_reach_inv [OF offered [OF dht_reach.created [OF store_inv_new] prod.collapse [symmetric]]])
qed (simp add: offer_job_def RequestRendezvous_def NewDHTDiscovery_def NewPeerExchange_def sample_config_def sample_xenv_def
    recordRendezvousAttempt_def RendezvousMinBackoff_def Let_def)

text \<open>
  C12. Two nodes agree on their rendezvous without talking to each other. With their clocks at the
  same second both find themselves in the time slot of their pair or both do not, for the
  rendezvous as for the synchronized IPv6 attempts; within any twenty seconds there is a slot of
  four. When both know the same candidates they choose the same introducers in the same order: at
  most three, different ones, reachable at public control endpoints, and neither of the two
  nodes.
\<close>

theorem rendezvous_agreed:
  assumes "ln_WGPubKey (dd_localNode a) = ka" "ln_WGPubKey (dd_localNode b) = kb" "ka \<noteq> []" "kb \<noteq> []"
    and "unix_of now = unix_of now'" "0 \<le> now" "0 \<le> now'"
    and "distinct (map WGPubKey psa)" "distinct (map WGPubKey psb)"
    and "set (candidates_of now hs a kb psa) = set (candidates_of now' hs' b ka psb)"
  defines "out \<equiv> selectRendezvousIntroducers now hs a kb psa RendezvousMaxIntroducers"
  shows "shouldAttemptRendezvous a kb now = shouldAttemptRendezvous b ka now'
    \<and> shouldAttemptIPv6Sync a kb now = shouldAttemptIPv6Sync b ka now'
    \<and> (\<exists>s \<in> {0..<20}. \<forall>i \<in> {0..<4}. shouldAttemptRendezvous a kb (now + (s + i) * Second))
    \<and> selectRendezvousIntroducers now' hs' b ka psb RendezvousMaxIntroducers = out
    \<and> length out \<le> 3 \<and> distinct (map ri_WGPubKey out)
    \<and> list_all (\<lambda>i. ri_WGPubKey i \<notin> {[], ka, kb} \<and> isLikelyPublicEndpoint (ri_ControlEndpoint i)) out"
proof -
  have slot: "shouldAttemptRendezvous a kb now = shouldAttemptRendezvous b ka now'"
    using rendezvous_slot [OF assms(4,6), of a] rendezvous_slot [OF assms(3,7), of b] by (simp add: assms(1,2,5) pairSeed_sym [of ka])
  have sync: "shouldAttemptIPv6Sync a kb now = shouldAttemptIPv6Sync b ka now'"
    using assms(3,4) by (simp add: shouldAttemptIPv6Sync_def in_slot_def assms(1,2,5) pairSeed_sym [of ka])
  have window: "\<exists>s \<in> {0..<20}. \<forall>i \<in> {0..<4}. shouldAttemptRendezvous a kb (now + (s + i) * Second)"
  proof -
    obtain s where s: "s \<in> {0..<20}" "\<forall>i \<in> {0..<4}. (unix_of now - int (unat (pairSeed ka kb)) + s + i) mod 20 < 4"
      using slot_in_window by blast
    have "shouldAttemptRendezvous a kb (now + (s + i) * Second)" if "i \<in> {0..<4}" for i
    proof -
      have "0 \<le> now + (s + i) * Second" using that s(1) assms(6) by (simp add: Second_def)
      from rendezvous_slot [OF assms(4) this, of a] show ?thesis using s(2) that
        by (simp add: unix_of_add assms(1)) (simp add: algebra_simps)
    qed
    with s(1) show ?thesis by blast
  qed
  have same: "selectRendezvousIntroducers now' hs' b ka psb RendezvousMaxIntroducers = out"
    unfolding out_def by (rule introducers_same [OF assms(1,2,8,9,10), symmetric])
  have "length out \<le> 3" "distinct (map ri_WGPubKey out)"
    "list_all (\<lambda>i. ri_WGPubKey i \<notin> {[], ka, kb} \<and> isLikelyPublicEndpoint (ri_ControlEndpoint i)) out"
    using introducers_wellformed [where now = now and hs = hs and d = a and k = kb and m = RendezvousMaxIntroducers, OF assms(8)]
    by (auto simp: out_def RendezvousMaxIntroducers_def assms(1) list_all_iff)
  with slot sync window same show ?thesis by blast
qed

definition sample_discovery :: "string \<Rightarrow> DHTDiscovery" where
  "sample_discovery k = NewDHTDiscovery sample_config (sample_node k ''10.0.0.1'') NewPeerStore"

lemma new_exchange_fields [simp]:
  "px_config (NewPeerExchange c n ps) = c" "px_localNode (NewPeerExchange c n ps) = n" "px_peerStore (NewPeerExchange c n ps) = ps"
  by (simp_all add: NewPeerExchange_def)

lemma sample_discovery_fields [simp]:
  "dd_exchange (sample_discovery k) = NewPeerExchange sample_config (sample_node k ''10.0.0.1'') NewPeerStore"
  "dd_controlPeers (sample_discovery k) = fmempty"
  by (simp_all add: sample_discovery_def NewDHTDiscovery_def NewPeerExchange_def sample_node_def)

text \<open>A peer that was announced as an introducer.\<close>

definition introducer_peer :: PeerInfo where
  "introducer_peer = (sample_peer ''I'' ''i.example:51820'' ''dht'' 0)\<lparr>Introducer := True, DiscoveredVia := [''dht'']\<rparr>"

lemma sample_candidate:
  assumes "k \<noteq> ''I''" "k' \<noteq> ''I''"
  shows "introducer_candidate now (sample_discovery k) hs k' introducer_peer
    = Some \<lparr>ic_pubKey = ''I'', ic_endpoint = ''i.example:51820'', ic_controlEndpoint = ''i.example:51821'', ic_isExplicit = True\<rparr>"
proof -
  have "split_host_port ''i.example:51820'' = Some (''i.example'', ''51820'')" "split_host_port ''i.example:51821'' = Some (''i.example'', ''51821'')"
    by (simp_all add: split_host_port_def Let_def)
  moreover have "parse_ip ''i.example'' = None" by (simp add: parse_ip_def parse_addr_def parse_ipv4_def octet_ok_def is_digit_def)
  moreover have "itoa 51821 = ''51821''"
    by (simp add: itoa_def itoa_nat.simps digit_char_def char_of_def bit_0)
  moreover have "toControlEndpoint ''i.example:51820'' 51821 = ''i.example:51821''"
    using calculation by (simp add: toControlEndpoint_def join_host_port_def)
  ultimately show ?thesis using assms
    by (simp add: introducer_candidate_def introducer_peer_def sample_peer_def hasAnyDHTReachability_def DHTMethod_def has_prefix_def
        isLikelyPublicEndpoint_def controlEndpointForPeer_def NewPeerExchange_def sample_config_def sample_node_def exchange_isIPv6Endpoint_def Let_def)
qed

theorem rendezvous_agreed_witness:
  "selectRendezvousIntroducers 0 None (sample_discovery ''B'') ''A'' [introducer_peer] RendezvousMaxIntroducers
     = selectRendezvousIntroducers 0 None (sample_discovery ''A'') ''B'' [introducer_peer] RendezvousMaxIntroducers
   \<and> selectRendezvousIntroducers 0 None (sample_discovery ''A'') ''B'' [introducer_peer] RendezvousMaxIntroducers \<noteq> []
   \<and> shouldAttemptRendezvous (sample_discovery ''A'') ''B'' 0 = shouldAttemptRendezvous (sample_discovery ''B'') ''A'' 0"
proof -
  note c = map_filter_simps sample_candidate
  have "selectRendezvousIntroducers 0 None (sample_discovery ''A'') ''B'' [introducer_peer] RendezvousMaxIntroducers \<noteq> []"
    by (simp add: select_rotated Let_def c rotated_def RendezvousMaxIntroducers_def)
  with rendezvous_agreed [of "sample_discovery ''A''" "''A''" "sample_discovery ''B''" "''B''" 0 0 "[introducer_peer]" "[introducer_peer]" None None]
  show ?thesis by (simp add: c)
qed

text \<open>
  C32. The periodic check can starve a pair for ever. The check runs every ten seconds and only
  acts in the slot of the pair, which is four seconds of every twenty. So whether it ever acts is
  decided by the second at which its timer started: when that second is not within the first four
  of ten after the offset of the pair, no tick is in the slot and no tick starts a rendezvous or a
  punch for the peer.
\<close>

theorem stale_check_starved:
  fixes d :: DHTDiscovery
  assumes "k \<noteq> []" "0 \<le> t0"
  defines "x \<equiv> unix_of t0 - int (unat (pairSeed (ln_WGPubKey (dd_localNode d)) k))"
  shows "((\<exists>n. shouldAttemptRendezvous d k (t0 + int n * RendezvousStaleCheck)) \<longleftrightarrow> x mod 10 < 4)
    \<and> (\<not> x mod 10 < 4 \<longrightarrow> (\<forall>n e. de_now e = t0 + int n * RendezvousStaleCheck \<longrightarrow>
         (\<forall>j \<in> set (snd (checkStaleHandshakes e d)). job_target j \<noteq> Some k)))"
proof -
  have iff: "(\<exists>n. shouldAttemptRendezvous d k (t0 + int n * RendezvousStaleCheck)) \<longleftrightarrow> x mod 10 < 4"
    unfolding stale_tick_slot [OF assms(1,2)] x_def [symmetric] by (rule ticks_in_window)
  have "job_target j \<noteq> Some k" if "\<not> x mod 10 < 4" "de_now e = t0 + int n * RendezvousStaleCheck"
    "j \<in> set (snd (checkStaleHandshakes e d))" for n e j
  proof
    assume t: "job_target j = Some k"
    have "shouldAttemptRendezvous d k (de_now e)" by (rule stale_job_slot [OF that(3) t])
    then show False using that(1,2) iff by auto
  qed
  with iff show ?thesis by blast
qed

theorem stale_check_starved_witness:
  "\<forall>n. \<not> shouldAttemptRendezvous (sample_discovery ''A'') ''B'' ((int (unat (pairSeed ''A'' ''B'')) + 5) * Second + int n * RendezvousStaleCheck)"
proof -
  let ?t = "(int (unat (pairSeed ''A'' ''B'')) + 5) * Second"
  have t: "0 \<le> ?t" "unix_of ?t = int (unat (pairSeed ''A'' ''B'')) + 5" by (simp_all add: Second_def unix_of_def)
  from conjunct1 [OF stale_check_starved [of "''B''" ?t "sample_discovery ''A''"]] t show ?thesis
    by (simp add: NewPeerExchange_def sample_node_def)
qed

text \<open>
  C28. What contacting an address that the DHT returned does. When a node with the same gossip key
  listens there, its HELLO and REPLY make both nodes record each other, and the address is
  remembered as the control endpoint of the peer. The reply is not validated, though: when the
  public key in it has fewer than eight characters, the log line that shortens it panics.
\<close>

theorem contact_outcome:
  assumes "gossip_key (dd_exchange d) = gossip_key B" "length (gossip_key B) = 32"
    and "ln_WGPubKey (dd_localNode d) \<noteq> ln_WGPubKey (px_localNode B)"
    and "ln_MeshIP (dd_localNode d) \<noteq> []" "ln_MeshIP (px_localNode B) \<noteq> []"
    and "node_ascii (dd_localNode d)" "node_ascii (px_localNode B)"
    and "store_ascii (dd_peerStore d)" "store_ascii (px_peerStore B)" "ascii_str (ua_Zone addrA)"
    and "dht_inv d" "store_inv (px_peerStore B)"
    and "2 * go_len (peers (dd_peerStore d)) + go_len (peers (px_peerStore B)) + 1 < DefaultMaxPeers"
    and "valid_orders (xe_order e1)" "valid_orders (xe_order e2)"
    and "xe_resolve e1 a = Some addrB" "xe_write e1 addrB" "xe_write e2 addrA"
    and "xe_nonce e1 0 = Some n1" "length n1 = 12" "xe_nonce e2 0 = Some n2" "length n2 = 12"
    and "clocks_close (xe_now e1) (xe_now e2)" "clocks_close (xe_now e2) (xe_now e3)"
    and "a \<noteq> GetEndpoint (dd_localNode d)" "fmlookup (dd_contactedPeers d) a = None"
    and "\<not> (cfg_DisableIPv6 (dd_config d) \<and> exchange_isIPv6Endpoint a)" "normalizeKnownPeerEndpoint a = a" "a \<noteq> []"
  shows "\<exists>w A1 hello B' reply. exchange_begin e1 (dd_exchange d) a = (Inr w, A1, [Sent addrB hello])
    \<and> handleMessage e2 B hello addrA = Inr (B', [Sent addrA reply])
    \<and> (length (ln_WGPubKey (px_localNode B)) < 8 \<longrightarrow>
         contactPeer e1 t [Incoming e3 reply addrB, TakeReply] d a = Some (Inl SliceOutOfRange))
    \<and> (8 \<le> length (ln_WGPubKey (px_localNode B)) \<longrightarrow>
         (\<exists>d'. contactPeer e1 t [Incoming e3 reply addrB, TakeReply] d a = Some (Inr (d', [Sent addrB hello]))
            \<and> PeerStore_Get (dd_peerStore d') (ln_WGPubKey (px_localNode B)) \<noteq> None
            \<and> PeerStore_Get (px_peerStore B') (ln_WGPubKey (dd_localNode d)) \<noteq> None
            \<and> fmlookup (dd_controlPeers d') (ln_WGPubKey (px_localNode B)) = Some a \<and> dht_inv d'))"
proof -
  define d1 where "d1 = d\<lparr>dd_contactedPeers := fmupd a (xe_now e1) (dd_contactedPeers d)\<rparr>"
  have d1: "dd_exchange d1 = dd_exchange d" "dht_inv d1" using assms(11) by (simp_all add: d1_def dht_inv_def stopped_layers_def)
  have ex: "exchange_inv (dd_exchange d)" using assms(11) by (simp add: dht_inv_def)
  then have st: "store_inv (dd_peerStore d)" by (simp add: exchange_inv_def)
  have c: "contactPeer e1 t evs d a = exchangeWithAddress e1 t evs d1 a DHTMethod" for evs
    using assms(25,26,27) by (auto simp: contactPeer_def markContacted_def d1_def)
  from exchange_both_known [OF assms(1-10) st assms(12-24)] obtain w A1 hello B' reply A' info where
    b: "exchange_begin e1 (dd_exchange d) a = (Inr w, A1, [Sent addrB hello])" and
    x: "handleMessage e2 B hello addrA = Inr (B', [Sent addrA reply])"
    "ExchangeWithPeer e1 (dd_exchange d) a [Incoming e3 reply addrB, TakeReply] = Some (Inr (Inr info, A', [Sent addrB hello]))"
    "WGPubKey info = ln_WGPubKey (px_localNode B)"
    "heard_of (px_peerStore B') (ln_WGPubKey (dd_localNode d)) (ln_MeshIP (dd_localNode d)) (xe_now e2)"
    "heard_of (px_peerStore A') (ln_WGPubKey (px_localNode B)) (ln_MeshIP (px_localNode B)) (xe_now e3)" by blast
  from exchange_call_inv [OF ex x(2)] have A': "exchange_inv A'" "same_setup (dd_exchange d1) A'" using d1(1) by auto
  then have "store_inv (px_peerStore A')" by (simp add: exchange_inv_def)
  from store_update [OF this, of t info DHTMethod] obtain ps where
    u: "PeerStore_Update t (px_peerStore A') info DHTMethod = Inr ps"
    "peers ps = peers (record_peer t (px_peerStore A') info DHTMethod)" by blast
  let ?pe' = "A'\<lparr>px_peerStore := ps\<rparr>"
  let ?d' = "(setControlEndpoint (d1\<lparr>dd_exchange := A'\<rparr>) (WGPubKey info) a)\<lparr>dd_exchange := ?pe'\<rparr>"
  have px: "px_update t A' info DHTMethod = Inr ?pe'" using u(1) by (simp add: px_update_def)
  let ?c = "contactPeer e1 t [Incoming e3 reply addrB, TakeReply] d a"
  have r: "?c = Some (if length (ln_WGPubKey (px_localNode B)) < 8 then Inl SliceOutOfRange else Inr (?d', [Sent addrB hello]))"
    using assms(27) by (auto simp: c exchangeWithAddress_def d1 x(2) Let_def x(3) px)
  have cfg: "px_config A' = dd_config d" using A'(2) by (simp add: same_setup_def d1(1))
  have known: "PeerStore_Get (px_peerStore ?pe') (ln_WGPubKey (px_localNode B)) \<noteq> None"
    "PeerStore_Get (px_peerStore B') (ln_WGPubKey (dd_localNode d)) \<noteq> None"
    using x(3-5) u(2) by (auto simp: heard_of_def PeerStore_Get_def record_peer_def update_locked_def Let_def split: option.splits)
  have ctl: "fmlookup (dd_controlPeers ?d') (ln_WGPubKey (px_localNode B)) = Some a" if "8 \<le> length (ln_WGPubKey (px_localNode B))"
    using that assms(27-29) by (auto simp: setControlEndpoint_def Let_def x(3) filterEndpointForConfig_def cfg)
  have inv: "dht_inv ?d'" by (rule recorded_inv [OF d1(2) A' px])
  have "?c = Some (Inr (?d', [Sent addrB hello])) \<and> PeerStore_Get (dd_peerStore ?d') (ln_WGPubKey (px_localNode B)) \<noteq> None
      \<and> PeerStore_Get (px_peerStore B') (ln_WGPubKey (dd_localNode d)) \<noteq> None
      \<and> fmlookup (dd_controlPeers ?d') (ln_WGPubKey (px_localNode B)) = Some a \<and> dht_inv ?d'"
    if "8 \<le> length (ln_WGPubKey (px_localNode B))"
    using that r known ctl [OF that] inv by simp
  moreover have "?c = Some (Inl SliceOutOfRange)" if "length (ln_WGPubKey (px_localNode B)) < 8" using that r by simp
  ultimately show ?thesis using b x(1) by blast
qed

theorem contact_outcome_witness:
  "\<exists>w A1 hello B' reply.
     exchange_begin (sample_xenv (1000 * Second) (sample_addr 2)) (sample_exchange ''A'' ''10.0.0.1'') ''b.example:51821''
       = (Inr w, A1, [Sent (sample_addr 2) hello])
     \<and> handleMessage (sample_xenv (1001 * Second) (sample_addr 1)) (sample_exchange ''B'' ''10.0.0.2'') hello (sample_addr 1)
       = Inr (B', [Sent (sample_addr 1) reply])
     \<and> contactPeer (sample_xenv (1000 * Second) (sample_addr 2)) 0 [Incoming (sample_xenv (1002 * Second) (sample_addr 2)) reply (sample_addr 2), TakeReply]
         ((sample_discovery ''A'')\<lparr>dd_exchange := sample_exchange ''A'' ''10.0.0.1''\<rparr>) ''b.example:51821'' = Some (Inl SliceOutOfRange)"
proof -
  let ?d = "(sample_discovery ''A'')\<lparr>dd_exchange := sample_exchange ''A'' ''10.0.0.1''\<rparr>"
  have inv: "dht_inv ?d"
    using dht_reach_dht_inv [OF dht_reach.created [OF store_inv_new]]
    by (simp add: sample_discovery_def NewDHTDiscovery_def sample_exchange_def)
  have a: "normalizeKnownPeerEndpoint ''b.example:51821'' = ''b.example:51821''" "GetEndpoint (sample_node ''A'' ''10.0.0.1'') \<noteq> ''b.example:51821''"
    "fmlookup (dd_contactedPeers ?d) ''b.example:51821'' = None" "\<not> cfg_DisableIPv6 (dd_config ?d)"
    by (simp_all add: normalizeKnownPeerEndpoint_def split_host_port_def Let_def GetEndpoint_def sample_node_def
        sample_discovery_def NewDHTDiscovery_def sample_exchange_def NewPeerExchange_def sample_config_def)
  show ?thesis
    using contact_outcome [of ?d "sample_exchange ''B'' ''10.0.0.2''" "sample_addr 1" "sample_xenv (1000 * Second) (sample_addr 2)"
        "sample_xenv (1001 * Second) (sample_addr 1)" "''b.example:51821''" "sample_addr 2" "replicate 12 0" "replicate 12 0"
        "sample_xenv (1002 * Second) (sample_addr 2)" 0] inv a clocks_close_sample store_inv_new
    by (simp add: sample_exchange_fields DefaultMaxPeers_def)
qed

end
