(* ===== verification/Spec2Isabelle.thy ===== *)
theory Spec2Isabelle
  imports RateLimit Deploy Envelope Health Stun Dht
begin

text \<open>
  A verification library for wgmesh, a WireGuard mesh network manager written in Go. The
  statements numbered C1, C2, ... in the theories are the main properties; the other lemmas
  support them. File names are relative to src/.

  \<^bold>\<open>The program.\<close> wgmesh has two modes. In the decentralised mode every node runs a daemon that
  derives all keys and its mesh address from one shared secret (pkg/crypto), finds other nodes
  over several discovery layers (pkg/discovery), records what they report in a peer store
  (pkg/node), and periodically turns the store into a WireGuard configuration and routes
  (pkg/daemon, pkg/wireguard, pkg/routes). In the centralised mode an operator keeps a mesh with
  groups and access policies in a file and deploys configurations over SSH (pkg/mesh, pkg/ssh).

  \<^bold>\<open>Theories, bottom up.\<close>

  \<^item> GoPrelude, GoNet, NetArith, Sha256, Base64, Json, AesGcm: the parts of Go and of its standard
    library that the code calls. Maps are finite maps whose range order is an argument, instants
    and durations are integers in nanoseconds, a call that may panic returns a sum. Hashes, HMAC,
    AES-GCM, base64 and JSON are computed, not assumed.
  \<^item> PeerStore (pkg/node/store.go, types.go): the table of peers, its merge rules and the
    notification channels. The goroutines that share the store are a step relation, whose
    invariant is C9; C10 and C11 say what reports cannot do; C35 is a race. The locale
    \<open>peer_sink\<close> is what a discovery layer relies on, and \<open>reporter\<close> is a layer whose effect on the
    store is a list of reports; gossip, LAN and transitive peers are instances.
  \<^item> RateLimit (pkg/ratelimit/limiter.go): token buckets with eviction of the least recently used
    one. C13 is a refinement to an ordered table, C14 and C36 are bounds. Floating point is exact
    arithmetic followed by a rounding function that is a parameter.
  \<^item> Derive (pkg/crypto/derive.go, membership.go): C15, C16, C37, C38.
  \<^item> Config (pkg/daemon/config.go, pkg/ifname/validate.go): C17, C39.
  \<^item> Collision (pkg/daemon/collision.go): C18, C19, C40.
  \<^item> Routes (pkg/routes/routes.go, pkg/daemon/routes.go, pkg/ssh/routes.go): C20.
  \<^item> WgConfig (pkg/wireguard): dumps, diffs, commands and the wg-quick file, C21.
  \<^item> MeshPolicy and Deploy (pkg/mesh, pkg/ssh/wireguard.go): policies and the deployment with the
    mutex of the mesh, C8, C22, C23.
  \<^item> Envelope (pkg/crypto/envelope.go, encrypt.go, rotation.go): messages, their validation,
    sealing and opening, C24, C25.
  \<^item> Reconcile and Health (pkg/daemon/daemon.go): the reconciliation cycle, relays, probes,
    evictions and reload, C3, C5, C6, C26, C27.
  \<^item> Stun (pkg/discovery/stun.go): C29, C30, C31.
  \<^item> Endpoints, Exchange, Gossip, Dht (pkg/discovery): the arithmetic of endpoints, the HELLO and
    REPLY protocol with rendezvous, gossip and LAN announcements, and the layer that owns them,
    C1, C2, C4, C7, C12, C28, C32, C33, C34.

  \<^bold>\<open>Conventions.\<close> The clock, random bytes, the outcome of writing to sockets, name resolution,
  the output of external commands and the order of range statements are arguments. An operation
  reads the clock once. A call that waits is a function of the list of events that happen while
  it waits. HKDF and PBKDF2 come from golang.org/x/crypto and are parameters.

  \<^bold>\<open>Bounds and fuel.\<close> The JSON reader has fuel; twice the length of the input and one is enough,
  because every second call consumes a character. The attribute loop of the STUN parser is a
  partial function; C30 says on which inputs it returns. All other recursions are total.

  \<^bold>\<open>Not modelled.\<close> Logging and metrics; the creation of sockets, of the interface and of systemd
  units; the periodic loops, which only call modelled operations; the DHT server, which is a
  library; files of the mesh (Load and Save), of accounts and services, and the peer cache; the
  JSON of the rotation state; the RPC server; the registry of issues at GitHub; the Dandelion
  relays, which the daemon rotates and nothing reads; promo codes, referrals, pilots, analytics
  and nurturing, which the mesh does not use; the command line and the developer tools.
\<close>

end
